(* ===== verification/Gateway_Prelude.thy ===== *)
theory Gateway_Prelude
  imports Main "HOL-Library.Word" "HOL-Library.AList" "HOL-Library.Sublist"
begin

text \<open>
  Shared vocabulary of the development.  It names the types that every component uses
  (byte strings, instants, durations, association lists standing for Go maps), states the
  fragments of the Go language that several components need (saturating and wrapping
  integer arithmetic, panics as \<open>None\<close>, the error values of the standard library), and holds
  the generic lemmas and the collections of facts that carry the component proofs.
\<close>

section \<open>Types\<close>

text \<open>A Go \<^verbatim>\<open>string\<close> and a Go \<^verbatim>\<open>[]byte\<close> are both sequences of bytes; \<^typ>\<open>char\<close> is a byte.\<close>

type_synonym bytes = string

text \<open>
  An instant is the number of nanoseconds since Go's zero time; a \<^verbatim>\<open>time.Duration\<close> is a
  64-bit number of nanoseconds.  Both are integers here, and the places where the width of
  the duration matters go through \<open>i64\<close> or \<open>time_sub\<close> below.
\<close>

type_synonym time = int
type_synonym duration = int

text \<open>
  A Go map is an association list whose order is the order in which one \<^verbatim>\<open>range\<close> loop over
  it would visit the keys.  Go leaves that order open, so a result that could depend on it
  needs a theorem that it does not.
\<close>

type_synonym ('k, 'v) gomap = "('k \<times> 'v) list"

text \<open>A computation that may panic: \<open>None\<close> is a run-time panic of the goroutine.\<close>

type_synonym 'a go = "'a option"

named_theorems breaker_simps \<open>defining equations of the circuit breaker\<close>
named_theorems kind_simps \<open>the classification table of upstream errors\<close>
named_theorems header_simps \<open>laws of the header operations\<close>
named_theorems agg_simps \<open>defining equations of the aggregator\<close>
named_theorems router_simps \<open>defining equations of the router\<close>

section \<open>Integers of fixed width\<close>

definition i64 :: "int \<Rightarrow> int" where
  "i64 x = (x + 2 ^ 63) mod 2 ^ 64 - 2 ^ 63"

abbreviation max_i64 :: int where
  "max_i64 \<equiv> 9223372036854775807"

abbreviation min_i64 :: int where
  "min_i64 \<equiv> - 9223372036854775808"

lemma i64_id [simp]: "min_i64 \<le> x \<Longrightarrow> x \<le> max_i64 \<Longrightarrow> i64 x = x"
  by (simp add: i64_def mod_pos_pos_trivial)

lemma i64_range: "min_i64 \<le> i64 x" "i64 x \<le> max_i64"
proof -
  have "0 \<le> (x + 2 ^ 63) mod 2 ^ 64" "(x + 2 ^ 63) mod 2 ^ 64 < 2 ^ 64" by simp_all
  then show "min_i64 \<le> i64 x" "i64 x \<le> max_i64" by (simp_all add: i64_def)
qed

text \<open>\<^verbatim>\<open>Time.Sub\<close> (and \<^verbatim>\<open>time.Since\<close>) saturates instead of wrapping.\<close>

definition time_sub :: "time \<Rightarrow> time \<Rightarrow> duration" where
  "time_sub t u = max min_i64 (min max_i64 (t - u))"

lemma time_sub_mono: "t \<le> t' \<Longrightarrow> time_sub t u \<le> time_sub t' u"
  by (simp add: time_sub_def)

lemma time_sub_exact: "min_i64 \<le> t - u \<Longrightarrow> t - u \<le> max_i64 \<Longrightarrow> time_sub t u = t - u"
  by (simp add: time_sub_def)

lemma time_sub_ge: "time_sub t u \<ge> d \<longleftrightarrow> t - u \<ge> d" if "min_i64 < d" "d \<le> max_i64"
  using that by (auto simp: time_sub_def)

section \<open>Error values\<close>

text \<open>
  Go errors as far as the gateway looks at them: the two sentinels of package \<^verbatim>\<open>context\<close>, a
  text, a text that wraps an error (\<^verbatim>\<open>fmt.Errorf\<close> with \<^verbatim>\<open>%w\<close>) and \<^verbatim>\<open>errors.Join\<close>.
\<close>

datatype go_error =
    ErrCanceled
  | ErrDeadlineExceeded
  | ErrMsg string
  | ErrWrap string go_error
  | ErrJoin "go_error list"

fun errors_Is :: "go_error \<Rightarrow> go_error \<Rightarrow> bool" where
  "errors_Is (ErrWrap m e) target \<longleftrightarrow> ErrWrap m e = target \<or> errors_Is e target"
| "errors_Is (ErrJoin es) target \<longleftrightarrow> ErrJoin es = target \<or> list_ex (\<lambda>e. errors_Is e target) es"
| "errors_Is e target \<longleftrightarrow> e = target"

section \<open>Strings\<close>

text \<open>The functions of package \<^verbatim>\<open>strings\<close> that the gateway uses, on ASCII bytes.\<close>

definition TrimPrefix :: "string \<Rightarrow> string \<Rightarrow> string" where
  "TrimPrefix s p = (if prefix p s then drop (length p) s else s)"

definition TrimSuffix :: "string \<Rightarrow> string \<Rightarrow> string" where
  "TrimSuffix s p = (if suffix p s then take (length s - length p) s else s)"

abbreviation HasPrefix :: "string \<Rightarrow> string \<Rightarrow> bool" where
  "HasPrefix s p \<equiv> prefix p s"

abbreviation HasSuffix :: "string \<Rightarrow> string \<Rightarrow> bool" where
  "HasSuffix s p \<equiv> suffix p s"

fun Split :: "string \<Rightarrow> char \<Rightarrow> string list" where
  "Split [] c = [[]]"
| "Split (x # xs) c =
     (if x = c then [] # Split xs c
      else case Split xs c of [] \<Rightarrow> [[x]] | p # ps \<Rightarrow> (x # p) # ps)"

fun Join :: "string list \<Rightarrow> string \<Rightarrow> string" where
  "Join [] sep = []"
| "Join [x] sep = x"
| "Join (x # y # ys) sep = x @ sep @ Join (y # ys) sep"

definition is_digit :: "char \<Rightarrow> bool" where
  "is_digit c \<longleftrightarrow> 48 \<le> (of_char c :: nat) \<and> (of_char c :: nat) \<le> 57"

definition is_upper :: "char \<Rightarrow> bool" where
  "is_upper c \<longleftrightarrow> 65 \<le> (of_char c :: nat) \<and> (of_char c :: nat) \<le> 90"

definition is_lower :: "char \<Rightarrow> bool" where
  "is_lower c \<longleftrightarrow> 97 \<le> (of_char c :: nat) \<and> (of_char c :: nat) \<le> 122"

definition to_upper :: "char \<Rightarrow> char" where
  "to_upper c = (if is_lower c then char_of (of_char c - 32 :: nat) else c)"

definition to_lower :: "char \<Rightarrow> char" where
  "to_lower c = (if is_upper c then char_of (of_char c + 32 :: nat) else c)"

lemma Split_not_Nil [simp]: "Split s c \<noteq> []"
  by (induction s c rule: Split.induct) (auto split: list.splits)

lemma Join_Split: "Join (Split s c) [c] = s"
proof (induction s c rule: Split.induct)
  case (1 c)
  show ?case by simp
next
  case (2 x xs c)
  then show ?case
    by (cases "Split xs c"; cases "tl (Split xs c)") (auto split: list.splits)
qed

section \<open>State machines\<close>

text \<open>
  The contract of a component whose state changes by atomic operations only, each under the
  component's own lock: an initial state and a step per event.  An invariant that holds
  initially and is kept by every event holds after every sequence of events, that is after
  every interleaving of the goroutines that call the component.
\<close>

locale atomic_component =
  fixes step :: "'e \<Rightarrow> 's \<Rightarrow> 's"
    and init :: 's
    and inv :: "'s \<Rightarrow> bool"
  assumes inv_init: "inv init"
    and inv_step: "inv s \<Longrightarrow> inv (step e s)"
begin

lemma inv_run_from: "inv s \<Longrightarrow> inv (fold step es s)"
  by (induction es arbitrary: s) (simp_all add: inv_step)

lemma inv_run: "inv (fold step es init)"
  by (rule inv_run_from [OF inv_init])

end

end
