(* ===== verification/Go_Http.thy ===== *)
theory Go_Http
  imports Gateway_Prelude
begin

text \<open>
  The parts of package \<^verbatim>\<open>net/http\<close> on which the gateway's behaviour rests: header maps with
  canonical keys, status codes, and the \<^verbatim>\<open>ResponseWriter\<close> that sends its header once.
  No definition here models a file of the repository; they are what the standard library
  does for it.
\<close>

section \<open>Header maps\<close>

text \<open>\<^verbatim>\<open>http.Header\<close>: a map from canonical names to the list of values.\<close>

type_synonym Header = "(string, string list) gomap"

text \<open>\<^verbatim>\<open>textproto.CanonicalMIMEHeaderKey\<close>: names with a byte that is no token byte stay as they are.\<close>

definition valid_header_byte :: "char \<Rightarrow> bool" where
  "valid_header_byte c \<longleftrightarrow>
     is_digit c \<or> is_upper c \<or> is_lower c \<or> c \<in> set ''!#$%&*+-.^_`|~'' \<or> of_char c = (39::nat)"

fun canon_from :: "bool \<Rightarrow> string \<Rightarrow> string" where
  "canon_from up [] = []"
| "canon_from up (c # cs) =
     (let d = (if up then to_upper c else to_lower c) in d # canon_from (d = CHR ''-'') cs)"

definition canon :: "string \<Rightarrow> string" where
  "canon s = (if list_all valid_header_byte s then canon_from True s else s)"

definition hdr_values :: "Header \<Rightarrow> string \<Rightarrow> string list" where
  "hdr_values h k = (case map_of h k of None \<Rightarrow> [] | Some vs \<Rightarrow> vs)"

definition hdr_Get :: "Header \<Rightarrow> string \<Rightarrow> string" where
  "hdr_Get h k = (case hdr_values h (canon k) of [] \<Rightarrow> [] | v # vs \<Rightarrow> v)"

definition hdr_Set :: "string \<Rightarrow> string \<Rightarrow> Header \<Rightarrow> Header" where
  "hdr_Set k v h = AList.update (canon k) [v] h"

definition hdr_Add :: "string \<Rightarrow> string \<Rightarrow> Header \<Rightarrow> Header" where
  "hdr_Add k v h = AList.update (canon k) (hdr_values h (canon k) @ [v]) h"

definition hdr_Del :: "string \<Rightarrow> Header \<Rightarrow> Header" where
  "hdr_Del k h = AList.delete (canon k) h"

text \<open>The values one key has after a loop that adds every value of a list under that key.\<close>

definition hdr_AddAll :: "string \<Rightarrow> string list \<Rightarrow> Header \<Rightarrow> Header" where
  "hdr_AddAll k vs h = fold (hdr_Add k) vs h"

lemma hdr_values_update:
  "hdr_values (AList.update k vs h) k' = (if k' = k then vs else hdr_values h k')"
  by (simp add: hdr_values_def update_conv')

lemma hdr_values_Set [header_simps]:
  "hdr_values (hdr_Set k v h) k' = (if k' = canon k then [v] else hdr_values h k')"
  by (simp add: hdr_Set_def hdr_values_update)

lemma hdr_values_Add [header_simps]:
  "hdr_values (hdr_Add k v h) k' =
     (if k' = canon k then hdr_values h (canon k) @ [v] else hdr_values h k')"
  by (simp add: hdr_Add_def hdr_values_update)

lemma hdr_values_Del [header_simps]:
  "hdr_values (hdr_Del k h) k' = (if k' = canon k then [] else hdr_values h k')"
  by (simp add: hdr_Del_def hdr_values_def delete_conv')

lemma hdr_values_AddAll [header_simps]:
  "hdr_values (hdr_AddAll k vs h) k' =
     (if k' = canon k then hdr_values h k' @ vs else hdr_values h k')"
  unfolding hdr_AddAll_def
  by (induction vs arbitrary: h) (auto simp: hdr_values_Add)

lemma hdr_values_Nil [simp]: "hdr_values [] k = []"
  by (simp add: hdr_values_def)

lemma hdr_distinct [header_simps]:
  "distinct (map fst h) \<Longrightarrow> distinct (map fst (hdr_Set k v h))"
  "distinct (map fst h) \<Longrightarrow> distinct (map fst (hdr_Add k v h))"
  "distinct (map fst h) \<Longrightarrow> distinct (map fst (hdr_Del k h))"
  by (simp_all add: hdr_Set_def hdr_Add_def hdr_Del_def distinct_update distinct_delete)

lemma to_upper_idem [simp]: "to_upper (to_upper c) = to_upper c"
  by (auto simp: to_upper_def is_lower_def)

lemma to_lower_idem [simp]: "to_lower (to_lower c) = to_lower c"
  by (auto simp: to_lower_def is_upper_def)

lemma valid_header_byte_case:
  "valid_header_byte c \<Longrightarrow> valid_header_byte (to_upper c)"
  "valid_header_byte c \<Longrightarrow> valid_header_byte (to_lower c)"
  by (auto simp: valid_header_byte_def to_upper_def to_lower_def is_upper_def is_lower_def)

lemma canon_from_valid: "list_all valid_header_byte s \<Longrightarrow> list_all valid_header_byte (canon_from up s)"
  by (induction up s rule: canon_from.induct) (auto simp: Let_def valid_header_byte_case)

lemma canon_from_idem: "canon_from up (canon_from up s) = canon_from up s"
  by (induction up s rule: canon_from.induct) (auto simp: Let_def)

lemma canon_idem [simp]: "canon (canon s) = canon s"
  by (simp add: canon_def canon_from_valid canon_from_idem)

text \<open>The keys the gateway writes, in the form in which the map holds them.\<close>

lemma canon_keys [simp]:
  "canon ''Content-Type'' = ''Content-Type''"
  "canon ''Content-Length'' = ''Content-Length''"
  "canon ''X-Request-ID'' = ''X-Request-Id''"
  "canon ''X-Request-Fingerprint'' = ''X-Request-Fingerprint''"
  "canon ''X-Partial-Errors'' = ''X-Partial-Errors''"
  "canon ''X-Forwarded-For'' = ''X-Forwarded-For''"
  "canon ''X-Forwarded-Proto'' = ''X-Forwarded-Proto''"
  "canon ''X-Forwarded-Host'' = ''X-Forwarded-Host''"
  "canon ''X-Forwarded-Port'' = ''X-Forwarded-Port''"
  "canon ''X-Real-IP'' = ''X-Real-Ip''"
  "canon ''Forwarded'' = ''Forwarded''"
  "canon ''X-Content-Type-Options'' = ''X-Content-Type-Options''"
  by code_simp+

section \<open>Status codes\<close>

abbreviation StatusOK :: int where "StatusOK \<equiv> 200"
abbreviation StatusNoContent :: int where "StatusNoContent \<equiv> 204"
abbreviation StatusPartialContent :: int where "StatusPartialContent \<equiv> 206"
abbreviation StatusMultipleChoices :: int where "StatusMultipleChoices \<equiv> 300"
abbreviation StatusNotModified :: int where "StatusNotModified \<equiv> 304"
abbreviation StatusBadRequest :: int where "StatusBadRequest \<equiv> 400"
abbreviation StatusUnauthorized :: int where "StatusUnauthorized \<equiv> 401"
abbreviation StatusNotFound :: int where "StatusNotFound \<equiv> 404"
abbreviation StatusConflict :: int where "StatusConflict \<equiv> 409"
abbreviation StatusRequestEntityTooLarge :: int where "StatusRequestEntityTooLarge \<equiv> 413"
abbreviation StatusTooManyRequests :: int where "StatusTooManyRequests \<equiv> 429"
abbreviation StatusInternalServerError :: int where "StatusInternalServerError \<equiv> 500"
abbreviation StatusBadGateway :: int where "StatusBadGateway \<equiv> 502"
abbreviation StatusServiceUnavailable :: int where "StatusServiceUnavailable \<equiv> 503"

text \<open>\<^verbatim>\<open>http.StatusText\<close>: empty on a code it does not know.\<close>

definition status_texts :: "(int \<times> string) list" where
  "status_texts =
     [(100, ''Continue''), (101, ''Switching Protocols''), (102, ''Processing''),
      (103, ''Early Hints''), (200, ''OK''), (201, ''Created''), (202, ''Accepted''),
      (203, ''Non-Authoritative Information''), (204, ''No Content''), (205, ''Reset Content''),
      (206, ''Partial Content''), (207, ''Multi-Status''), (208, ''Already Reported''),
      (226, ''IM Used''), (300, ''Multiple Choices''), (301, ''Moved Permanently''),
      (302, ''Found''), (303, ''See Other''), (304, ''Not Modified''), (305, ''Use Proxy''),
      (307, ''Temporary Redirect''), (308, ''Permanent Redirect''), (400, ''Bad Request''),
      (401, ''Unauthorized''), (402, ''Payment Required''), (403, ''Forbidden''),
      (404, ''Not Found''), (405, ''Method Not Allowed''), (406, ''Not Acceptable''),
      (407, ''Proxy Authentication Required''), (408, ''Request Timeout''), (409, ''Conflict''),
      (410, ''Gone''), (411, ''Length Required''), (412, ''Precondition Failed''),
      (413, ''Request Entity Too Large''), (414, ''Request URI Too Long''),
      (415, ''Unsupported Media Type''), (416, ''Requested Range Not Satisfiable''),
      (417, ''Expectation Failed''), (418, ''I'm a teapot''), (421, ''Misdirected Request''),
      (422, ''Unprocessable Entity''), (423, ''Locked''), (424, ''Failed Dependency''),
      (425, ''Too Early''), (426, ''Upgrade Required''), (428, ''Precondition Required''),
      (429, ''Too Many Requests''), (431, ''Request Header Fields Too Large''),
      (451, ''Unavailable For Legal Reasons''), (500, ''Internal Server Error''),
      (501, ''Not Implemented''), (502, ''Bad Gateway''), (503, ''Service Unavailable''),
      (504, ''Gateway Timeout''), (505, ''HTTP Version Not Supported''),
      (506, ''Variant Also Negotiates''), (507, ''Insufficient Storage''),
      (508, ''Loop Detected''), (510, ''Not Extended''),
      (511, ''Network Authentication Required'')]"

definition StatusText :: "int \<Rightarrow> string" where
  "StatusText code = (case map_of status_texts code of Some t \<Rightarrow> t | None \<Rightarrow> [])"

section \<open>The response writer\<close>

text \<open>
  The server's \<^verbatim>\<open>ResponseWriter\<close>: the header map that handlers edit, the status and the copy of
  that map that went out with the first final \<^verbatim>\<open>WriteHeader\<close>, and the body bytes written since.
  \<^verbatim>\<open>WriteHeader\<close> panics on a code that is not three digits long, sends an informational code
  without committing to it, and ignores a second final code.
\<close>

record ResponseWriter =
  rw_header :: Header
  rw_sent :: "(int \<times> Header) option"
  rw_body :: bytes

definition new_writer :: ResponseWriter where
  "new_writer = \<lparr>rw_header = [], rw_sent = None, rw_body = []\<rparr>"

definition rw_WriteHeader :: "int \<Rightarrow> ResponseWriter \<Rightarrow> ResponseWriter go" where
  "rw_WriteHeader code w =
     (if rw_sent w \<noteq> None then Some w
      else if code < 100 \<or> code > 999 then None
      else if code \<le> 199 \<and> code \<noteq> 101 then Some w
      else Some (w\<lparr>rw_sent := Some (code, rw_header w)\<rparr>))"

definition body_allowed :: "int \<Rightarrow> bool" where
  "body_allowed code \<longleftrightarrow> \<not> (100 \<le> code \<and> code \<le> 199) \<and> code \<noteq> 204 \<and> code \<noteq> 304"

definition rw_Write :: "bytes \<Rightarrow> ResponseWriter \<Rightarrow> go_error option \<times> ResponseWriter" where
  "rw_Write b w0 =
     (let w = (if rw_sent w0 = None then w0\<lparr>rw_sent := Some (200, rw_header w0)\<rparr> else w0) in
      if b = [] then (None, w)
      else if body_allowed (fst (the (rw_sent w)))
      then (None, w\<lparr>rw_body := rw_body w @ b\<rparr>)
      else (Some (ErrMsg ''http: request method or response status code does not allow body''), w))"

definition rw_edit :: "(Header \<Rightarrow> Header) \<Rightarrow> ResponseWriter \<Rightarrow> ResponseWriter" where
  "rw_edit f w = w\<lparr>rw_header := f (rw_header w)\<rparr>"

definition http_Error :: "string \<Rightarrow> int \<Rightarrow> ResponseWriter \<Rightarrow> ResponseWriter go" where
  "http_Error msg code w =
     Option.bind
       (rw_WriteHeader code
         (rw_edit (hdr_Set ''X-Content-Type-Options'' ''nosniff'' \<circ>
                   hdr_Set ''Content-Type'' ''text/plain; charset=utf-8'' \<circ>
                   hdr_Del ''Content-Length'') w))
       (\<lambda>w'. Some (snd (rw_Write (msg @ [CHR 0x0A]) w')))"

definition http_NotFound :: "ResponseWriter \<Rightarrow> ResponseWriter go" where
  "http_NotFound w = http_Error ''404 page not found'' StatusNotFound w"

definition final_status :: "int \<Rightarrow> bool" where
  "final_status code \<longleftrightarrow> 200 \<le> code \<and> code \<le> 999"

lemma rw_WriteHeader_fresh:
  "rw_sent w = None \<Longrightarrow> final_status code \<Longrightarrow>
     rw_WriteHeader code w = Some (w\<lparr>rw_sent := Some (code, rw_header w)\<rparr>)"
  by (simp add: rw_WriteHeader_def final_status_def)

lemma rw_WriteHeader_again: "rw_sent w \<noteq> None \<Longrightarrow> rw_WriteHeader code w = Some w"
  by (simp add: rw_WriteHeader_def)

lemma rw_Write_keeps_sent: "rw_sent w \<noteq> None \<Longrightarrow> rw_sent (snd (rw_Write b w)) = rw_sent w"
  by (auto simp: rw_Write_def Let_def)

lemma rw_edit_sent [simp]:
  "rw_sent (rw_edit f w) = rw_sent w" "rw_body (rw_edit f w) = rw_body w"
  "rw_header (rw_edit f w) = f (rw_header w)"
  by (simp_all add: rw_edit_def)

end
