(* ===== verification/Go_Net.thy ===== *)
theory Go_Net
  imports Go_Http
begin

text \<open>
  The parts of the packages \<^verbatim>\<open>net\<close>, \<^verbatim>\<open>strconv\<close> and \<^verbatim>\<open>strings\<close> on which the resolution of the
  client address rests: textual IP addresses of both families, networks in prefix notation,
  \<^verbatim>\<open>host:port\<close> pairs, decimal numbers, and the trimming of white space.  No definition here
  models a file of the repository.
\<close>

unbundle bit_operations_syntax

section \<open>Numbers\<close>

fun nat_dec :: "nat \<Rightarrow> string" where
  "nat_dec n = (if n < 10 then [char_of (48 + n)] else nat_dec (n div 10) @ [char_of (48 + n mod 10)])"

declare nat_dec.simps [simp del]

definition Itoa :: "int \<Rightarrow> string" where
  "Itoa i = (if i < 0 then ''-'' @ nat_dec (nat (- i)) else nat_dec (nat i))"

definition dec_value :: "string \<Rightarrow> nat" where
  "dec_value s = foldl (\<lambda>n c. 10 * n + (of_char c - 48)) 0 s"

text \<open>\<^verbatim>\<open>strconv.Atoi\<close>: an optional sign, at least one digit, a value of 64 bits.\<close>

definition Atoi :: "string \<Rightarrow> int option" where
  "Atoi s =
     (let (neg, ds) = (case s of c # cs \<Rightarrow>
              if c = CHR ''-'' then (True, cs) else if c = CHR ''+'' then (False, cs) else (False, s)
            | [] \<Rightarrow> (False, s));
          n = (if neg then - int (dec_value ds) else int (dec_value ds))
      in if ds \<noteq> [] \<and> list_all is_digit ds \<and> min_i64 \<le> n \<and> n \<le> max_i64 then Some n else None)"

lemma nat_dec_digits: "list_all is_digit (nat_dec n)" "nat_dec n \<noteq> []"
proof (induction n rule: nat_dec.induct)
  case (1 n)
  have "is_digit (char_of (48 + m :: nat))" if "m < 10" for m
    using that by (simp add: is_digit_def)
  then show "list_all is_digit (nat_dec n)" "nat_dec n \<noteq> []"
    using 1 by (simp_all add: nat_dec.simps [of n])
qed

lemma dec_value_snoc: "dec_value (s @ [c]) = 10 * dec_value s + (of_char c - 48)"
  by (simp add: dec_value_def)

lemma dec_value_nat_dec [simp]: "dec_value (nat_dec n) = n"
proof (induction n rule: nat_dec.induct)
  case (1 n)
  show ?case
  proof (cases "n < 10")
    case True
    then show ?thesis by (simp add: nat_dec.simps [of n] dec_value_def)
  next
    case False
    with 1 have "dec_value (nat_dec (n div 10)) = n div 10" by simp
    moreover have "(of_char (char_of (48 + n mod 10 :: nat) :: char) :: nat) - 48 = n mod 10" by simp
    ultimately show ?thesis
      using False by (simp add: nat_dec.simps [of n] dec_value_snoc)
  qed
qed

lemma nat_dec_inj: "nat_dec m = nat_dec n \<longleftrightarrow> m = n"
  by (metis dec_value_nat_dec)

lemma nat_dec_hd: "n \<ge> 10 \<Longrightarrow> hd (nat_dec n) \<noteq> CHR ''0''"
proof (induction n rule: nat_dec.induct)
  case (1 n)
  show ?case
  proof (cases "n div 10 < 10")
    case True
    with 1(2) have "nat_dec (n div 10) = [char_of (48 + n div 10)]" "0 < n div 10"
      by (simp_all add: nat_dec.simps [of "n div 10"])
    moreover have "(char_of (48 + m :: nat) :: char) \<noteq> CHR ''0''" if "0 < m" "m < 10" for m
    proof
      assume "(char_of (48 + m :: nat) :: char) = CHR ''0''"
      then have "(of_char (char_of (48 + m :: nat) :: char) :: nat) = of_char CHR ''0''" by simp
      with that show False by simp
    qed
    ultimately show ?thesis using 1(2) True by (simp add: nat_dec.simps [of n])
  next
    case False
    with 1 show ?thesis by (simp add: nat_dec.simps [of n] nat_dec_digits(2))
  qed
qed

section \<open>White space\<close>

text \<open>The encodings of the characters \<^verbatim>\<open>unicode.IsSpace\<close> knows.\<close>

definition space_encodings :: "string list" where
  "space_encodings =
     [[CHR 0x09], [CHR 0x0A], [CHR 0x0B], [CHR 0x0C], [CHR 0x0D], [CHR 0x20],
      [CHR 0xC2, CHR 0x85], [CHR 0xC2, CHR 0xA0], [CHR 0xE1, CHR 0x9A, CHR 0x80]] @
     map (\<lambda>b. [CHR 0xE2, CHR 0x80, char_of (b :: nat)]) ([128..<139] @ [168, 169, 175]) @
     [[CHR 0xE2, CHR 0x81, CHR 0x9F], [CHR 0xE3, CHR 0x80, CHR 0x80]]"

text \<open>Stripping any of a list of prefixes, as often as possible; the empty prefix does not count.\<close>

function strip_any :: "string list \<Rightarrow> string \<Rightarrow> string" where
  "strip_any ps s =
     (case find (\<lambda>p. p \<noteq> [] \<and> prefix p s) ps of
        None \<Rightarrow> s
      | Some p \<Rightarrow> strip_any ps (drop (length p) s))"
  by pat_completeness auto

termination strip_any
proof (relation "measure (\<lambda>(ps, s). length s)", simp)
  fix ps s p
  assume "find (\<lambda>p. p \<noteq> [] \<and> prefix p s) ps = Some p"
  then have "p \<noteq> []" "prefix p s" by (auto simp: find_Some_iff)
  then show "((ps, drop (length p) s), (ps, s)) \<in> measure (\<lambda>(ps, s). length s)"
    by (auto simp: prefix_def)
qed

declare strip_any.simps [simp del]

definition TrimSpace :: "string \<Rightarrow> string" where
  "TrimSpace s = rev (strip_any (map rev space_encodings) (rev (strip_any space_encodings s)))"

text \<open>Text without white space and without bytes of longer characters is left alone.\<close>

definition graphic :: "char \<Rightarrow> bool" where
  "graphic c \<longleftrightarrow> 33 \<le> (of_char c :: nat) \<and> (of_char c :: nat) < 128"

lemma strip_any_id:
  assumes "\<And>p. p \<in> set ps \<Longrightarrow> p \<noteq> [] \<and> \<not> graphic (hd p)" and "list_all graphic s"
  shows "strip_any ps s = s"
proof -
  have "\<not> (p \<noteq> [] \<and> prefix p s)" if "p \<in> set ps" for p
    using assms(1) [OF that] assms(2) by (cases p; cases s) auto
  then have "find (\<lambda>p. p \<noteq> [] \<and> prefix p s) ps = None" by (simp add: find_None_iff)
  then show ?thesis by (simp add: strip_any.simps)
qed

lemma TrimSpace_graphic:
  assumes "list_all graphic s" shows "TrimSpace s = s"
proof -
  have "p \<noteq> [] \<and> \<not> graphic (hd p) \<and> \<not> graphic (hd (rev p))" if "p \<in> set space_encodings" for p
    using that by (auto simp: space_encodings_def graphic_def)
  then show ?thesis
    unfolding TrimSpace_def using assms by (subst strip_any_id, auto simp: strip_any_id)+
qed

section \<open>IP addresses\<close>

text \<open>\<^verbatim>\<open>net.IP\<close>: four or sixteen bytes; the empty list is the nil address.\<close>

type_synonym IP = "8 word list"

definition v4InV6Prefix :: "8 word list" where
  "v4InV6Prefix = replicate 10 0 @ [0xFF, 0xFF]"

definition To4 :: "IP \<Rightarrow> IP" where
  "To4 ip =
     (if length ip = 4 then ip
      else if length ip = 16 \<and> take 12 ip = v4InV6Prefix then drop 12 ip
      else [])"

definition octet :: "string \<Rightarrow> 8 word option" where
  "octet s =
     (if s \<noteq> [] \<and> list_all is_digit s \<and> (length s = 1 \<or> hd s \<noteq> CHR ''0'') \<and> dec_value s \<le> 255
      then Some (of_nat (dec_value s)) else None)"

definition parseIPv4 :: "string \<Rightarrow> 8 word list option" where
  "parseIPv4 s =
     (let parts = Split s CHR ''.'' in
      if length parts = 4 then those (map octet parts) else None)"

definition hex_digit :: "char \<Rightarrow> nat option" where
  "hex_digit c =
     (let n = of_char c :: nat in
      if 48 \<le> n \<and> n \<le> 57 then Some (n - 48)
      else if 65 \<le> n \<and> n \<le> 70 then Some (n - 55)
      else if 97 \<le> n \<and> n \<le> 102 then Some (n - 87)
      else None)"

definition is_hex :: "char \<Rightarrow> bool" where
  "is_hex c \<longleftrightarrow> hex_digit c \<noteq> None"

definition hex_value :: "string \<Rightarrow> nat" where
  "hex_value s = foldl (\<lambda>n c. 16 * n + (case hex_digit c of None \<Rightarrow> 0 | Some d \<Rightarrow> d)) 0 s"

text \<open>
  The loop of \<^verbatim>\<open>netip.parseIPv6\<close>: the bytes read so far, the position of \<^verbatim>\<open>::\<close> if it was seen,
  and the rest of the text.
\<close>

function ipv6_loop ::
  "8 word list \<Rightarrow> nat option \<Rightarrow> string \<Rightarrow> (8 word list \<times> nat option) option" where
  "ipv6_loop ip ellipsis s =
     (if length ip \<ge> 16 then (if s = [] then Some (ip, ellipsis) else None)
      else
        let h = takeWhile is_hex s; rest = dropWhile is_hex s in
        if h = [] \<or> length h > 4 then None
        else if rest \<noteq> [] \<and> hd rest = CHR ''.'' then
          if (ellipsis = None \<and> length ip \<noteq> 12) \<or> length ip + 4 > 16 then None
          else map_option (\<lambda>v4. (ip @ v4, ellipsis)) (parseIPv4 s)
        else
          let ip' = ip @ [of_nat (hex_value h div 256), of_nat (hex_value h mod 256)] in
          (case rest of
             [] \<Rightarrow> Some (ip', ellipsis)
           | c # s' \<Rightarrow>
               if c \<noteq> CHR '':'' \<or> s' = [] then None
               else if hd s' = CHR '':'' then
                 if ellipsis \<noteq> None then None
                 else if tl s' = [] then Some (ip', Some (length ip'))
                 else ipv6_loop ip' (Some (length ip')) (tl s')
               else ipv6_loop ip' ellipsis s'))"
  by pat_completeness auto

termination ipv6_loop
proof (relation "measure (\<lambda>(ip, e, s). length s)")
  show "wf (measure (\<lambda>(ip, e, s). length s))" by simp
next
  fix ip :: "8 word list" and e :: "nat option" and s h rest ip' c s'
  assume "rest = dropWhile is_hex s" "rest = c # s'"
  then have le: "length (c # s') \<le> length s" by (metis length_dropWhile_le)
  then show "((ip', Some (length ip'), tl s'), (ip, e, s)) \<in> measure (\<lambda>(ip, e, s). length s)"
    by (simp add: less_eq_Suc_le diff_le_self [THEN le_trans])
  from le show "((ip', e, s'), (ip, e, s)) \<in> measure (\<lambda>(ip, e, s). length s)" by simp
qed

declare ipv6_loop.simps [simp del]

definition parseIPv6 :: "string \<Rightarrow> 8 word list option" where
  "parseIPv6 s0 =
     (let (ellipsis, s) = (if prefix ''::'' s0 then (Some 0, drop 2 s0) else (None, s0)) in
      if ellipsis \<noteq> None \<and> s = [] then Some (replicate 16 0)
      else
        case ipv6_loop [] ellipsis s of
          None \<Rightarrow> None
        | Some (ip, e) \<Rightarrow>
            if length ip < 16 then
              (case e of
                 None \<Rightarrow> None
               | Some k \<Rightarrow> Some (take k ip @ replicate (16 - length ip) 0 @ drop k ip))
            else if e \<noteq> None then None
            else Some ip)"

text \<open>
  \<^verbatim>\<open>net.ParseIP\<close>: the first of the three separators decides the family.  An address with a
  zone is no \<^verbatim>\<open>net.IP\<close>.  The result has sixteen bytes, or is nil.
\<close>

definition ParseIP :: "string \<Rightarrow> IP" where
  "ParseIP s =
     (case find (\<lambda>c. c = CHR ''.'' \<or> c = CHR '':'' \<or> c = CHR ''%'') s of
        None \<Rightarrow> []
      | Some c \<Rightarrow>
          if c = CHR ''.'' then
            (case parseIPv4 s of None \<Rightarrow> [] | Some ip \<Rightarrow> v4InV6Prefix @ ip)
          else if c = CHR '':'' \<and> CHR ''%'' \<notin> set s then
            (case parseIPv6 s of None \<Rightarrow> [] | Some ip \<Rightarrow> ip)
          else [])"

section \<open>Printing addresses\<close>

fun hex_of :: "nat \<Rightarrow> string" where
  "hex_of n =
     (let d = (\<lambda>m. char_of (if m < 10 then 48 + m else 87 + m :: nat)) in
      if n < 16 then [d n] else hex_of (n div 16) @ [d (n mod 16)])"

declare hex_of.simps [simp del]

definition groups :: "IP \<Rightarrow> nat list" where
  "groups ip = map (\<lambda>i. unat (ip ! (2 * i)) * 256 + unat (ip ! (2 * i + 1))) [0..<8]"

text \<open>The first longest run of at least two zero groups.\<close>

fun zero_run :: "nat list \<Rightarrow> nat \<Rightarrow> nat \<times> nat \<Rightarrow> nat \<times> nat" where
  "zero_run [] i best = best"
| "zero_run (g # gs) i best =
     (let l = length (takeWhile (\<lambda>x. x = 0) (g # gs)) in
      zero_run gs (i + 1) (if l \<ge> 2 \<and> l > snd best - fst best then (i, i + l) else best))"

definition ipv6_string :: "IP \<Rightarrow> string" where
  "ipv6_string ip =
     (let gs = groups ip; (a, b) = zero_run gs 0 (255, 255) in
      if a = 255 then Join (map hex_of gs) '':''
      else Join (map hex_of (take a gs)) '':'' @ ''::'' @ Join (map hex_of (drop b gs)) '':'')"

definition IP_String :: "IP \<Rightarrow> string" where
  "IP_String ip =
     (if ip = [] then ''<nil>''
      else if length ip \<noteq> 4 \<and> length ip \<noteq> 16 then
        ''?'' @ concat (map (\<lambda>b. (if unat b < 16 then ''0'' else []) @ hex_of (unat b)) ip)
      else if length (To4 ip) = 4 then Join (map (\<lambda>b. nat_dec (unat b)) (To4 ip)) ''.''
      else ipv6_string ip)"

section \<open>Networks\<close>

record IPNet =
  ipn_IP :: IP
  ipn_Mask :: "8 word list"

definition networkNumberAndMask :: "IPNet \<Rightarrow> IP \<times> 8 word list" where
  "networkNumberAndMask n =
     (let ip = (if To4 (ipn_IP n) \<noteq> [] then To4 (ipn_IP n) else ipn_IP n); m = ipn_Mask n in
      if length ip \<noteq> 4 \<and> length ip \<noteq> 16 then ([], [])
      else if length m = 4 then (if length ip \<noteq> 4 then ([], []) else (ip, m))
      else if length m = 16 then (ip, if length ip = 4 then drop 12 m else m)
      else ([], []))"

definition IPNet_Contains :: "IPNet \<Rightarrow> IP \<Rightarrow> bool" where
  "IPNet_Contains n ip0 =
     (let (nn, m) = networkNumberAndMask n; ip = (if To4 ip0 \<noteq> [] then To4 ip0 else ip0) in
      length ip = length nn \<and>
      list_all (\<lambda>(a, b, k). a AND k = b AND k) (zip ip (zip nn m)))"

definition CIDRMask :: "nat \<Rightarrow> nat \<Rightarrow> 8 word list" where
  "CIDRMask ones bytes_n =
     map (\<lambda>i. let k = ones - 8 * i in
           if k \<ge> 8 then 0xFF else NOT (drop_bit k 0xFF)) [0..<bytes_n]"

definition ParseCIDR :: "string \<Rightarrow> IPNet option" where
  "ParseCIDR s =
     (if CHR ''/'' \<notin> set s then None
      else
        let addr = takeWhile (\<lambda>c. c \<noteq> CHR ''/'') s;
            mask = tl (dropWhile (\<lambda>c. c \<noteq> CHR ''/'') s);
            ip = ParseIP addr;
            is4 = (find (\<lambda>c. c = CHR ''.'' \<or> c = CHR '':'' \<or> c = CHR ''%'') addr = Some CHR ''.'');
            len = (if is4 then 4 else 16)
        in
        if ip = [] \<or> mask = [] \<or> \<not> list_all is_digit mask \<or> dec_value mask > 8 * len then None
        else
          let m = CIDRMask (dec_value mask) len;
              base = (if is4 then drop 12 ip else ip)
          in Some \<lparr>ipn_IP = map2 (AND) base m, ipn_Mask = m\<rparr>)"

section \<open>Host and port\<close>

definition SplitHostPort :: "string \<Rightarrow> (string \<times> string) option" where
  "SplitHostPort hp =
     (if CHR '':'' \<notin> set hp then None
      else
        let port = rev (takeWhile (\<lambda>c. c \<noteq> CHR '':'') (rev hp));
            i = length hp - length port - 1
        in
        if hd hp = CHR ''['' then
          if CHR '']'' \<notin> set hp then None
          else
            let end = length (takeWhile (\<lambda>c. c \<noteq> CHR '']'') hp) in
            if end + 1 \<noteq> i then None
            else if CHR ''['' \<in> set (drop 1 hp) \<or> CHR '']'' \<in> set (drop (end + 1) hp) then None
            else Some (drop 1 (take end hp), port)
        else if CHR '':'' \<in> set (take i hp) then None
        else if CHR ''['' \<in> set hp \<or> CHR '']'' \<in> set hp then None
        else Some (take i hp, port))"

section \<open>Laws\<close>

lemma length_those: "those xs = Some ys \<Longrightarrow> length ys = length xs"
  by (induction xs arbitrary: ys) (auto split: option.splits)

lemma parseIPv4_length: "parseIPv4 s = Some ip \<Longrightarrow> length ip = 4"
  by (auto simp: parseIPv4_def Let_def dest: length_those split: if_splits)

lemma Split_no_sep: "c \<notin> set s \<Longrightarrow> Split s c = [s]"
  by (induction s) auto

lemma Split_append: "c \<notin> set s \<Longrightarrow> Split (s @ c # t) c = s # Split t c"
  by (induction s) auto

lemma Split_Join:
  "xs \<noteq> [] \<Longrightarrow> (\<And>x. x \<in> set xs \<Longrightarrow> c \<notin> set x) \<Longrightarrow> Split (Join xs [c]) c = xs"
  by (induction xs "[c]" rule: Join.induct) (auto simp: Split_no_sep Split_append)

lemma octet_nat_dec: "octet (nat_dec (unat (b :: 8 word))) = Some b"
proof -
  have "unat b \<le> 255" using unsigned_less [of b, where 'a = nat] by simp
  moreover have "length (nat_dec (unat b)) = 1 \<or> hd (nat_dec (unat b)) \<noteq> CHR ''0''"
    using nat_dec_hd [of "unat b"] by (cases "unat b < 10") (auto simp: nat_dec.simps [of "unat b"])
  ultimately show ?thesis by (simp add: octet_def nat_dec_digits)
qed

lemma nat_dec_no_dot: "CHR ''.'' \<notin> set (nat_dec n)"
  using nat_dec_digits(1) [of n] by (auto simp: list_all_iff is_digit_def)

text \<open>Printing an IPv4 address and parsing the text gives the address back.\<close>

lemma ParseIP_String_v4:
  assumes "length ip = 4"
  shows "ParseIP (IP_String (v4InV6Prefix @ ip)) = v4InV6Prefix @ ip"
proof -
  let ?parts = "map (\<lambda>b. nat_dec (unat b)) ip"
  let ?s = "Join ?parts ''.''"
  have len: "length v4InV6Prefix = 12" by (simp add: v4InV6Prefix_def)
  then have "IP_String (v4InV6Prefix @ ip) = ?s"
    using assms by (auto simp: IP_String_def To4_def)
  moreover have "parseIPv4 ?s = Some ip"
  proof -
    have "Split ?s CHR ''.'' = ?parts"
      using assms nat_dec_no_dot by (intro Split_Join) auto
    moreover have "those (map octet ?parts) = Some ip" by (induction ip) (simp_all add: octet_nat_dec)
    ultimately show ?thesis using assms by (simp add: parseIPv4_def)
  qed
  moreover have "find (\<lambda>c. c = CHR ''.'' \<or> c = CHR '':'' \<or> c = CHR ''%'') ?s = Some CHR ''.''"
  proof -
    obtain a b c d where ip: "ip = [a, b, c, d]"
      using assms by (auto simp: length_Suc_conv numeral_eq_Suc)
    have "find (\<lambda>c. c = CHR ''.'' \<or> c = CHR '':'' \<or> c = CHR ''%'') (ds @ CHR ''.'' # r) = Some CHR ''.''"
      if "list_all is_digit ds" for ds r
      using that by (induction ds) (auto simp: is_digit_def)
    with nat_dec_digits(1) ip show ?thesis by simp
  qed
  ultimately show ?thesis by (simp add: ParseIP_def)
qed

end
