(* ===== verification/Go_Float.thy ===== *)
theory Go_Float
  imports Complex_Main Gateway_Prelude
begin

text \<open>
  The part of \<^verbatim>\<open>float64\<close> arithmetic and of package \<^verbatim>\<open>time\<close> that the rate limiter uses.  A finite
  \<^verbatim>\<open>float64\<close> is the rational number it stands for; an operation is the exact operation followed
  by rounding to 53 significant bits, ties to even.  The exponent range is unbounded here: the
  limiter's values lie between \<open>2\<^sup>-\<^sup>6\<^sup>4\<close> and \<open>2\<^sup>6\<^sup>4\<close>.  What the theorems need of rounding
  is the locale \<open>rounding\<close>: it is monotone, and exact on the integers of at most 53 bits.
\<close>

section \<open>Rounding\<close>

definition round_half_even :: "rat \<Rightarrow> int" where
  "round_half_even x =
     (let f = \<lfloor>x\<rfloor>; r = x - of_int f in
      if r < 1 / 2 then f else if r > 1 / 2 then f + 1 else if even f then f else f + 1)"

text \<open>The number of binary digits of a positive integer.\<close>

function bitlen :: "int \<Rightarrow> int" where
  "bitlen n = (if n \<le> 0 then 0 else 1 + bitlen (n div 2))"
  by pat_completeness auto

termination bitlen
  by (relation "measure nat") auto

declare bitlen.simps [simp del]

lemma bitlen_nonneg: "0 \<le> bitlen n"
  by (induction n rule: bitlen.induct) (simp add: bitlen.simps)

lemma bitlen_pos: "0 < n \<Longrightarrow> 1 \<le> bitlen n"
  using bitlen_nonneg [of "n div 2"] by (simp add: bitlen.simps [of n])

lemma bitlen_bounds: "0 < n \<Longrightarrow> 2 ^ nat (bitlen n - 1) \<le> n \<and> n < 2 ^ nat (bitlen n)"
proof (induction n rule: bitlen.induct)
  case (1 n)
  show ?case
  proof (cases "n = 1")
    case True
    then show ?thesis by (simp add: bitlen.simps)
  next
    case False
    with 1 have "0 < n div 2" by linarith
    with 1 have IH: "2 ^ nat (bitlen (n div 2) - 1) \<le> n div 2" "n div 2 < 2 ^ nat (bitlen (n div 2))"
      by auto
    have "bitlen n = 1 + bitlen (n div 2)" using 1 by (simp add: bitlen.simps [of n])
    moreover have "1 \<le> bitlen (n div 2)" using \<open>0 < n div 2\<close> by (rule bitlen_pos)
    ultimately have "(2 :: int) ^ nat (bitlen n) = 2 * 2 ^ nat (bitlen (n div 2))"
      "(2 :: int) ^ nat (bitlen n - 1) = 2 * 2 ^ nat (bitlen (n div 2) - 1)"
      by (simp_all add: nat_add_distrib nat_diff_distrib flip: power_Suc)
    with IH show ?thesis by linarith
  qed
qed

text \<open>The exponent of a positive number: \<open>2\<^sup>e \<le> x < 2\<^sup>e\<^sup>+\<^sup>1\<close>.\<close>

definition exponent :: "rat \<Rightarrow> int" where
  "exponent x = (if x \<ge> 1 then bitlen \<lfloor>x\<rfloor> - 1 else - bitlen (\<lceil>1 / x\<rceil> - 1))"

definition two_to :: "int \<Rightarrow> rat" where
  "two_to e = (if e \<ge> 0 then 2 ^ nat e else 1 / 2 ^ nat (- e))"

definition f64_round_pos :: "rat \<Rightarrow> rat" where
  "f64_round_pos x =
     (let ulp = two_to (exponent x - 52) in of_int (round_half_even (x / ulp)) * ulp)"

definition f64_round :: "rat \<Rightarrow> rat" where
  "f64_round x = (if x > 0 then f64_round_pos x else if x < 0 then - f64_round_pos (- x) else 0)"

lemma round_half_even_bounds: "\<lfloor>x\<rfloor> \<le> round_half_even x" "round_half_even x \<le> \<lfloor>x\<rfloor> + 1"
  by (auto simp: round_half_even_def Let_def)

lemma round_half_even_mono: "x \<le> y \<Longrightarrow> round_half_even x \<le> round_half_even y"
proof -
  assume le: "x \<le> y"
  show ?thesis
  proof (cases "\<lfloor>x\<rfloor> = \<lfloor>y\<rfloor>")
    case True
    with le show ?thesis by (auto simp: round_half_even_def Let_def)
  next
    case False
    with le have "\<lfloor>x\<rfloor> + 1 \<le> \<lfloor>y\<rfloor>" using floor_mono [OF le] by linarith
    with round_half_even_bounds [of x] round_half_even_bounds [of y] show ?thesis by linarith
  qed
qed

lemma round_half_even_int [simp]: "round_half_even (of_int n) = n"
  by (simp add: round_half_even_def Let_def)

lemma two_to_pos [simp]: "0 < two_to e"
  by (simp add: two_to_def)

lemma two_to_add: "two_to (a + b) = two_to a * two_to b"
proof -
  have eq: "two_to e = 2 powi e" for e
    by (simp add: two_to_def power_int_def inverse_eq_divide power_one_over)
  show ?thesis by (simp add: eq power_int_add)
qed

lemma two_to_nat: "two_to (int n) = 2 ^ n"
  by (simp add: two_to_def)

lemma two_to_mono: "a \<le> b \<Longrightarrow> two_to a \<le> two_to b"
proof -
  assume "a \<le> b"
  then have "two_to b = two_to a * 2 ^ nat (b - a)"
    using two_to_add [of a "b - a"] two_to_nat [of "nat (b - a)"] by simp
  moreover have "1 \<le> (2 :: rat) ^ nat (b - a)" by simp
  ultimately show ?thesis
    using mult_left_mono [of 1 "2 ^ nat (b - a)" "two_to a"] two_to_pos [of a] by simp
qed

lemma exponent_bounds:
  assumes "0 < x"
  shows "two_to (exponent x) \<le> x" "x < two_to (exponent x + 1)"
proof -
  show "two_to (exponent x) \<le> x" "x < two_to (exponent x + 1)"
  proof (atomize (full), cases "x \<ge> 1")
    case True
    then have pos: "0 < \<lfloor>x\<rfloor>" by simp
    have "2 ^ nat (bitlen \<lfloor>x\<rfloor> - 1) \<le> \<lfloor>x\<rfloor> \<and> \<lfloor>x\<rfloor> < 2 ^ nat (bitlen \<lfloor>x\<rfloor>)"
      using bitlen_bounds [OF pos] by simp
    then have "of_int (2 ^ nat (bitlen \<lfloor>x\<rfloor> - 1)) \<le> x \<and> x < of_int (2 ^ nat (bitlen \<lfloor>x\<rfloor>))"
      by (metis floor_less_iff le_floor_iff)
    moreover have "bitlen \<lfloor>x\<rfloor> \<ge> 1" using pos by (rule bitlen_pos)
    ultimately show "two_to (exponent x) \<le> x \<and> x < two_to (exponent x + 1)"
      using True by (simp add: exponent_def two_to_def)
  next
    case False
    define m where "m = \<lceil>1 / x\<rceil> - 1"
    have "1 < 1 / x" using False assms by simp
    then have pos: "0 < m" unfolding m_def by (simp add: less_ceiling_iff)
    let ?k = "nat (bitlen m)"
    have k: "bitlen m \<ge> 1" using pos by (rule bitlen_pos)
    have "2 ^ (?k - 1) \<le> m \<and> m < 2 ^ ?k"
      using bitlen_bounds [OF pos] k by (simp add: nat_diff_distrib)
    then have "of_int (2 ^ (?k - 1)) < 1 / x \<and> 1 / x \<le> of_int (2 ^ ?k)"
      unfolding m_def by (metis add_le_cancel_right ceiling_le_iff diff_add_cancel less_ceiling_iff
          zle_diff1_eq)
    then have "x < 1 / 2 ^ (?k - 1) \<and> 1 / 2 ^ ?k \<le> x"
      using assms by (simp add: field_simps)
    moreover have "exponent x = - bitlen m" using False by (simp add: exponent_def m_def)
    moreover have "two_to (- bitlen m + 1) = 1 / 2 ^ (?k - 1)"
      using k by (auto simp: two_to_def nat_diff_distrib)
    moreover have "two_to (- bitlen m) = 1 / 2 ^ ?k"
      using k by (simp add: two_to_def)
    ultimately show "two_to (exponent x) \<le> x \<and> x < two_to (exponent x + 1)" by simp
  qed
qed

lemma scaled_bounds:
  assumes "0 < x"
  shows "of_int (2 ^ 52) \<le> x / two_to (exponent x - 52)" "x / two_to (exponent x - 52) < of_int (2 ^ 53)"
proof -
  have "two_to (exponent x) = 2 ^ 52 * two_to (exponent x - 52)"
    "two_to (exponent x + 1) = 2 ^ 53 * two_to (exponent x - 52)"
    using two_to_add [of "int 52" "exponent x - 52"] two_to_add [of "int 53" "exponent x - 52"]
    by (simp_all add: two_to_nat del: of_nat_numeral, simp_all add: add.commute)
  with exponent_bounds [OF assms]
  show "of_int (2 ^ 52) \<le> x / two_to (exponent x - 52)" "x / two_to (exponent x - 52) < of_int (2 ^ 53)"
    by (simp_all add: pos_le_divide_eq pos_divide_less_eq)
qed

text \<open>A rounded number lies within the binade of the number, its upper end included.\<close>

lemma f64_round_pos_binade:
  assumes "0 < x"
  shows "two_to (exponent x) \<le> f64_round_pos x" "f64_round_pos x \<le> two_to (exponent x + 1)"
proof -
  let ?u = "two_to (exponent x - 52)"
  have "2 ^ 52 \<le> round_half_even (x / ?u)"
    using round_half_even_mono [OF scaled_bounds(1) [OF assms]] unfolding round_half_even_int .
  moreover have "round_half_even (x / ?u) \<le> 2 ^ 53"
    using round_half_even_mono [OF less_imp_le [OF scaled_bounds(2) [OF assms]]]
    unfolding round_half_even_int .
  ultimately have "(2 ^ 52 :: rat) \<le> of_int (round_half_even (x / ?u))"
    "of_int (round_half_even (x / ?u)) \<le> (2 ^ 53 :: rat)"
    by (metis of_int_le_iff of_int_numeral of_int_power)+
  moreover have "two_to (exponent x) = 2 ^ 52 * ?u" "two_to (exponent x + 1) = 2 ^ 53 * ?u"
    using two_to_add [of 52 "exponent x - 52"] two_to_add [of 53 "exponent x - 52"]
    by (simp_all add: two_to_def [of 52] two_to_def [of 53] add.commute)
  ultimately show "two_to (exponent x) \<le> f64_round_pos x" "f64_round_pos x \<le> two_to (exponent x + 1)"
    by (simp_all add: f64_round_pos_def Let_def)
qed

lemma f64_round_pos_mono:
  assumes "0 < x" "x \<le> y"
  shows "f64_round_pos x \<le> f64_round_pos y"
proof -
  have y: "0 < y" using assms by simp
  have "exponent x \<le> exponent y"
  proof (rule ccontr)
    assume big: "\<not> ?thesis"
    then have "two_to (exponent y + 1) \<le> two_to (exponent x)" by (intro two_to_mono) simp
    with exponent_bounds [OF assms(1)] exponent_bounds [OF y] assms(2) show False by linarith
  qed
  then consider "exponent x = exponent y" | "exponent x + 1 \<le> exponent y" by linarith
  then show ?thesis
  proof cases
    case 1
    have "x / two_to (exponent y - 52) \<le> y / two_to (exponent y - 52)"
      using assms(2) by (simp add: divide_right_mono less_imp_le)
    from round_half_even_mono [OF this] 1 show ?thesis
      by (simp add: f64_round_pos_def Let_def)
  next
    case 2
    with two_to_mono [OF 2] f64_round_pos_binade [OF assms(1)] f64_round_pos_binade [OF y]
    show ?thesis by linarith
  qed
qed

lemma f64_round_pos_int:
  assumes "0 < n" "n \<le> 2 ^ 53"
  shows "f64_round_pos (of_int n) = of_int n"
proof -
  let ?e = "exponent (of_int n)"
  have e: "?e = bitlen n - 1" using assms(1) by (simp add: exponent_def)
  show ?thesis
  proof (cases "n = 2 ^ 53")
    case True
    then have "?e = 53" using e by (simp add: bitlen.simps)
    with True show ?thesis by (simp add: f64_round_pos_def Let_def two_to_def round_half_even_def)
  next
    case False
    with assms(2) have "n < 2 ^ 53" by simp
    moreover have "2 ^ nat (bitlen n - 1) \<le> n" using bitlen_bounds [OF assms(1)] by simp
    ultimately have "(2 :: int) ^ nat (bitlen n - 1) < 2 ^ 53" by linarith
    then have "nat (bitlen n - 1) < 53" by (rule power_less_imp_less_exp [rotated]) simp
    then have le: "?e \<le> 52" using e by linarith
    then have u: "two_to (?e - 52) = 1 / 2 ^ nat (52 - ?e)"
      by (auto simp: two_to_def)
    have "(of_int n :: rat) / two_to (?e - 52) = of_int (n * 2 ^ nat (52 - ?e))" by (simp add: u)
    then have "f64_round_pos (of_int n) = of_int (n * 2 ^ nat (52 - ?e)) * two_to (?e - 52)"
      unfolding f64_round_pos_def Let_def by (simp only: round_half_even_int)
    then show ?thesis by (simp add: u)
  qed
qed

section \<open>What rounding promises\<close>

locale rounding =
  fixes rnd :: "rat \<Rightarrow> rat"
  assumes rnd_mono: "x \<le> y \<Longrightarrow> rnd x \<le> rnd y"
    and rnd_int: "\<bar>n\<bar> \<le> 2 ^ 53 \<Longrightarrow> rnd (of_int n) = of_int n"
begin

lemma rnd_0: "rnd 0 = 0"
  using rnd_int [of 0] by simp

lemma rnd_1: "rnd 1 = 1"
  using rnd_int [of 1] by simp

lemma rnd_nonneg: "0 \<le> x \<Longrightarrow> 0 \<le> rnd x"
  using rnd_mono [of 0 x] by (simp add: rnd_0)

lemma rnd_le_1: "x \<le> 1 \<Longrightarrow> rnd x \<le> 1"
  using rnd_mono [of x 1] by (simp add: rnd_1)

text \<open>A ratio of two rounded numbers, the smaller over the larger, does not round above one.\<close>

lemma ratio_le_1:
  assumes "a \<le> b" "0 < rnd b"
  shows "rnd (rnd a / rnd b) \<le> 1"
proof -
  have "rnd a / rnd b \<le> 1" using rnd_mono [OF assms(1)] assms(2) by (simp add: divide_le_eq)
  then show ?thesis by (rule rnd_le_1)
qed

text \<open>A weighted sum is at least its unweighted part, with one rounding or with two.\<close>

lemma sum_ge:
  assumes "0 \<le> p" "0 \<le> w" "\<bar>n\<bar> \<le> 2 ^ 53"
  shows "of_int n \<le> rnd (rnd (p * w) + of_int n)" "of_int n \<le> rnd (p * w + of_int n)"
proof -
  have "0 \<le> rnd (p * w)" using assms(1,2) by (intro rnd_nonneg) simp
  then have "rnd (of_int n) \<le> rnd (rnd (p * w) + of_int n)" by (intro rnd_mono) simp
  moreover have "rnd (of_int n) \<le> rnd (p * w + of_int n)" using assms(1,2) by (intro rnd_mono) simp
  ultimately show "of_int n \<le> rnd (rnd (p * w) + of_int n)" "of_int n \<le> rnd (p * w + of_int n)"
    using rnd_int [OF assms(3)] by simp_all
qed

end

interpretation f64: rounding f64_round
proof
  show "f64_round x \<le> f64_round y" if "x \<le> y" for x y
  proof -
    have pos: "0 \<le> f64_round_pos z" if "0 < z" for z
      using f64_round_pos_binade(1) [OF that] two_to_pos [of "exponent z"] by linarith
    show ?thesis
      using that f64_round_pos_mono [of x y] f64_round_pos_mono [of "- y" "- x"] pos [of y] pos [of "- x"]
      by (auto simp: f64_round_def)
  qed
  show "f64_round (of_int n) = of_int n" if "\<bar>n\<bar> \<le> 2 ^ 53" for n
    using that f64_round_pos_int [of n] f64_round_pos_int [of "- n"]
    by (auto simp: f64_round_def)
qed

end
