(* ===== verification/Go_Duration.thy ===== *)
theory Go_Duration
  imports Go_Net Go_Float
begin

text \<open>
  Reading and printing of durations (\<^verbatim>\<open>time.ParseDuration\<close>, \<^verbatim>\<open>time.Duration.String\<close>), and that reading
  undoes printing.  No definition here models a file of the repository.
\<close>

section \<open>Reading\<close>

text \<open>
  \<^verbatim>\<open>time.ParseDuration\<close>.  Its error is dropped by the code that calls it, so \<open>None\<close> stands for any.
  The numbers are of type \<^verbatim>\<open>uint64\<close>; only the sum of the terms can wrap around.
\<close>

definition unitMap :: "(string \<times> int) list" where
  "unitMap =
     [(''ns'', 1), (''us'', 1000), ([CHR 0xC2, CHR 0xB5, CHR ''s''], 1000), ([CHR 0xCE, CHR 0xBC, CHR ''s''], 1000),
      (''ms'', 1000000), (''s'', 1000000000), (''m'', 60000000000), (''h'', 3600000000000)]"

definition digit_value :: "char \<Rightarrow> int" where
  "digit_value c = int (of_char c) - 48"

fun leadingInt :: "int \<Rightarrow> string \<Rightarrow> (int \<times> string) option" where
  "leadingInt x [] = Some (x, [])"
| "leadingInt x (c # cs) =
     (if \<not> is_digit c then Some (x, c # cs)
      else if x > 2 ^ 63 div 10 then None
      else if x * 10 + digit_value c > 2 ^ 63 then None
      else leadingInt (x * 10 + digit_value c) cs)"

text \<open>The scale is a power of ten, which \<^verbatim>\<open>float64\<close> holds exactly as far as it can go.\<close>

fun leadingFraction :: "bool \<Rightarrow> int \<Rightarrow> int \<Rightarrow> string \<Rightarrow> int \<times> int \<times> string" where
  "leadingFraction overflow x scale [] = (x, scale, [])"
| "leadingFraction overflow x scale (c # cs) =
     (if \<not> is_digit c then (x, scale, c # cs)
      else if overflow \<or> x > (2 ^ 63 - 1) div 10 \<or> x * 10 + digit_value c > 2 ^ 63
      then leadingFraction True x scale cs
      else leadingFraction False (x * 10 + digit_value c) (scale * 10) cs)"

definition fraction_value :: "int \<Rightarrow> int \<Rightarrow> int \<Rightarrow> int" where
  "fraction_value f scale unit =
     \<lfloor>f64_round (f64_round (of_int f) * f64_round (of_int unit / of_int scale))\<rfloor>"

definition number_char :: "char \<Rightarrow> bool" where
  "number_char c \<longleftrightarrow> c = CHR ''.'' \<or> is_digit c"

text \<open>One term is a number, \<open>v + f / scale\<close>, \<dots>\<close>

definition duration_number :: "string \<Rightarrow> (int \<times> int \<times> int \<times> string) option" where
  "duration_number s =
     (if s = [] \<or> \<not> number_char (hd s) then None
      else case leadingInt 0 s of
        None \<Rightarrow> None
      | Some (v, []) \<Rightarrow> Some (v, 0, 1, [])
      | Some (v, c # cs) \<Rightarrow>
          let pre = (length cs + 1 \<noteq> length s) in
          if c = CHR ''.'' then
            (case leadingFraction False 0 1 cs of (f, scale, s2) \<Rightarrow>
               if \<not> pre \<and> length s2 = length cs then None else Some (v, f, scale, s2))
          else if \<not> pre then None else Some (v, 0, 1, c # cs))"

text \<open>\<dots> and its unit: their value in nanoseconds and the rest of the text.\<close>

definition duration_term :: "string \<Rightarrow> (int \<times> string) option" where
  "duration_term s =
     (case duration_number s of
        None \<Rightarrow> None
      | Some (v, f, scale, s2) \<Rightarrow>
          (case map_of unitMap (takeWhile (\<lambda>c. \<not> number_char c) s2) of
             None \<Rightarrow> None
           | Some unit \<Rightarrow>
               if v > 2 ^ 63 div unit then None
               else
                 let w = v * unit + (if f > 0 then fraction_value f scale unit else 0) in
                 if w > 2 ^ 63 then None else Some (w, dropWhile (\<lambda>c. \<not> number_char c) s2)))"

lemma leadingInt_length: "leadingInt x s = Some (y, r) \<Longrightarrow> length r \<le> length s"
  by (induction x s rule: leadingInt.induct) (auto split: if_splits)

lemma leadingFraction_length: "leadingFraction b x sc s = (y, sc', r) \<Longrightarrow> length r \<le> length s"
proof (induction b x sc s rule: leadingFraction.induct)
  case (2 b x sc c cs)
  show ?case
  proof (cases "is_digit c")
    case True
    then show ?thesis
      using 2 by (cases "b \<or> x > (2 ^ 63 - 1) div 10 \<or> x * 10 + digit_value c > 2 ^ 63") auto
  qed (use 2 in auto)
qed simp

lemma duration_number_length:
  assumes "duration_number s = Some (v, f, sc, r)" shows "length r \<le> length s"
proof -
  from assms obtain x s1 where s1: "leadingInt 0 s = Some (x, s1)"
    by (auto simp: duration_number_def split: if_splits option.splits)
  have "length s1 \<le> length s" using s1 by (rule leadingInt_length)
  moreover have "length r \<le> length s1"
  proof (cases s1)
    case Nil
    with assms s1 show ?thesis by (simp add: duration_number_def split: if_splits)
  next
    case (Cons c cs)
    obtain g sc' s2 where lf: "leadingFraction False 0 1 cs = (g, sc', s2)" by (cases "leadingFraction False 0 1 cs")
    with assms s1 Cons have "r = s2 \<or> r = c # cs" by (auto simp: duration_number_def Let_def split: if_splits)
    with leadingFraction_length [OF lf] Cons show ?thesis by auto
  qed
  ultimately show ?thesis by simp
qed

lemma duration_term_length:
  assumes "duration_term s = Some (w, r)" shows "length r < length s"
proof -
  let ?nn = "\<lambda>c. \<not> number_char c"
  from assms obtain v f sc s2 unit where s2: "duration_number s = Some (v, f, sc, s2)"
    "map_of unitMap (takeWhile ?nn s2) = Some unit" "r = dropWhile ?nn s2"
    unfolding duration_term_def Let_def by (force split: option.splits if_splits)
  from s2(2) have "takeWhile ?nn s2 \<noteq> []" by (auto simp: unitMap_def split: if_splits)
  moreover have "length s2 = length (takeWhile ?nn s2) + length r"
    unfolding s2(3) by (metis length_append takeWhile_dropWhile_id)
  moreover have "length s2 \<le> length s" using s2(1) by (rule duration_number_length)
  ultimately show ?thesis by (cases "takeWhile ?nn s2") auto
qed

function duration_loop :: "int \<Rightarrow> string \<Rightarrow> int option" where
  "duration_loop d s =
     (if s = [] then Some d
      else case duration_term s of
        None \<Rightarrow> None
      | Some (v, s') \<Rightarrow>
          if (d + v) mod 2 ^ 64 > 2 ^ 63 then None else duration_loop ((d + v) mod 2 ^ 64) s')"
  by pat_completeness auto

termination duration_loop
  by (relation "measure (length \<circ> snd)") (auto simp: duration_term_length)

declare duration_loop.simps [simp del]

definition ParseDuration :: "string \<Rightarrow> duration option" where
  "ParseDuration orig =
     (let (neg, s) = (case orig of
            c # cs \<Rightarrow> if c = CHR ''-'' \<or> c = CHR ''+'' then (c = CHR ''-'', cs) else (False, orig)
          | [] \<Rightarrow> (False, orig))
      in
      if s = ''0'' then Some 0
      else if s = [] then None
      else case duration_loop 0 s of
        None \<Rightarrow> None
      | Some d \<Rightarrow>
          if neg then Some (i64 (- i64 d)) else if d > 2 ^ 63 - 1 then None else Some d)"

lemma ParseDuration_examples:
  "ParseDuration ''1h30m'' = Some 5400000000000" "ParseDuration ''0s'' = Some 0"
  "ParseDuration ''-1.5s'' = Some (- 1500000000)" "ParseDuration ''5 s'' = None"
  "ParseDuration ''9223372036854775808ns9223372036854775808ns'' = Some 0"
  by code_simp+

section \<open>Printing\<close>

text \<open>
  \<^verbatim>\<open>time.Duration.String\<close> fills a buffer from its end: \<open>acc\<close> is what stands there already.  \<open>fmtFrac\<close> prints
  the last \<open>n\<close> digits of a number as a fraction without trailing zeros and returns the other ones.
\<close>

definition digit_char :: "int \<Rightarrow> char" where
  "digit_char n = char_of (48 + nat n)"

fun fmtFrac :: "nat \<Rightarrow> bool \<Rightarrow> int \<Rightarrow> string \<Rightarrow> string \<times> int" where
  "fmtFrac 0 print v acc = (if print then CHR ''.'' # acc else acc, v)"
| "fmtFrac (Suc n) print v acc =
     (let print' = (print \<or> v mod 10 \<noteq> 0) in
      fmtFrac n print' (v div 10) (if print' then digit_char (v mod 10) # acc else acc))"

definition fmtInt :: "int \<Rightarrow> string \<Rightarrow> string" where
  "fmtInt v acc = nat_dec (nat v) @ acc"

definition small_duration :: "int \<Rightarrow> string" where
  "small_duration u =
     (if u = 0 then ''0s''
      else
        let (prec, unit) = (if u < 1000 then (0, ''ns'') else if u < 1000000 then (3, [CHR 0xC2, CHR 0xB5, CHR ''s''])
                            else (6, ''ms''));
            (acc, v) = fmtFrac prec False u unit
        in fmtInt v acc)"

definition large_duration :: "int \<Rightarrow> string" where
  "large_duration u =
     (let (acc, v) = fmtFrac 9 False u ''s'';
          secs = fmtInt (v mod 60) acc;
          mins = v div 60
      in
      if mins > 0 then
        let acc = fmtInt (mins mod 60) (CHR ''m'' # secs); hours = mins div 60 in
        if hours > 0 then fmtInt hours (CHR ''h'' # acc) else acc
      else secs)"

definition Duration_String :: "duration \<Rightarrow> string" where
  "Duration_String d =
     (let u = \<bar>d\<bar>; s = (if u < 1000000000 then small_duration u else large_duration u) in
      if d < 0 then CHR ''-'' # s else s)"

section \<open>Reading undoes printing\<close>

lemma dec_value_foldl: "foldl (\<lambda>n c. 10 * n + (of_char c - 48)) n s = n * 10 ^ length s + dec_value s"
proof (induction s arbitrary: n)
  case (Cons c s)
  have "dec_value (c # s) = (of_char c - 48) * 10 ^ length s + dec_value s"
    using Cons.IH [of "of_char c - 48"] by (simp add: dec_value_def)
  with Cons.IH [of "10 * n + (of_char c - 48)"] show ?case by (simp add: algebra_simps)
qed (simp add: dec_value_def)

lemma dec_value_Cons: "dec_value (c # s) = (of_char c - 48) * 10 ^ length s + dec_value s"
  using dec_value_foldl [of "of_char c - 48" s] by (simp add: dec_value_def)

lemma digit_value_nonneg: "is_digit c \<Longrightarrow> 0 \<le> digit_value c"
  by (simp add: digit_value_def is_digit_def)

lemma dec_value_digits:
  assumes "is_digit c"
  shows "x * 10 ^ length (c # s) + int (dec_value (c # s)) =
    (x * 10 + digit_value c) * 10 ^ length s + int (dec_value s)"
proof -
  have "int (of_char c - 48) = digit_value c" using assms by (simp add: digit_value_def is_digit_def of_nat_diff)
  then have "int (dec_value (c # s)) = digit_value c * 10 ^ length s + int (dec_value s)"
    by (simp only: dec_value_Cons of_nat_add of_nat_mult of_nat_power of_nat_numeral)
  then show ?thesis by (simp add: algebra_simps)
qed

text \<open>What does not continue a number.\<close>

definition no_digit_first :: "string \<Rightarrow> bool" where
  "no_digit_first s \<longleftrightarrow> s = [] \<or> \<not> is_digit (hd s)"

lemma leadingInt_digits:
  assumes "list_all is_digit ds" "no_digit_first rest" "0 \<le> x" "x * 10 ^ length ds + int (dec_value ds) \<le> 2 ^ 63"
  shows "leadingInt x (ds @ rest) = Some (x * 10 ^ length ds + int (dec_value ds), rest)"
  using assms
proof (induction ds arbitrary: x)
  case Nil
  then show ?case by (cases rest) (auto simp: no_digit_first_def dec_value_def)
next
  case (Cons c ds)
  define y where "y = x * 10 + digit_value c"
  have c: "0 \<le> digit_value c" using Cons.prems(1) by (simp add: digit_value_nonneg)
  have eq: "x * 10 ^ length (c # ds) + int (dec_value (c # ds)) = y * 10 ^ length ds + int (dec_value ds)"
    unfolding y_def using Cons.prems(1) by (intro dec_value_digits) simp
  have y: "0 \<le> y" using Cons.prems(3) c by (simp add: y_def)
  then have "y * 1 \<le> y * 10 ^ length ds" by (intro mult_left_mono) auto
  then have le: "y \<le> 2 ^ 63" using Cons.prems(4) unfolding eq by linarith
  then have "x * 10 \<le> 2 ^ 63" using c unfolding y_def by linarith
  then have "\<not> x > 2 ^ 63 div 10" by simp
  with le Cons.prems Cons.IH [of y] y show ?case unfolding eq by (simp add: y_def)
qed

lemma leadingFraction_digits:
  assumes "list_all is_digit ds" "no_digit_first rest" "0 \<le> x" "x * 10 ^ length ds + int (dec_value ds) \<le> 2 ^ 63 - 1"
  shows "leadingFraction False x sc (ds @ rest) = (x * 10 ^ length ds + int (dec_value ds), sc * 10 ^ length ds, rest)"
  using assms
proof (induction ds arbitrary: x sc)
  case Nil
  then show ?case by (cases rest) (auto simp: no_digit_first_def dec_value_def)
next
  case (Cons c ds)
  define y where "y = x * 10 + digit_value c"
  have c: "0 \<le> digit_value c" using Cons.prems(1) by (simp add: digit_value_nonneg)
  have eq: "x * 10 ^ length (c # ds) + int (dec_value (c # ds)) = y * 10 ^ length ds + int (dec_value ds)"
    unfolding y_def using Cons.prems(1) by (intro dec_value_digits) simp
  have y: "0 \<le> y" using Cons.prems(3) c by (simp add: y_def)
  then have "y * 1 \<le> y * 10 ^ length ds" by (intro mult_left_mono) auto
  then have le: "y \<le> 2 ^ 63 - 1" using Cons.prems(4) unfolding eq by linarith
  then have "x * 10 \<le> 2 ^ 63 - 1" using c unfolding y_def by linarith
  then have "\<not> x > (2 ^ 63 - 1) div 10" by simp
  with le Cons.prems Cons.IH [of y "sc * 10"] y show ?case unfolding eq by (simp add: y_def algebra_simps)
qed

lemma fraction_value_exact:
  assumes "0 \<le> f" "f < sc" "sc dvd unit" "0 < unit" "unit \<le> 2 ^ 53"
  shows "fraction_value f sc unit = f * (unit div sc)"
proof -
  obtain k where k: "unit = sc * k" using assms(3) by blast
  have sc: "0 < sc" using assms(1,2) by simp
  with k assms(4) have "0 < k" by (simp add: zero_less_mult_iff)
  have "sc * 1 \<le> sc * k" "1 * k \<le> sc * k" using sc \<open>0 < k\<close> by (intro mult_left_mono mult_right_mono; simp)+
  then have "sc \<le> 2 ^ 53" "k \<le> 2 ^ 53" using k assms(5) by linarith+
  have "f * k \<le> sc * k" using assms(2) \<open>0 < k\<close> by (intro mult_right_mono) simp_all
  then have fk: "f * k \<le> 2 ^ 53" using k assms(5) by linarith
  have "(of_int unit / of_int sc :: rat) = of_int k" using k sc by simp
  moreover have "f64_round (of_int f) = of_int f" "f64_round (of_int k) = of_int k"
    using assms(1,2) \<open>sc \<le> 2 ^ 53\<close> \<open>k \<le> 2 ^ 53\<close> \<open>0 < k\<close> by (simp_all add: f64.rnd_int)
  moreover have "f64_round (of_int (f * k)) = of_int (f * k)"
    using fk assms(1) \<open>0 < k\<close> by (intro f64.rnd_int) simp
  ultimately show ?thesis using k sc by (simp add: fraction_value_def flip: of_int_mult)
qed

text \<open>A printed fraction: its text, its digits as a number and its scale.\<close>

definition fraction_text :: "string \<Rightarrow> int \<Rightarrow> int \<Rightarrow> bool" where
  "fraction_text fr f sc \<longleftrightarrow>
     fr = [] \<and> f = 0 \<and> sc = 1 \<or>
     (\<exists>ds. fr = CHR ''.'' # ds \<and> ds \<noteq> [] \<and> list_all is_digit ds \<and> f = int (dec_value ds) \<and> sc = 10 ^ length ds)"

definition unit_text :: "string \<Rightarrow> int \<Rightarrow> bool" where
  "unit_text u unit \<longleftrightarrow> map_of unitMap u = Some unit \<and> list_all (\<lambda>c. \<not> number_char c) u"

lemma number_char_simps: "is_digit c \<Longrightarrow> number_char c" "number_char CHR ''.''" "\<not> is_digit CHR ''.''"
  by (simp_all add: number_char_def is_digit_def)

lemma duration_number_text:
  assumes "fraction_text fr f sc" "f < sc" "sc \<le> 2 ^ 62" "0 \<le> n" "n \<le> 2 ^ 63" "rest \<noteq> []" "\<not> number_char (hd rest)"
  shows "duration_number (nat_dec (nat n) @ fr @ rest) = Some (n, f, sc, rest)"
proof -
  let ?ds = "nat_dec (nat n)"
  have ds: "list_all is_digit ?ds" "?ds \<noteq> []" by (rule nat_dec_digits)+
  have first: "number_char (hd (?ds @ fr @ rest))" using ds by (cases ?ds) (auto simp: number_char_simps)
  have nd: "no_digit_first rest" using assms(7) by (auto simp: no_digit_first_def number_char_def)
  have "no_digit_first (fr @ rest)"
    using assms(1) nd by (auto simp: fraction_text_def no_digit_first_def is_digit_def)
  then have int: "leadingInt 0 (?ds @ fr @ rest) = Some (n, fr @ rest)"
    using leadingInt_digits [OF ds(1), of "fr @ rest" 0] assms(4,5) by simp
  show ?thesis
    using assms(1) unfolding fraction_text_def
  proof (elim disjE exE conjE)
    assume "fr = []" "f = 0" "sc = 1"
    moreover obtain c cs where "rest = c # cs" using assms(6) by (cases rest) auto
    ultimately show ?thesis using int first ds(2) assms(7) by (auto simp: duration_number_def Let_def number_char_def)
  next
    fix es
    assume es: "fr = CHR ''.'' # es" "es \<noteq> []" "list_all is_digit es" "f = int (dec_value es)" "sc = 10 ^ length es"
    have "leadingFraction False 0 1 (es @ rest) = (f, sc, rest)"
    proof -
      have "0 * 10 ^ length es + int (dec_value es) \<le> 2 ^ 63 - 1"
        using assms(2,3) unfolding es(4) by simp
      from leadingFraction_digits [OF es(3) nd _ this, of 1] show ?thesis by (simp add: es(4,5))
    qed
    then show ?thesis using int first es(1,2) by (simp add: duration_number_def Let_def)
  qed
qed

lemma duration_term_text:
  assumes "fraction_text fr f sc" "f < sc" "unit_text u unit" "sc dvd unit" "0 \<le> n" "n * unit + f * (unit div sc) \<le> 2 ^ 63"
    and "rest = [] \<or> number_char (hd rest)"
  shows "duration_term (nat_dec (nat n) @ fr @ u @ rest) = Some (n * unit + f * (unit div sc), rest)"
proof -
  let ?nn = "\<lambda>c. \<not> number_char c"
  have unit: "0 < unit" "unit \<le> 2 ^ 53" "u \<noteq> []"
    using assms(3) by (auto simp: unit_text_def unitMap_def split: if_splits)
  have f: "0 \<le> f" "0 < sc" using assms(1) by (auto simp: fraction_text_def)
  have "sc \<le> unit" using assms(4) unit(1) by (rule zdvd_imp_le)
  have "0 \<le> f * (unit div sc)" using f unit(1) by (simp add: pos_imp_zdiv_nonneg_iff)
  then have nu: "n * unit \<le> 2 ^ 63" using assms(6) by linarith
  moreover have "n * 1 \<le> n * unit" using assms(5) unit(1) by (intro mult_left_mono) simp_all
  ultimately have "n \<le> 2 ^ 63" by linarith
  have u: "list_all ?nn u" "u @ rest \<noteq> []" "\<not> number_char (hd (u @ rest))"
    using assms(3) unit(3) by (auto simp: unit_text_def list_all_iff)
  have "duration_number (nat_dec (nat n) @ fr @ u @ rest) = Some (n, f, sc, u @ rest)"
    using duration_number_text [OF assms(1,2) _ assms(5) \<open>n \<le> 2 ^ 63\<close> u(2,3)] \<open>sc \<le> unit\<close> unit(2) by simp
  moreover have "takeWhile ?nn (u @ rest) = u" "dropWhile ?nn (u @ rest) = rest"
    using u(1) assms(7) by (cases rest; auto simp: takeWhile_append dropWhile_append list_all_iff)+
  moreover have "\<not> n > 2 ^ 63 div unit" using zdiv_mono1 [OF nu unit(1)] unit(1) by simp
  moreover have "(if f > 0 then fraction_value f sc unit else 0) = f * (unit div sc)"
    using fraction_value_exact [OF f(1) assms(2,4) unit(1,2)] f(1) by auto
  ultimately show ?thesis
    using assms(3,6) unfolding duration_term_def unit_text_def by (simp only: option.case prod.case Let_def) simp
qed

lemma digit_char: "0 \<le> d \<Longrightarrow> d < 10 \<Longrightarrow> is_digit (digit_char d)" "0 \<le> d \<Longrightarrow> d < 10 \<Longrightarrow> of_char (digit_char d) - 48 = nat d"
  by (simp_all add: digit_char_def is_digit_def)

lemma fmtFrac_all:
  "0 \<le> v \<Longrightarrow> \<exists>ds. fmtFrac n True v acc = (CHR ''.'' # ds @ acc, v div 10 ^ n) \<and> length ds = n \<and>
     list_all is_digit ds \<and> int (dec_value ds) = v mod 10 ^ n"
proof (induction n arbitrary: v acc)
  case 0
  then show ?case by (simp add: dec_value_def)
next
  case (Suc n)
  then obtain ds where ds: "fmtFrac n True (v div 10) (digit_char (v mod 10) # acc) =
      (CHR ''.'' # ds @ digit_char (v mod 10) # acc, v div 10 div 10 ^ n)"
    "length ds = n" "list_all is_digit ds" "int (dec_value ds) = v div 10 mod 10 ^ n"
    by (metis pos_imp_zdiv_nonneg_iff zero_less_numeral)
  let ?ds = "ds @ [digit_char (v mod 10)]"
  have "int (dec_value ?ds) = 10 * (v div 10 mod 10 ^ n) + v mod 10"
    using ds(4) digit_char(2) [of "v mod 10"] by (simp add: dec_value_snoc)
  also have "\<dots> = v mod 10 ^ Suc n" by (simp add: zmod_zmult2_eq)
  finally show ?case
    using ds digit_char(1) [of "v mod 10"] by (intro exI [of _ ?ds]) (simp add: zdiv_zmult2_eq)
qed

text \<open>A fraction is printed with the digits that are needed.\<close>

lemma fmtFrac_text:
  assumes "0 \<le> v"
  shows "\<exists>fr f sc. fmtFrac n False v acc = (fr @ acc, v div 10 ^ n) \<and> fraction_text fr f sc \<and> f < sc \<and>
    sc dvd 10 ^ n \<and> f * (10 ^ n div sc) = v mod 10 ^ n"
  using assms
proof (induction n arbitrary: v)
  case 0
  then show ?case by (intro exI [of _ "[]"] exI [of _ 0] exI [of _ 1]) (simp add: fraction_text_def)
next
  case (Suc n)
  have v: "0 \<le> v div 10" using Suc.prems by simp
  show ?case
  proof (cases "v mod 10 = 0")
    case True
    from Suc.IH [OF v] obtain fr f sc where IH: "fmtFrac n False (v div 10) acc = (fr @ acc, v div 10 div 10 ^ n)"
      "fraction_text fr f sc" "f < sc" "sc dvd 10 ^ n" "f * (10 ^ n div sc) = v div 10 mod 10 ^ n" by blast
    have "v mod 10 ^ Suc n = 10 * (v div 10 mod 10 ^ n)" using True by (simp add: zmod_zmult2_eq)
    moreover have "(10 :: int) ^ Suc n div sc = 10 * (10 ^ n div sc)" using IH(4) by (simp add: div_mult_swap)
    ultimately have "f * (10 ^ Suc n div sc) = v mod 10 ^ Suc n" using IH(5) by simp
    moreover have "fmtFrac (Suc n) False v acc = (fr @ acc, v div 10 ^ Suc n)"
      using IH(1) True by (simp add: zdiv_zmult2_eq)
    moreover have "sc dvd 10 ^ Suc n" using IH(4) by simp
    ultimately show ?thesis using IH(2,3) by blast
  next
    case False
    obtain ds where ds: "fmtFrac (Suc n) True v acc = (CHR ''.'' # ds @ acc, v div 10 ^ Suc n)" "length ds = Suc n"
      "list_all is_digit ds" "int (dec_value ds) = v mod 10 ^ Suc n" using fmtFrac_all [OF Suc.prems] by blast
    have "fmtFrac (Suc n) False v acc = fmtFrac (Suc n) True v acc" using False by simp
    moreover have "fraction_text (CHR ''.'' # ds) (v mod 10 ^ Suc n) (10 ^ Suc n)"
      unfolding fraction_text_def using ds(2-4) by (intro disjI2 exI [of _ ds]) auto
    moreover have "v mod 10 ^ Suc n < 10 ^ Suc n" by (rule pos_mod_bound) simp
    ultimately show ?thesis
      using ds(1) by (intro exI [of _ "CHR ''.'' # ds"] exI [of _ "v mod 10 ^ Suc n"] exI [of _ "10 ^ Suc n"]) simp
  qed
qed

lemma unit_texts:
  "unit_text ''ns'' 1" "unit_text [CHR 0xC2, CHR 0xB5, CHR ''s''] 1000" "unit_text ''ms'' 1000000"
  "unit_text ''s'' 1000000000" "unit_text ''m'' 60000000000" "unit_text ''h'' 3600000000000"
  by (simp_all add: unit_text_def unitMap_def number_char_def is_digit_def)

text \<open>A printed term, whatever whole number stands before the fraction.\<close>

lemma duration_term_printed:
  assumes "0 \<le> v" "unit_text u (10 ^ n)"
  shows "\<exists>acc. fmtFrac n False v u = (acc, v div 10 ^ n) \<and>
    (\<forall>m. 0 \<le> m \<longrightarrow> m * 10 ^ n + v mod 10 ^ n \<le> 2 ^ 63 \<longrightarrow>
       duration_term (fmtInt m acc) = Some (m * 10 ^ n + v mod 10 ^ n, []))"
proof -
  obtain fr f sc where fr: "fmtFrac n False v u = (fr @ u, v div 10 ^ n)" "fraction_text fr f sc" "f < sc"
    "sc dvd 10 ^ n" "f * (10 ^ n div sc) = v mod 10 ^ n" using fmtFrac_text [OF assms(1)] by metis
  have "duration_term (nat_dec (nat m) @ fr @ u @ []) = Some (m * 10 ^ n + v mod 10 ^ n, [])"
    if "0 \<le> m" "m * 10 ^ n + v mod 10 ^ n \<le> 2 ^ 63" for m
    using duration_term_text [OF fr(2,3) assms(2) fr(4) that(1), of "[]"] that(2) unfolding fr(5) by simp
  then show ?thesis using fr(1) by (simp add: fmtInt_def)
qed

lemma duration_term_whole:
  assumes "0 \<le> n" "n * unit \<le> 2 ^ 63" "unit_text u unit" "rest = [] \<or> number_char (hd rest)"
  shows "duration_term (fmtInt n (u @ rest)) = Some (n * unit, rest)"
proof -
  have "fraction_text [] 0 1" by (simp add: fraction_text_def)
  from duration_term_text [OF this _ assms(3) _ assms(1) _ assms(4)] assms(2) show ?thesis by (simp add: fmtInt_def)
qed

lemma fmtInt_first: "fmtInt n acc \<noteq> []" "number_char (hd (fmtInt n acc))" "hd (fmtInt n acc) \<noteq> CHR ''-''" "hd (fmtInt n acc) \<noteq> CHR ''+''"
proof -
  have ds: "list_all is_digit (nat_dec (nat n))" "nat_dec (nat n) \<noteq> []" by (rule nat_dec_digits)+
  then obtain c cs where c: "nat_dec (nat n) = c # cs" "is_digit c" by (cases "nat_dec (nat n)") auto
  then show "fmtInt n acc \<noteq> []" "number_char (hd (fmtInt n acc))" "hd (fmtInt n acc) \<noteq> CHR ''-''" "hd (fmtInt n acc) \<noteq> CHR ''+''"
    by (auto simp: fmtInt_def number_char_simps is_digit_def)
qed

lemma duration_loop_step:
  assumes "duration_term s = Some (v, s')" "0 \<le> d" "0 \<le> v" "d + v \<le> 2 ^ 63"
  shows "duration_loop d s = duration_loop (d + v) s'"
proof -
  have "s \<noteq> []" using assms(1) by (auto simp: duration_term_def duration_number_def)
  moreover have "(d + v) mod 2 ^ 64 = d + v" using assms(2-4) by (intro mod_pos_pos_trivial) simp_all
  ultimately show ?thesis using assms by (simp add: duration_loop.simps [of d s])
qed

lemma duration_loop_end: "duration_loop d [] = Some d"
  by (simp add: duration_loop.simps)

text \<open>A printed number of nanoseconds is read in the loop, and it begins like a number.\<close>

definition reads :: "string \<Rightarrow> int \<Rightarrow> bool" where
  "reads s u \<longleftrightarrow> duration_loop 0 s = Some u \<and> number_char (hd s) \<and> s \<noteq> []"

lemma small_duration_read:
  assumes "0 < u" "u < 1000000000" shows "reads (small_duration u) u"
proof -
  let ?p = "if u < 1000 then (0 :: nat, ''ns'') else if u < 1000000 then (3, [CHR 0xC2, CHR 0xB5, CHR ''s'']) else (6, ''ms'')"
  obtain n unit where nu: "?p = (n, unit)" by (cases ?p)
  then have unit: "unit_text unit (10 ^ n)" using unit_texts(1-3) by (auto split: if_splits)
  have "u div 10 ^ n * 10 ^ n + u mod 10 ^ n = u" by (rule div_mult_mod_eq)
  then obtain acc where acc: "fmtFrac n False u unit = (acc, u div 10 ^ n)" "duration_term (fmtInt (u div 10 ^ n) acc) = Some (u, [])"
    using duration_term_printed [OF _ unit, of u] assms by (auto simp: pos_imp_zdiv_nonneg_iff)
  have "small_duration u = fmtInt (u div 10 ^ n) acc"
    using assms(1) acc(1) unfolding small_duration_def Let_def nu by simp
  then show ?thesis
    using duration_loop_step [OF acc(2), of 0] assms by (simp add: reads_def duration_loop_end fmtInt_first)
qed

lemma large_duration_read:
  assumes "0 \<le> u" "u \<le> 2 ^ 63" shows "reads (large_duration u) u"
proof -
  define v where "v = u div 10 ^ 9"
  have v: "0 \<le> v" using assms(1) by (simp add: v_def pos_imp_zdiv_nonneg_iff)
  obtain acc where acc: "fmtFrac 9 False u ''s'' = (acc, v)"
    "\<And>m. 0 \<le> m \<Longrightarrow> m * 10 ^ 9 + u mod 10 ^ 9 \<le> 2 ^ 63 \<Longrightarrow> duration_term (fmtInt m acc) = Some (m * 10 ^ 9 + u mod 10 ^ 9, [])"
    using duration_term_printed [OF assms(1), of "''s''" 9] unit_texts(4) by (auto simp: v_def)
  have uv: "u = v * 10 ^ 9 + u mod 10 ^ 9" unfolding v_def by (rule div_mult_mod_eq [symmetric])
  define secs where "secs = fmtInt (v mod 60) acc"
  have v60: "v = v div 60 * 60 + v mod 60" by (rule div_mult_mod_eq [symmetric])
  have st: "duration_term secs = Some (v mod 60 * 10 ^ 9 + u mod 10 ^ 9, [])"
    unfolding secs_def using v assms uv v60 by (intro acc(2)) simp_all
  have secs: "duration_loop d secs = Some (d + (v mod 60 * 10 ^ 9 + u mod 10 ^ 9))"
    if "0 \<le> d" "d + (v mod 60 * 10 ^ 9 + u mod 10 ^ 9) \<le> 2 ^ 63" for d
    using duration_loop_step [OF st that(1) _ that(2)] v by (simp add: duration_loop_end)
  define mm where "mm = v div 60"
  have mm: "0 \<le> mm" "mm = mm div 60 * 60 + mm mod 60" using v by (simp_all add: mm_def pos_imp_zdiv_nonneg_iff)
  have secs_first: "number_char (hd secs)" unfolding secs_def by (rule fmtInt_first)
  define mins where "mins = fmtInt (mm mod 60) (CHR ''m'' # secs)"
  have mt: "duration_term mins = Some (mm mod 60 * 60000000000, secs)"
    using duration_term_whole [OF _ _ unit_texts(5), of "mm mod 60" secs] secs_first by (simp add: mins_def)
  have total: "u = mm * 60000000000 + (v mod 60 * 10 ^ 9 + u mod 10 ^ 9)" 
  proof -
    have "x = a * 60000000000 + (b * 10 ^ 9 + r)" if "x = y * 10 ^ 9 + r" "y = a * 60 + b" for x y a b r :: int
      using that by simp
    from this [OF uv v60] show ?thesis by (simp only: mm_def)
  qed
  have mins: "duration_loop d mins = Some (d + mm mod 60 * 60000000000 + (v mod 60 * 10 ^ 9 + u mod 10 ^ 9))"
    if "0 \<le> d" "d + mm mod 60 * 60000000000 + (v mod 60 * 10 ^ 9 + u mod 10 ^ 9) \<le> 2 ^ 63" for d
  proof -
    have nonneg: "0 \<le> v mod 60 * 10 ^ 9 + u mod 10 ^ 9" by simp
    with that have "d + mm mod 60 * 60000000000 \<le> 2 ^ 63" by linarith
    then show ?thesis using duration_loop_step [OF mt that(1)] secs [of "d + mm mod 60 * 60000000000"] that by simp
  qed
  have eq: "large_duration u = (if mm > 0 then if mm div 60 > 0 then fmtInt (mm div 60) (CHR ''h'' # mins) else mins else secs)"
    by (simp add: large_duration_def acc(1) secs_def mm_def mins_def Let_def)
  consider "mm = 0" | "mm > 0" "mm div 60 = 0" | "mm > 0" "mm div 60 > 0"
    using mm(1) by (metis less_le pos_imp_zdiv_nonneg_iff zero_less_numeral)
  then show ?thesis
  proof cases
    case 1
    then show ?thesis
      using secs [of 0] total assms(2) secs_first unfolding eq by (simp add: reads_def secs_def fmtInt_first)
  next
    case 2
    then have "mm = mm mod 60" using mm(2) by simp
    then show ?thesis
      using mins [of 0] total assms(2) 2 unfolding eq by (simp add: reads_def mins_def fmtInt_first)
  next
    case 3
    have le: "mm div 60 * 3600000000000 + mm mod 60 * 60000000000 = mm * 60000000000" using mm(2) by linarith
    have nonneg: "0 \<le> mm mod 60 * 60000000000" "0 \<le> v mod 60 * 10 ^ 9 + u mod 10 ^ 9" by simp_all
    have h: "mm div 60 * 3600000000000 \<le> 2 ^ 63" using le nonneg total assms(2) by linarith
    have ht: "duration_term (fmtInt (mm div 60) (CHR ''h'' # mins)) = Some (mm div 60 * 3600000000000, mins)"
      using duration_term_whole [OF _ h unit_texts(6), of mins] 3 by (simp add: mins_def fmtInt_first)
    have "duration_loop 0 (fmtInt (mm div 60) (CHR ''h'' # mins)) = Some u"
      using duration_loop_step [OF ht, of 0] h 3 mins [of "mm div 60 * 3600000000000"] le total assms(2) by simp
    then show ?thesis using 3 unfolding eq by (simp add: reads_def fmtInt_first)
  qed
qed

text \<open>Every duration of 64 bits is read back from its text.\<close>

lemma ParseDuration_String:
  assumes "min_i64 \<le> d" "d \<le> max_i64" shows "ParseDuration (Duration_String d) = Some d"
proof (cases "d = 0")
  case True
  then show ?thesis using ParseDuration_examples(2) by (simp add: Duration_String_def small_duration_def)
next
  case False
  define s where "s = (if \<bar>d\<bar> < 1000000000 then small_duration \<bar>d\<bar> else large_duration \<bar>d\<bar>)"
  have "reads s \<bar>d\<bar>"
    using False assms small_duration_read [of "\<bar>d\<bar>"] large_duration_read [of "\<bar>d\<bar>"] by (auto simp: s_def)
  then have s: "duration_loop 0 s = Some \<bar>d\<bar>" "s \<noteq> []" "number_char (hd s)" by (simp_all add: reads_def)
  have "duration_loop 0 ''0'' = None" by code_simp
  with s(1) have "s \<noteq> ''0''" by auto
  moreover obtain c cs where c: "s = c # cs" "c \<noteq> CHR ''-''" "c \<noteq> CHR ''+''"
  proof (cases s)
    case (Cons c cs)
    have "\<not> number_char CHR ''-''" "\<not> number_char CHR ''+''" by (simp_all add: number_char_def is_digit_def)
    with s(3) Cons that show ?thesis by (metis list.sel(1))
  qed (use s(2) in simp)
  moreover have "i64 (- i64 \<bar>d\<bar>) = d" if "d < 0"
  proof (cases "d = min_i64")
    case True
    then show ?thesis by (simp add: i64_def)
  qed (use that assms in simp)
  moreover have "\<not> \<bar>d\<bar> > 2 ^ 63 - 1" if "\<not> d < 0" using that assms by simp
  moreover have "Duration_String d = (if d < 0 then CHR ''-'' # s else s)"
    by (simp add: Duration_String_def s_def Let_def)
  ultimately show ?thesis using s(1) by (cases "d < 0") (auto simp: ParseDuration_def)
qed

end
