(* ===== verification/Requests.thy ===== *)
theory Requests
  imports Complex_Main Go_Net "HOL-Library.Char_ord" "HOL-Library.List_Lexorder"
begin

text \<open>
  What the gateway sees of an \<^verbatim>\<open>http.Request\<close>: its line, headers and body, and the values it
  keeps in the request's context (\<^verbatim>\<open>values.go\<close>).  The query string of a URL and its decoded
  form (\<^verbatim>\<open>url.Values\<close>) belong to package \<^verbatim>\<open>net/url\<close>; the laws here say that encoding and
  decoding a query are inverse to each other.
\<close>

section \<open>Bodies\<close>

text \<open>
  A body is the sequence of results its \<^verbatim>\<open>Read\<close> will deliver: some bytes together with the
  reader's verdict (more to come, end of file, an error).  A reader that is asked again after
  its last result reports the end of the file.
\<close>

datatype read_end = ReadMore | ReadEOF | ReadErr go_error

type_synonym body_stream = "(bytes \<times> read_end) list"

fun ReadAll :: "body_stream \<Rightarrow> bytes \<times> go_error option" where
  "ReadAll [] = ([], None)"
| "ReadAll ((b, ReadEOF) # rs) = (b, None)"
| "ReadAll ((b, ReadErr e) # rs) = (b, Some e)"
| "ReadAll ((b, ReadMore) # rs) = (let (d, err) = ReadAll rs in (b @ d, err))"

text \<open>
  \<^verbatim>\<open>io.LimitReader(r, n)\<close>: at most \<open>n\<close> bytes, then the end of the file; the underlying reader is
  not asked again once \<open>n\<close> bytes were delivered.  A result longer than what is left is cut.
\<close>

fun LimitReader :: "body_stream \<Rightarrow> int \<Rightarrow> body_stream" where
  "LimitReader [] n = []"
| "LimitReader ((b, e) # rs) n =
     (if n \<le> 0 then []
      else if int (length b) \<le> n then (b, e) # LimitReader rs (n - int (length b))
      else [(take (nat n) b, ReadEOF)])"

definition body_of :: "bytes \<Rightarrow> body_stream" where
  "body_of b = [(b, ReadEOF)]"

lemma ReadAll_body_of [simp]: "ReadAll (body_of b) = (b, None)"
  by (simp add: body_of_def)

lemma ReadAll_LimitReader_le:
  "0 \<le> n \<Longrightarrow> int (length (fst (ReadAll (LimitReader rs n)))) \<le> n"
proof (induction rs n rule: LimitReader.induct)
  case (2 b e rs n)
  then show ?case by (cases e) (auto split: prod.splits)
qed simp

text \<open>
  What a limited read delivers is a prefix of the whole; below the limit it is the whole, with
  the same verdict.
\<close>

lemma ReadAll_LimitReader_prefix:
  "prefix (fst (ReadAll (LimitReader rs n))) (fst (ReadAll rs))"
proof (induction rs n rule: LimitReader.induct)
  case (2 b e rs n)
  then show ?case
    by (cases e) (auto split: prod.splits simp: take_is_prefix prefix_prefix)
qed simp

lemma ReadAll_LimitReader_short:
  "int (length (fst (ReadAll (LimitReader rs n)))) < n \<Longrightarrow> ReadAll (LimitReader rs n) = ReadAll rs"
proof (induction rs n rule: LimitReader.induct)
  case (2 b e rs n)
  then show ?case by (cases e) (auto split: prod.splits if_splits)
qed simp

lemma ReadAll_LimitReader_whole:
  "int (length (fst (ReadAll rs))) < n \<Longrightarrow> ReadAll (LimitReader rs n) = ReadAll rs"
  using ReadAll_LimitReader_prefix [of rs n] ReadAll_LimitReader_short [of rs n]
  by (meson le_less_trans of_nat_mono prefix_length_le)

section \<open>Query strings\<close>

type_synonym Values = "(string, string list) gomap"

definition vals_of :: "Values \<Rightarrow> string \<Rightarrow> string list" where
  "vals_of q k = (case map_of q k of None \<Rightarrow> [] | Some vs \<Rightarrow> vs)"

definition Values_Get :: "Values \<Rightarrow> string \<Rightarrow> string" where
  "Values_Get q k = (case vals_of q k of [] \<Rightarrow> [] | v # vs \<Rightarrow> v)"

definition Values_Set :: "string \<Rightarrow> string \<Rightarrow> Values \<Rightarrow> Values" where
  "Values_Set k v q = AList.update k [v] q"

definition Values_Add :: "string \<Rightarrow> string \<Rightarrow> Values \<Rightarrow> Values" where
  "Values_Add k v q = AList.update k (vals_of q k @ [v]) q"

definition unreserved :: "char \<Rightarrow> bool" where
  "unreserved c \<longleftrightarrow> is_digit c \<or> is_upper c \<or> is_lower c \<or> c \<in> set ''-_.~''"

definition upper_hex :: "nat \<Rightarrow> char" where
  "upper_hex n = char_of (if n < 10 then 48 + n else 55 + n)"

definition escape_byte :: "char \<Rightarrow> string" where
  "escape_byte c =
     (if unreserved c then [c]
      else if c = CHR '' '' then ''+''
      else [CHR ''%'', upper_hex (of_char c div 16), upper_hex (of_char c mod 16)])"

definition QueryEscape :: "string \<Rightarrow> string" where
  "QueryEscape s = concat (map escape_byte s)"

fun QueryUnescape :: "string \<Rightarrow> string option" where
  "QueryUnescape [] = Some []"
| "QueryUnescape (c # s) =
     (if c = CHR ''%'' then
        (case s of
           a # b # s' \<Rightarrow>
             (case (hex_digit a, hex_digit b) of
                (Some x, Some y) \<Rightarrow> map_option ((#) (char_of (16 * x + y))) (QueryUnescape s')
              | _ \<Rightarrow> None)
         | _ \<Rightarrow> None)
      else map_option ((#) (if c = CHR ''+'' then CHR '' '' else c)) (QueryUnescape s))"

text \<open>\<^verbatim>\<open>strings.Cut\<close> at a byte; without the byte the second part is empty.\<close>

definition cut_at :: "char \<Rightarrow> string \<Rightarrow> string \<times> string" where
  "cut_at c s = (takeWhile (\<lambda>x. x \<noteq> c) s, tl (dropWhile (\<lambda>x. x \<noteq> c) s))"

text \<open>Settings that do not decode, or hold a semicolon, are dropped without stopping the rest.\<close>

definition parse_setting :: "string \<Rightarrow> (string \<times> string) option" where
  "parse_setting s =
     (if s = [] \<or> CHR '';'' \<in> set s then None
      else case cut_at CHR ''='' s of (k, v) \<Rightarrow>
        (case (QueryUnescape k, QueryUnescape v) of
           (Some k', Some v') \<Rightarrow> Some (k', v') | _ \<Rightarrow> None))"

definition add_pairs :: "(string \<times> string) list \<Rightarrow> Values \<Rightarrow> Values" where
  "add_pairs ps q = fold (\<lambda>(k, v). Values_Add k v) ps q"

definition ParseQuery :: "string \<Rightarrow> Values" where
  "ParseQuery s = add_pairs (List.map_filter parse_setting (Split s CHR ''&'')) []"

definition query_pairs :: "Values \<Rightarrow> (string \<times> string) list" where
  "query_pairs q =
     concat (map (\<lambda>k. map (Pair k) (vals_of q k)) (sort (map fst q)))"

definition setting :: "string \<times> string \<Rightarrow> string" where
  "setting p = QueryEscape (fst p) @ ''='' @ QueryEscape (snd p)"

definition Values_Encode :: "Values \<Rightarrow> string" where
  "Values_Encode q = Join (map setting (query_pairs q)) ''&''"

subsection \<open>Encoding and decoding\<close>

lemma vals_of_update: "vals_of (AList.update k vs q) k' = (if k' = k then vs else vals_of q k')"
  by (simp add: vals_of_def update_conv')

lemma vals_of_Set: "vals_of (Values_Set k v q) k' = (if k' = k then [v] else vals_of q k')"
  by (simp add: Values_Set_def vals_of_update)

lemma vals_of_Add: "vals_of (Values_Add k v q) k' = (if k' = k then vals_of q k @ [v] else vals_of q k')"
  by (simp add: Values_Add_def vals_of_update)

lemma vals_of_add_pairs:
  "vals_of (add_pairs ps q) k = vals_of q k @ map snd (filter (\<lambda>p. fst p = k) ps)"
  unfolding add_pairs_def by (induction ps arbitrary: q) (auto simp: vals_of_Add)

lemma hex_digit_upper_hex: "n < 16 \<Longrightarrow> hex_digit (upper_hex n) = Some n"
  by (auto simp: hex_digit_def upper_hex_def)

lemma high_nibble: "(of_char (c :: char) :: nat) div 16 < 16"
  using nat_of_char_less_256 [of c] by linarith

lemma QueryUnescape_escape_byte:
  "QueryUnescape (escape_byte c @ s) = map_option ((#) c) (QueryUnescape s)"
proof (cases "unreserved c \<or> c = CHR '' ''")
  case True
  then have "c \<noteq> CHR ''%''" "c \<noteq> CHR ''+''"
    by (auto simp: unreserved_def is_digit_def is_upper_def is_lower_def)
  with True show ?thesis by (auto simp: escape_byte_def unreserved_def is_digit_def is_upper_def is_lower_def)
next
  case False
  have "hex_digit (upper_hex (of_char c div 16)) = Some (of_char c div 16)"
    "hex_digit (upper_hex (of_char c mod 16)) = Some (of_char c mod 16)"
    by (simp_all add: hex_digit_upper_hex high_nibble)
  with False show ?thesis by (simp add: escape_byte_def)
qed

lemma QueryUnescape_QueryEscape [simp]: "QueryUnescape (QueryEscape s) = Some s"
  by (induction s) (simp_all add: QueryEscape_def QueryUnescape_escape_byte)

lemma escape_byte_clean:
  "set (escape_byte c) \<inter> {CHR ''&'', CHR ''='', CHR '';''} = {}"
proof -
  have "upper_hex n \<notin> {CHR ''&'', CHR ''='', CHR '';''}" if "n < 16" for n
    using hex_digit_upper_hex [OF that] by (auto simp: hex_digit_def)
  from this [OF high_nibble [of c]] this [of "of_char c mod 16"] show ?thesis
    by (auto simp: escape_byte_def unreserved_def is_digit_def is_upper_def is_lower_def)
qed

lemma QueryEscape_clean: "set (QueryEscape s) \<inter> {CHR ''&'', CHR ''='', CHR '';''} = {}"
  using escape_byte_clean by (fastforce simp: QueryEscape_def)

lemma cut_at_append: "c \<notin> set k \<Longrightarrow> cut_at c (k @ c # v) = (k, v)"
  by (induction k) (auto simp: cut_at_def)

lemma parse_setting_escaped:
  "parse_setting (setting p) = Some p"
  using QueryEscape_clean [of "fst p"] QueryEscape_clean [of "snd p"]
  by (auto simp: parse_setting_def setting_def cut_at_append)

lemma ParseQuery_Join: "ParseQuery (Join (map setting ps) ''&'') = add_pairs ps []"
proof (cases "ps = []")
  case True
  then show ?thesis by (simp add: ParseQuery_def parse_setting_def map_filter_simps)
next
  case False
  have "CHR ''&'' \<notin> set (setting p)" for p
    using QueryEscape_clean [of "fst p"] QueryEscape_clean [of "snd p"] by (auto simp: setting_def)
  with False have "Split (Join (map setting ps) [CHR ''&'']) CHR ''&'' = map setting ps"
    by (intro Split_Join) auto
  moreover have "List.map_filter parse_setting (map setting ps) = ps"
    by (induction ps) (simp_all add: map_filter_simps parse_setting_escaped)
  ultimately show ?thesis by (simp add: ParseQuery_def)
qed

lemma query_pairs_vals:
  assumes "distinct (map fst q)"
  shows "map snd (filter (\<lambda>p. fst p = k) (query_pairs q)) = vals_of q k"
proof -
  have one: "map snd (filter (\<lambda>p. fst p = k) (map (Pair a) vs)) = (if a = k then vs else [])"
    for a and vs :: "string list"
    by (induction vs) auto
  have "map snd (filter (\<lambda>p. fst p = k) (concat (map (\<lambda>k. map (Pair k) (vals_of q k)) ks))) =
      (if k \<in> set ks then vals_of q k else [])" if "distinct ks" for ks
    using that by (induction ks) (auto simp: one)
  from this [of "sort (map fst q)"] assms show ?thesis
    by (force simp: query_pairs_def vals_of_def split: option.splits dest: map_of_SomeD)
qed

text \<open>Decoding what was encoded gives every key its values in their order.\<close>

lemma ParseQuery_Encode:
  "distinct (map fst q) \<Longrightarrow> vals_of (ParseQuery (Values_Encode q)) k = vals_of q k"
  unfolding Values_Encode_def ParseQuery_Join vals_of_add_pairs
  by (simp add: query_pairs_vals) (simp add: vals_of_def)

lemma distinct_add_pairs: "distinct (map fst q) \<Longrightarrow> distinct (map fst (add_pairs ps q))"
  unfolding add_pairs_def
  by (induction ps arbitrary: q) (auto simp: Values_Add_def distinct_update)

lemma distinct_ParseQuery [simp]: "distinct (map fst (ParseQuery s))"
  by (simp add: ParseQuery_def distinct_add_pairs)

section \<open>JSON values\<close>

text \<open>What a JSON text decodes into.  Numbers are decoded into \<^verbatim>\<open>float64\<close>.\<close>

datatype json =
    JNull
  | JBool bool
  | JNumber rat
  | JString string
  | JArray "json list"
  | JObject "(string \<times> json) list"

section \<open>Requests\<close>

record URL =
  url_Path :: string
  url_RawQuery :: string
  url_Host :: string

text \<open>
  The values the gateway puts in a request's context, and the route parameters that the
  third-party router \<^verbatim>\<open>chi\<close> keeps there (absent when the request did not pass through it).  The
  claims of an authenticated request are there too.
\<close>

record Context =
  ctx_clientIP :: "string option"
  ctx_requestID :: "string option"
  ctx_route :: "string option"
  ctx_fingerprint :: "string option"
  ctx_params :: "(string \<times> string) list option"
  ctx_claims :: "(string, json) gomap option"

record Request =
  req_Method :: string
  req_URL :: URL
  req_Host :: string
  req_Header :: Header
  req_Body :: body_stream
  req_ContentLength :: int
  req_TransferEncoding :: "string list"
  req_RemoteAddr :: string
  req_TLS :: bool
  req_Context :: Context

definition empty_context :: Context where
  "empty_context = \<lparr>ctx_clientIP = None, ctx_requestID = None, ctx_route = None,
     ctx_fingerprint = None, ctx_params = None, ctx_claims = None\<rparr>"

section \<open>Context values\<close>

definition withClientIP :: "Context \<Rightarrow> string \<Rightarrow> Context" where
  "withClientIP ctx ip = ctx\<lparr>ctx_clientIP := Some ip\<rparr>"

definition clientIPFromContext :: "Context \<Rightarrow> string" where
  "clientIPFromContext ctx = (case ctx_clientIP ctx of None \<Rightarrow> [] | Some ip \<Rightarrow> ip)"

definition withRequestID :: "Context \<Rightarrow> string \<Rightarrow> Context" where
  "withRequestID ctx i = ctx\<lparr>ctx_requestID := Some i\<rparr>"

definition requestIDFromContext :: "Context \<Rightarrow> string" where
  "requestIDFromContext ctx = (case ctx_requestID ctx of None \<Rightarrow> [] | Some i \<Rightarrow> i)"

definition withRoute :: "Context \<Rightarrow> string \<Rightarrow> Context" where
  "withRoute ctx route = ctx\<lparr>ctx_route := Some route\<rparr>"

definition routeFromContext :: "Context \<Rightarrow> string" where
  "routeFromContext ctx = (case ctx_route ctx of None \<Rightarrow> [] | Some route \<Rightarrow> route)"

definition withFingerprint :: "Context \<Rightarrow> string \<Rightarrow> Context" where
  "withFingerprint ctx fp = ctx\<lparr>ctx_fingerprint := Some fp\<rparr>"

definition fingerprintFromContext :: "Context \<Rightarrow> string" where
  "fingerprintFromContext ctx = (case ctx_fingerprint ctx of None \<Rightarrow> [] | Some fp \<Rightarrow> fp)"

lemma context_values [simp]:
  "clientIPFromContext (withClientIP ctx s) = s"
  "clientIPFromContext (withRequestID ctx s) = clientIPFromContext ctx"
  "clientIPFromContext (withRoute ctx s) = clientIPFromContext ctx"
  "clientIPFromContext (withFingerprint ctx s) = clientIPFromContext ctx"
  "requestIDFromContext (withRequestID ctx s) = s"
  "requestIDFromContext (withRoute ctx s) = requestIDFromContext ctx"
  "fingerprintFromContext (withFingerprint ctx s) = s"
  "fingerprintFromContext (withRequestID ctx s) = fingerprintFromContext ctx"
  "fingerprintFromContext (withRoute ctx s) = fingerprintFromContext ctx"
  "routeFromContext (withRoute ctx s) = s"
  by (simp_all add: withClientIP_def clientIPFromContext_def withRequestID_def
      requestIDFromContext_def withRoute_def routeFromContext_def withFingerprint_def
      fingerprintFromContext_def)

end
