(* ===== verification/Rate_Limit.thy ===== *)
theory Rate_Limit
  imports Go_Duration Requests
begin

text \<open>
  The sliding-window rate limiter of \<^verbatim>\<open>internal/ratelimit/ratelimit.go\<close>.  Every method holds the
  mutex throughout, so a run of the limiter is a sequence of calls; the clock is an argument.
  The limiter's goroutine only calls \<^verbatim>\<open>cleanup\<close>, at times of its own.  The estimate is computed in
  \<^verbatim>\<open>float64\<close>; Go lets a compiler fuse the multiplication with the addition, and leaves the
  conversion of a number without an integer value to the machine, so both are parameters.
\<close>

section \<open>Times\<close>

definition Truncate :: "time \<Rightarrow> duration \<Rightarrow> time" where
  "Truncate t d = (if d \<le> 0 then t else t - t mod d)"

section \<open>The limiter\<close>

record entry =
  currentCount :: int
  previousCount :: int
  windowStart :: time

record RateLimit =
  rl_limit :: int
  rl_window :: duration
  rl_buckets :: "(string, entry) gomap"
  rl_stopped :: bool

text \<open>The values of a decoded configuration map, as far as the limiter looks at them.\<close>

datatype cfg_value =
  CfgString string | CfgFloat rat | CfgInt int | CfgBool bool | CfgList "cfg_value list" | CfgOther

record float_platform =
  fp_fused :: bool
  fp_undef :: int

definition to_int :: "float_platform \<Rightarrow> rat option \<Rightarrow> int" where
  "to_int pf x =
     (case x of
        None \<Rightarrow> fp_undef pf
      | Some r \<Rightarrow>
          let n = (if r \<ge> 0 then \<lfloor>r\<rfloor> else \<lceil>r\<rceil>) in
          if min_i64 \<le> n \<and> n \<le> max_i64 then n else fp_undef pf)"

definition intFrom :: "float_platform \<Rightarrow> (string, cfg_value) gomap \<Rightarrow> string \<Rightarrow> int \<Rightarrow> int" where
  "intFrom pf cfg key def =
     (case map_of cfg key of
        Some (CfgFloat v) \<Rightarrow> to_int pf (Some v)
      | Some (CfgInt v) \<Rightarrow> v
      | _ \<Rightarrow> def)"

definition defaultLimit :: int where "defaultLimit = 60"
definition defaultWindow :: duration where "defaultWindow = 60 * 1000000000"

definition ratelimit_New :: "float_platform \<Rightarrow> (string, cfg_value) gomap \<Rightarrow> RateLimit" where
  "ratelimit_New pf cfg =
     (let windowStr = (case map_of cfg ''window'' of Some (CfgString s) \<Rightarrow> s | _ \<Rightarrow> []);
          window = (case ParseDuration windowStr of None \<Rightarrow> defaultWindow | Some d \<Rightarrow> d)
      in \<lparr>rl_limit = intFrom pf cfg ''limit'' defaultLimit, rl_window = window, rl_buckets = [],
          rl_stopped = False\<rparr>)"

definition ratelimit_Stop :: "RateLimit \<Rightarrow> RateLimit" where
  "ratelimit_Stop rl = rl\<lparr>rl_stopped := True\<rparr>"

text \<open>The entry of a key at an instant, moved on to the window of that instant.\<close>

definition slide :: "duration \<Rightarrow> time \<Rightarrow> entry option \<Rightarrow> entry" where
  "slide window now found =
     (let ent = (case found of
            None \<Rightarrow> \<lparr>currentCount = 0, previousCount = 0, windowStart = Truncate now window\<rparr>
          | Some e \<Rightarrow> e);
          elapsed = time_sub now (windowStart ent)
      in
      if elapsed \<ge> window then
        \<lparr>currentCount = 0,
         previousCount = (if elapsed \<ge> i64 (2 * window) then 0 else currentCount ent),
         windowStart = Truncate now window\<rparr>
      else ent)"

text \<open>
  The estimate of the requests in the sliding window; \<open>None\<close> when it is no finite number, which
  only a window of zero makes possible.
\<close>

definition estimate :: "float_platform \<Rightarrow> duration \<Rightarrow> duration \<Rightarrow> entry \<Rightarrow> rat option" where
  "estimate pf window elapsed ent =
     (if window = 0 then None
      else
        let weight = f64_round (1 - f64_round (f64_round (of_int elapsed) / f64_round (of_int window)));
            p = f64_round (of_int (previousCount ent));
            c = f64_round (of_int (currentCount ent))
        in Some (if fp_fused pf then f64_round (p * weight + c)
                 else f64_round (f64_round (p * weight) + c)))"

definition ratelimit_Allow :: "float_platform \<Rightarrow> time \<Rightarrow> string \<Rightarrow> RateLimit \<Rightarrow> bool \<times> RateLimit" where
  "ratelimit_Allow pf now key rl =
     (let ent = slide (rl_window rl) now (map_of (rl_buckets rl) key);
          elapsed = time_sub now (windowStart ent);
          estimated = estimate pf (rl_window rl) elapsed ent
      in
      if to_int pf estimated \<ge> rl_limit rl
      then (False, rl\<lparr>rl_buckets := AList.update key ent (rl_buckets rl)\<rparr>)
      else (True, rl\<lparr>rl_buckets := AList.update key (ent\<lparr>currentCount := currentCount ent + 1\<rparr>)
                      (rl_buckets rl)\<rparr>))"

definition ratelimit_cleanup :: "time \<Rightarrow> RateLimit \<Rightarrow> RateLimit" where
  "ratelimit_cleanup now rl =
     (let cutoff = now + i64 (- 2 * rl_window rl) in
      rl\<lparr>rl_buckets := filter (\<lambda>(key, ent). \<not> windowStart ent < cutoff) (rl_buckets rl)\<rparr>)"

text \<open>A run: requests of clients and rounds of the cleaning goroutine, in the order of the mutex.\<close>

datatype rl_event = RlAllow time string | RlCleanup time

fun ev_time :: "rl_event \<Rightarrow> time" where
  "ev_time (RlAllow t k) = t"
| "ev_time (RlCleanup t) = t"

fun rl_step :: "float_platform \<Rightarrow> rl_event \<Rightarrow> RateLimit \<Rightarrow> RateLimit" where
  "rl_step pf (RlAllow t k) rl = snd (ratelimit_Allow pf t k rl)"
| "rl_step pf (RlCleanup t) rl = ratelimit_cleanup t rl"

text \<open>
  The goroutine of \<^verbatim>\<open>Start\<close>, by what its \<^verbatim>\<open>select\<close> finds in each round: the ticker, or the channel that \<^verbatim>\<open>Stop\<close> closes,
  after which it is gone.
\<close>

datatype ticker_event = TickAt time | StopSeen

fun ratelimit_Start :: "ticker_event list \<Rightarrow> RateLimit \<Rightarrow> RateLimit" where
  "ratelimit_Start [] rl = rl"
| "ratelimit_Start (TickAt now # es) rl = ratelimit_Start es (ratelimit_cleanup now rl)"
| "ratelimit_Start (StopSeen # es) rl = rl"

lemma Start_is_a_run:
  "\<exists>ts. set ts \<subseteq> {t. TickAt t \<in> set es} \<and> ratelimit_Start es rl = fold (rl_step pf) (map RlCleanup ts) rl"
proof (induction es rl rule: ratelimit_Start.induct)
  case (2 now es rl)
  then obtain ts where "set ts \<subseteq> {t. TickAt t \<in> set es}"
    "ratelimit_Start es (ratelimit_cleanup now rl) = fold (rl_step pf) (map RlCleanup ts) (ratelimit_cleanup now rl)" by blast
  then show ?case by (intro exI [of _ "now # ts"]) auto
qed (auto intro: exI [of _ "[]"])

text \<open>The requests of a run with their answers.\<close>

fun rl_answers :: "float_platform \<Rightarrow> rl_event list \<Rightarrow> RateLimit \<Rightarrow> (time \<times> string \<times> bool) list" where
  "rl_answers pf [] rl = []"
| "rl_answers pf (RlAllow t k # es) rl =
     (t, k, fst (ratelimit_Allow pf t k rl)) # rl_answers pf es (snd (ratelimit_Allow pf t k rl))"
| "rl_answers pf (RlCleanup t # es) rl = rl_answers pf es (ratelimit_cleanup t rl)"

definition admitted_in :: "duration \<Rightarrow> string \<Rightarrow> time \<Rightarrow> (time \<times> string \<times> bool) list \<Rightarrow> nat" where
  "admitted_in window key ws as =
     length (filter (\<lambda>(t, k, ok). ok \<and> k = key \<and> Truncate t window = ws) as)"

section \<open>Lemmas: windows\<close>

lemma Truncate_props:
  assumes "0 < W"
  shows "Truncate t W \<le> t" "t < Truncate t W + W" "Truncate t W mod W = 0"
  using assms pos_mod_bound [OF assms, of t] by (auto simp: Truncate_def mod_diff_eq [symmetric])

lemma Truncate_unique:
  assumes "0 < W" "a mod W = 0" "a \<le> t" "t < a + W"
  shows "Truncate t W = a"
proof -
  have "t mod W = (t - a) mod W" using assms(2) by (metis diff_zero mod_diff_right_eq)
  also have "\<dots> = t - a" using assms by simp
  finally show ?thesis using assms(1) by (simp add: Truncate_def)
qed

lemma Truncate_ge:
  assumes "0 < W" "a mod W = 0" "a \<le> t"
  shows "a \<le> Truncate t W"
proof (rule ccontr)
  assume "\<not> a \<le> Truncate t W"
  moreover have "W dvd a - Truncate t W"
    using assms(2) Truncate_props(3) [OF assms(1)] by (simp add: mod_eq_0_iff_dvd)
  ultimately have "W \<le> a - Truncate t W" by (intro zdvd_imp_le) auto
  with Truncate_props(2) [OF assms(1), of t] assms(3) show False by simp
qed

definition entry_ok :: "int \<Rightarrow> duration \<Rightarrow> time \<Rightarrow> entry \<Rightarrow> bool" where
  "entry_ok cap W t0 e \<longleftrightarrow>
     0 \<le> currentCount e \<and> currentCount e \<le> cap \<and> 0 \<le> previousCount e \<and> previousCount e \<le> cap \<and>
     windowStart e mod W = 0 \<and> windowStart e \<le> t0"

lemma entry_ok_later: "entry_ok cap W t e \<Longrightarrow> t \<le> t' \<Longrightarrow> entry_ok cap W t' e"
  by (auto simp: entry_ok_def)

lemma slide_spec:
  assumes "0 < W" "W \<le> max_i64" "0 \<le> cap"
    and "\<And>e. found = Some e \<Longrightarrow> entry_ok cap W t e"
  shows "windowStart (slide W t found) = Truncate t W"
    and "currentCount (slide W t found) =
      (case found of None \<Rightarrow> 0 | Some e \<Rightarrow> if windowStart e = Truncate t W then currentCount e else 0)"
    and "entry_ok cap W t (slide W t found)"
proof (atomize (full), cases found)
  case None
  have "\<not> time_sub t (Truncate t W) \<ge> W"
    using assms(1,2) Truncate_props [OF assms(1), of t] by (simp add: time_sub_ge)
  with None assms(1,3) Truncate_props [OF assms(1), of t]
  show "windowStart (slide W t found) = Truncate t W \<and>
    currentCount (slide W t found) =
      (case found of None \<Rightarrow> 0 | Some e \<Rightarrow> if windowStart e = Truncate t W then currentCount e else 0) \<and>
    entry_ok cap W t (slide W t found)"
    by (simp add: slide_def entry_ok_def)
next
  case (Some e)
  then have e: "entry_ok cap W t e" using assms(4) by simp
  have ge: "time_sub t (windowStart e) \<ge> W \<longleftrightarrow> t - windowStart e \<ge> W"
    using assms(1,2) by (intro time_sub_ge) auto
  show "windowStart (slide W t found) = Truncate t W \<and>
    currentCount (slide W t found) =
      (case found of None \<Rightarrow> 0 | Some e \<Rightarrow> if windowStart e = Truncate t W then currentCount e else 0) \<and>
    entry_ok cap W t (slide W t found)"
  proof (cases "t - windowStart e \<ge> W")
    case True
    with Truncate_props(2) [OF assms(1), of t] have "windowStart e \<noteq> Truncate t W" by linarith
    with True Some ge e assms(3) Truncate_props [OF assms(1), of t] show ?thesis
      by (auto simp: slide_def entry_ok_def Let_def)
  next
    case False
    with e have "Truncate t W = windowStart e"
      by (intro Truncate_unique) (auto simp: entry_ok_def assms(1))
    with False Some ge e show ?thesis by (simp add: slide_def)
  qed
qed

section \<open>Lemmas: the estimate\<close>

lemma estimate_ge:
  assumes "0 < W" "0 \<le> elapsed" "elapsed < W"
    and "0 \<le> previousCount e" "previousCount e \<le> 2 ^ 52"
    and "0 \<le> currentCount e" "currentCount e \<le> 2 ^ 52"
  shows "currentCount e \<le> to_int pf (estimate pf W elapsed e)"
proof -
  define q where "q = f64_round (f64_round (of_int elapsed) / f64_round (of_int W))"
  define w where "w = f64_round (1 - q)"
  let ?p = "of_int (previousCount e) :: rat" and ?c = "of_int (currentCount e) :: rat"
  have W1: "1 \<le> f64_round (of_int W)"
    using f64.rnd_mono [of 1 "of_int W"] assms(1) by (simp add: f64.rnd_1)
  have "0 \<le> f64_round (of_int elapsed)" using assms(2) by (intro f64.rnd_nonneg) simp
  then have q: "0 \<le> q" "q \<le> 1"
    unfolding q_def using W1 assms(3) by (auto intro!: f64.rnd_nonneg f64.ratio_le_1)
  then have w: "0 \<le> w" "w \<le> 1" unfolding w_def by (auto intro: f64.rnd_nonneg f64.rnd_le_1)
  have exact: "f64_round ?p = ?p" "f64_round ?c = ?c" using assms(4-7) by (auto intro!: f64.rnd_int)
  define v where "v = (if fp_fused pf then f64_round (?p * w + ?c) else f64_round (f64_round (?p * w) + ?c))"
  have est: "estimate pf W elapsed e = Some v"
    using assms(1) by (simp add: estimate_def Let_def v_def w_def q_def exact)
  have lower: "?c \<le> v"
    using f64.sum_ge [of ?p w "currentCount e"] w assms(4-7) by (simp add: v_def)
  have pw: "?p * w \<le> ?p" using w assms(4) by (simp add: mult_left_le)
  then have "f64_round (?p * w) \<le> ?p" using f64.rnd_mono [OF pw] exact by simp
  moreover have "?p \<le> of_int (2 ^ 52)" "?c \<le> of_int (2 ^ 52)"
    using assms(5,7) by (simp_all only: of_int_le_iff)
  ultimately have "?p * w + ?c \<le> of_int (2 ^ 53)" "f64_round (?p * w) + ?c \<le> of_int (2 ^ 53)"
    using pw by simp_all
  then have "v \<le> f64_round (of_int (2 ^ 53))" unfolding v_def by (auto intro!: f64.rnd_mono)
  also have "f64_round (of_int (2 ^ 53)) = of_int (2 ^ 53)" by (intro f64.rnd_int) simp
  finally have upper: "\<lfloor>v\<rfloor> \<le> 2 ^ 53" by (metis floor_mono floor_of_int)
  have "currentCount e \<le> \<lfloor>v\<rfloor>" using lower by (simp add: le_floor_iff)
  with upper lower assms(6) show ?thesis
    by (auto simp: est to_int_def Let_def)
qed

section \<open>Lemmas: runs\<close>

definition limiter_ok :: "time \<Rightarrow> RateLimit \<Rightarrow> bool" where
  "limiter_ok t0 rl \<longleftrightarrow>
     0 < rl_window rl \<and> rl_window rl < 2 ^ 62 \<and> 0 \<le> rl_limit rl \<and> rl_limit rl \<le> 2 ^ 52 \<and>
     distinct (map fst (rl_buckets rl)) \<and>
     (\<forall>k e. map_of (rl_buckets rl) k = Some e \<longrightarrow> entry_ok (rl_limit rl) (rl_window rl) t0 e)"

lemma limiter_entry:
  "limiter_ok t0 rl \<Longrightarrow> t0 \<le> t \<Longrightarrow> map_of (rl_buckets rl) k = Some e \<Longrightarrow>
     entry_ok (rl_limit rl) (rl_window rl) t e"
  by (metis limiter_ok_def entry_ok_later)

lemma Allow_spec:
  assumes "limiter_ok t0 rl" "t0 \<le> t" "ratelimit_Allow pf t k rl = (ok, rl')"
  shows "limiter_ok t rl'" "rl_limit rl' = rl_limit rl" "rl_window rl' = rl_window rl"
    and "\<exists>e. map_of (rl_buckets rl') = (map_of (rl_buckets rl))(k \<mapsto> e) \<and>
      windowStart e = Truncate t (rl_window rl) \<and>
      currentCount e = currentCount (slide (rl_window rl) t (map_of (rl_buckets rl) k)) + (if ok then 1 else 0)"
proof -
  let ?W = "rl_window rl" and ?cap = "rl_limit rl"
  let ?e = "slide ?W t (map_of (rl_buckets rl) k)"
  have W: "0 < ?W" "?W \<le> max_i64" "0 \<le> ?cap" "?cap \<le> 2 ^ 52"
    using assms(1) by (auto simp: limiter_ok_def)
  have later: "\<And>k' e. map_of (rl_buckets rl) k' = Some e \<Longrightarrow> entry_ok ?cap ?W t e"
    using assms(1,2) by (rule limiter_entry)
  note s = slide_spec [OF W(1-3), of "map_of (rl_buckets rl) k" t, OF later [of k]]
  have el: "0 \<le> time_sub t (windowStart ?e)" "time_sub t (windowStart ?e) < ?W"
    using s(1) Truncate_props [OF W(1), of t] W(2) by (auto simp: time_sub_def)
  have "ok \<Longrightarrow> currentCount ?e < ?cap"
    using assms(3) estimate_ge [OF W(1) el, of ?e pf] s(3) W(4)
    by (auto simp: ratelimit_Allow_def Let_def entry_ok_def split: if_splits)
  then have new: "entry_ok ?cap ?W t (?e\<lparr>currentCount := currentCount ?e + (if ok then 1 else 0)\<rparr>)"
    using s(3) by (auto simp: entry_ok_def)
  have rl': "rl' = rl\<lparr>rl_buckets := AList.update k
      (?e\<lparr>currentCount := currentCount ?e + (if ok then 1 else 0)\<rparr>) (rl_buckets rl)\<rparr>"
    using assms(3) by (auto simp: ratelimit_Allow_def Let_def split: if_splits)
  then show "rl_limit rl' = ?cap" "rl_window rl' = ?W" by simp_all
  show "limiter_ok t rl'"
    using assms(1) new later rl' by (auto simp: limiter_ok_def update_conv' distinct_update)
  show "\<exists>e. map_of (rl_buckets rl') = (map_of (rl_buckets rl))(k \<mapsto> e) \<and>
      windowStart e = Truncate t ?W \<and>
      currentCount e = currentCount (slide ?W t (map_of (rl_buckets rl) k)) + (if ok then 1 else 0)"
    using s(1) rl' by (auto simp: update_conv')
qed

lemma map_of_filter_keys:
  "distinct (map fst xs) \<Longrightarrow>
     map_of (filter P xs) k = Option.bind (map_of xs k) (\<lambda>v. if P (k, v) then Some v else None)"
proof (induction xs)
  case (Cons x xs)
  have "map_of xs k = None" if "fst x = k" using that Cons.prems by (auto simp: map_of_eq_None_iff)
  with Cons show ?case by (cases x) (auto simp: bind_split)
qed simp

lemma cleanup_spec:
  assumes "limiter_ok t0 rl" "t0 \<le> t"
  shows "limiter_ok t (ratelimit_cleanup t rl)"
    and "rl_limit (ratelimit_cleanup t rl) = rl_limit rl" "rl_window (ratelimit_cleanup t rl) = rl_window rl"
    and "map_of (rl_buckets (ratelimit_cleanup t rl)) k =
      (case map_of (rl_buckets rl) k of
         None \<Rightarrow> None
       | Some e \<Rightarrow> if windowStart e < t - 2 * rl_window rl then None else Some e)"
proof -
  have c: "i64 (- 2 * rl_window rl) = - 2 * rl_window rl"
    using assms(1) by (auto simp: limiter_ok_def)
  have d: "distinct (map fst (rl_buckets rl))" using assms(1) by (simp add: limiter_ok_def)
  show eq: "map_of (rl_buckets (ratelimit_cleanup t rl)) k =
      (case map_of (rl_buckets rl) k of
         None \<Rightarrow> None
       | Some e \<Rightarrow> if windowStart e < t - 2 * rl_window rl then None else Some e)" for k
    using d c by (auto simp: ratelimit_cleanup_def Let_def map_of_filter_keys bind_split split: option.splits)
  show "rl_limit (ratelimit_cleanup t rl) = rl_limit rl" "rl_window (ratelimit_cleanup t rl) = rl_window rl"
    by (simp_all add: ratelimit_cleanup_def Let_def)
  have "distinct (map fst (rl_buckets (ratelimit_cleanup t rl)))"
    using d by (simp add: ratelimit_cleanup_def Let_def distinct_map_filter)
  with assms show "limiter_ok t (ratelimit_cleanup t rl)"
    using eq limiter_entry [OF assms]
    by (simp add: limiter_ok_def ratelimit_cleanup_def Let_def split: option.splits)
qed

text \<open>
  How many more requests of a key a window can admit, seen from an instant: none once the
  window is over.
\<close>

definition room :: "string \<Rightarrow> time \<Rightarrow> time \<Rightarrow> RateLimit \<Rightarrow> int" where
  "room key ws t0 rl =
     (if Truncate t0 (rl_window rl) > ws then 0
      else case map_of (rl_buckets rl) key of
        None \<Rightarrow> rl_limit rl
      | Some e \<Rightarrow> if windowStart e < ws then rl_limit rl else rl_limit rl - currentCount e)"

lemma room_nonneg: "limiter_ok t0 rl \<Longrightarrow> 0 \<le> room key ws t0 rl"
  using limiter_entry [of t0 rl t0 key]
  by (auto simp: room_def limiter_ok_def entry_ok_def split: option.splits)

lemma limiter_entry_window:
  assumes "limiter_ok t0 rl" "map_of (rl_buckets rl) k = Some e"
  shows "windowStart e \<le> Truncate t0 (rl_window rl)"
  using limiter_entry [OF assms(1) order.refl assms(2)] assms(1)
  by (intro Truncate_ge) (auto simp: entry_ok_def limiter_ok_def)

lemma room_Allow:
  assumes "limiter_ok t0 rl" "t0 \<le> t" "ratelimit_Allow pf t k rl = (ok, rl')"
  shows "(if ok \<and> k = key \<and> Truncate t (rl_window rl) = ws then 1 else 0) + room key ws t rl'
    \<le> room key ws t0 rl"
proof -
  let ?W = "rl_window rl"
  note spec = Allow_spec [OF assms]
  obtain e where e: "map_of (rl_buckets rl') = (map_of (rl_buckets rl))(k \<mapsto> e)"
    "windowStart e = Truncate t ?W"
    "currentCount e = currentCount (slide ?W t (map_of (rl_buckets rl) k)) + (if ok then 1 else 0)"
    using spec(4) by blast
  have W: "0 < ?W" using assms(1) by (simp add: limiter_ok_def)
  have T: "Truncate t0 ?W \<le> Truncate t ?W"
    using Truncate_props [OF W, of t0] assms(2) by (intro Truncate_ge [OF W]) auto
  consider "ws < Truncate t ?W" | "Truncate t ?W < ws" | "Truncate t ?W = ws" by linarith
  then show ?thesis
  proof cases
    case 1
    with room_nonneg [OF assms(1)] show ?thesis by (simp add: room_def [of key ws t] spec)
  next
    case 2
    have "room key ws t0 rl = rl_limit rl"
      using 2 T limiter_entry_window [OF assms(1), of key]
      by (auto simp: room_def split: option.splits)
    moreover have "room key ws t rl' \<le> rl_limit rl"
      using limiter_entry [OF spec(1) order.refl, of key] spec(2)
      by (auto simp: room_def entry_ok_def limiter_ok_def spec split: option.splits)
        (use assms(1) in \<open>simp add: limiter_ok_def\<close>)
    ultimately show ?thesis using 2 by simp
  next
    case 3
    show ?thesis
    proof (cases "k = key")
      case False
      with 3 T show ?thesis by (auto simp: room_def spec(2,3) e(1) split: option.splits)
    next
      case True
      have "currentCount (slide ?W t (map_of (rl_buckets rl) k)) =
          (case map_of (rl_buckets rl) k of None \<Rightarrow> 0
           | Some e \<Rightarrow> if windowStart e = Truncate t ?W then currentCount e else 0)"
        using assms(1) limiter_entry [OF assms(1,2), of k]
        by (intro slide_spec(2)) (auto simp: limiter_ok_def)
      with True 3 T e show ?thesis
        using limiter_entry_window [OF assms(1), of key]
        by (fastforce simp: room_def spec split: option.splits)
    qed
  qed
qed

lemma room_cleanup:
  assumes "limiter_ok t0 rl" "t0 \<le> t"
  shows "room key ws t (ratelimit_cleanup t rl) \<le> room key ws t0 rl"
proof -
  let ?W = "rl_window rl"
  note spec = cleanup_spec [OF assms]
  have W: "0 < ?W" using assms(1) by (simp add: limiter_ok_def)
  have T: "Truncate t0 ?W \<le> Truncate t ?W" "t < Truncate t ?W + ?W"
    using Truncate_props [OF W] assms(2) by (auto intro!: Truncate_ge [OF W])
      (meson Truncate_props(1) W order_trans)
  show ?thesis
  proof (cases "ws < Truncate t ?W")
    case True
    with room_nonneg [OF assms(1)] show ?thesis by (simp add: room_def [of key ws t] spec)
  next
    case False
    with T W show ?thesis
      by (auto simp: room_def spec split: option.splits)
  qed
qed

lemma admitted_room:
  assumes "limiter_ok t0 rl" "sorted (map ev_time es)" "\<forall>e \<in> set es. t0 \<le> ev_time e"
  shows "int (admitted_in (rl_window rl) key ws (rl_answers pf es rl)) \<le> room key ws t0 rl"
  using assms
proof (induction es arbitrary: t0 rl)
  case Nil
  then show ?case by (simp add: admitted_in_def room_nonneg)
next
  case (Cons ev es)
  show ?case
  proof (cases ev)
    case (RlAllow t k)
    obtain ok rl' where al: "ratelimit_Allow pf t k rl = (ok, rl')" by force
    have t: "t0 \<le> t" using Cons.prems RlAllow by simp
    note spec = Allow_spec [OF Cons.prems(1) t al]
    have "int (admitted_in (rl_window rl) key ws (rl_answers pf es rl')) \<le> room key ws t rl'"
      using Cons.IH [OF spec(1)] Cons.prems RlAllow spec(3) by simp
    with room_Allow [OF Cons.prems(1) t al, of key ws] RlAllow al show ?thesis
      by (auto simp: admitted_in_def)
  next
    case (RlCleanup t)
    have t: "t0 \<le> t" using Cons.prems RlCleanup by simp
    note spec = cleanup_spec [OF Cons.prems(1) t]
    have "int (admitted_in (rl_window rl) key ws (rl_answers pf es (ratelimit_cleanup t rl)))
        \<le> room key ws t (ratelimit_cleanup t rl)"
      using Cons.IH [OF spec(1)] Cons.prems RlCleanup spec(3) by simp
    with room_cleanup [OF Cons.prems(1) t, of key ws] RlCleanup show ?thesis by simp
  qed
qed

section \<open>Lemmas: cleaning and other clients\<close>

lemma slide_stale:
  assumes "0 < W" "W < 2 ^ 62" "windowStart e + 2 * W \<le> t"
  shows "slide W t (Some e) = slide W t None"
proof -
  have "i64 (2 * W) = 2 * W" using assms(1,2) by auto
  moreover have "time_sub t (windowStart e) \<ge> 2 * W" "time_sub t (windowStart e) \<ge> W"
    using assms by (simp_all add: time_sub_ge)
  moreover have "\<not> time_sub t (Truncate t W) \<ge> W"
    using assms(1,2) Truncate_props [OF assms(1), of t] by (simp add: time_sub_ge)
  ultimately show ?thesis by (simp add: slide_def)
qed

text \<open>Two limiters that differ at most in entries nobody will look at as they are.\<close>

definition same_clients :: "time \<Rightarrow> RateLimit \<Rightarrow> RateLimit \<Rightarrow> bool" where
  "same_clients t0 rl rl' \<longleftrightarrow>
     rl_limit rl = rl_limit rl' \<and> rl_window rl = rl_window rl' \<and>
     (\<forall>k. map_of (rl_buckets rl) k = map_of (rl_buckets rl') k \<or>
        map_of (rl_buckets rl) k = None \<and>
        (\<exists>e. map_of (rl_buckets rl') k = Some e \<and> windowStart e + 2 * rl_window rl \<le> t0))"

lemma same_clients_later: "same_clients t0 rl rl' \<Longrightarrow> t0 \<le> t \<Longrightarrow> same_clients t rl rl'"
  unfolding same_clients_def by (meson order_trans)

lemma same_clients_slide:
  assumes "limiter_ok t0 rl" "same_clients t0 rl rl'" "t0 \<le> t"
  shows "slide (rl_window rl) t (map_of (rl_buckets rl) k) = slide (rl_window rl) t (map_of (rl_buckets rl') k)"
proof -
  from assms(2) consider "map_of (rl_buckets rl) k = map_of (rl_buckets rl') k"
    | e where "map_of (rl_buckets rl) k = None" "map_of (rl_buckets rl') k = Some e"
      "windowStart e + 2 * rl_window rl \<le> t0"
    unfolding same_clients_def by blast
  then show ?thesis
  proof cases
    case (2 e)
    with assms(1,3) slide_stale [of "rl_window rl" e t] show ?thesis by (simp add: limiter_ok_def)
  qed simp
qed

lemma same_clients_Allow:
  assumes "limiter_ok t0 rl" "same_clients t0 rl rl'" "t0 \<le> t"
  shows "fst (ratelimit_Allow pf t k rl) = fst (ratelimit_Allow pf t k rl')"
    and "same_clients t (snd (ratelimit_Allow pf t k rl)) (snd (ratelimit_Allow pf t k rl'))"
proof -
  have eq: "rl_limit rl = rl_limit rl'" "rl_window rl = rl_window rl'"
    using assms(2) by (simp_all add: same_clients_def)
  note s = same_clients_slide [OF assms, of k]
  show "fst (ratelimit_Allow pf t k rl) = fst (ratelimit_Allow pf t k rl')"
    using s eq by (simp add: ratelimit_Allow_def Let_def)
  show "same_clients t (snd (ratelimit_Allow pf t k rl)) (snd (ratelimit_Allow pf t k rl'))"
    using s eq same_clients_later [OF assms(2,3)]
    by (simp add: ratelimit_Allow_def Let_def same_clients_def update_conv')
qed

lemma same_clients_cleanup:
  assumes "limiter_ok t0 rl" "same_clients t0 rl rl'" "t0 \<le> t"
  shows "same_clients t (ratelimit_cleanup t rl) rl'"
proof -
  note spec = cleanup_spec [OF assms(1,3)]
  have "map_of (rl_buckets (ratelimit_cleanup t rl)) k = map_of (rl_buckets rl') k \<or>
      map_of (rl_buckets (ratelimit_cleanup t rl)) k = None \<and>
      (\<exists>e. map_of (rl_buckets rl') k = Some e \<and> windowStart e + 2 * rl_window rl \<le> t)" for k
  proof -
    have "map_of (rl_buckets rl) k = map_of (rl_buckets rl') k \<or>
        map_of (rl_buckets rl) k = None \<and>
        (\<exists>e. map_of (rl_buckets rl') k = Some e \<and> windowStart e + 2 * rl_window rl \<le> t)"
      using same_clients_later [OF assms(2,3)] unfolding same_clients_def by blast
    then show ?thesis
      by (cases "map_of (rl_buckets rl) k"; cases "map_of (rl_buckets rl') k") (auto simp: spec(4))
  qed
  then show ?thesis using assms(2) spec(2,3) by (simp add: same_clients_def)
qed

fun is_request :: "rl_event \<Rightarrow> bool" where
  "is_request (RlAllow t k) = True"
| "is_request (RlCleanup t) = False"

lemma answers_same_clients:
  assumes "limiter_ok t0 rl" "same_clients t0 rl rl'" "sorted (map ev_time es)"
    and "\<forall>e \<in> set es. t0 \<le> ev_time e"
  shows "rl_answers pf es rl = rl_answers pf (filter is_request es) rl'"
  using assms
proof (induction es arbitrary: t0 rl rl')
  case (Cons ev es)
  show ?case
  proof (cases ev)
    case (RlAllow t k)
    then have t: "t0 \<le> t" using Cons.prems by simp
    obtain ok rl1 where al: "ratelimit_Allow pf t k rl = (ok, rl1)" by force
    note same = same_clients_Allow [OF Cons.prems(1,2) t, of pf k]
    have "rl_answers pf es rl1 = rl_answers pf (filter is_request es) (snd (ratelimit_Allow pf t k rl'))"
      using Cons.IH [OF Allow_spec(1) [OF Cons.prems(1) t al]] same(2) al Cons.prems(3,4) RlAllow by simp
    with same(1) al RlAllow show ?thesis by simp
  next
    case (RlCleanup t)
    then have t: "t0 \<le> t" using Cons.prems by simp
    from Cons.IH [OF cleanup_spec(1) [OF Cons.prems(1) t] same_clients_cleanup [OF Cons.prems(1,2) t]]
      Cons.prems(3,4) RlCleanup
    show ?thesis by simp
  qed
qed simp

text \<open>Agreement of two limiters on one key.\<close>

definition agree_on :: "string \<Rightarrow> RateLimit \<Rightarrow> RateLimit \<Rightarrow> bool" where
  "agree_on key rl rl' \<longleftrightarrow>
     rl_limit rl = rl_limit rl' \<and> rl_window rl = rl_window rl' \<and>
     map_of (rl_buckets rl) key = map_of (rl_buckets rl') key \<and>
     distinct (map fst (rl_buckets rl)) \<and> distinct (map fst (rl_buckets rl'))"

lemma agree_on_Allow:
  assumes "agree_on key rl rl'"
  shows "fst (ratelimit_Allow pf t key rl) = fst (ratelimit_Allow pf t key rl')"
    and "agree_on key (snd (ratelimit_Allow pf t key rl)) (snd (ratelimit_Allow pf t key rl'))"
    and "k \<noteq> key \<Longrightarrow> agree_on key (snd (ratelimit_Allow pf t k rl)) rl'"
  using assms by (auto simp: agree_on_def ratelimit_Allow_def Let_def update_conv' distinct_update)

lemma agree_on_cleanup:
  "agree_on key rl rl' \<Longrightarrow> agree_on key (ratelimit_cleanup t rl) (ratelimit_cleanup t rl')"
  by (auto simp: agree_on_def ratelimit_cleanup_def Let_def map_of_filter_keys distinct_map_filter)

fun concerns :: "string \<Rightarrow> rl_event \<Rightarrow> bool" where
  "concerns key (RlAllow t k) \<longleftrightarrow> k = key"
| "concerns key (RlCleanup t) = True"

lemma answers_of_key:
  "agree_on key rl rl' \<Longrightarrow>
     filter (\<lambda>(t, k, ok). k = key) (rl_answers pf es rl) = rl_answers pf (filter (concerns key) es) rl'"
proof (induction es arbitrary: rl rl')
  case (Cons ev es)
  then show ?case
    by (cases ev) (auto simp: agree_on_Allow agree_on_cleanup)
qed simp

section \<open>Properties\<close>

text \<open>
  C6. The limit holds: in a run with a clock that does not go back, from a limiter without
  entries, no more requests of a client are admitted in any one window than the limit says,
  whatever the other clients do and whenever entries are cleaned away, and whether or not the
  compiler fuses the floating-point operations.
\<close>

theorem window_limit_holds:
  assumes "0 < rl_window rl" "rl_window rl < 2 ^ 62" "0 \<le> rl_limit rl" "rl_limit rl \<le> 2 ^ 52"
    and "rl_buckets rl = []" "sorted (map ev_time es)"
  shows "int (admitted_in (rl_window rl) key ws (rl_answers pf es rl)) \<le> rl_limit rl"
proof (cases es)
  case Nil
  then show ?thesis using assms by (simp add: admitted_in_def)
next
  case (Cons e es')
  have "limiter_ok (ev_time e) rl" using assms by (simp add: limiter_ok_def)
  moreover have "\<forall>x \<in> set es. ev_time e \<le> ev_time x" using assms(6) Cons by auto
  ultimately have "int (admitted_in (rl_window rl) key ws (rl_answers pf es rl)) \<le> room key ws (ev_time e) rl"
    using assms(6) by (intro admitted_room)
  also have "\<dots> \<le> rl_limit rl" using assms(3,5) by (simp add: room_def)
  finally show ?thesis .
qed

definition sample_limiter :: RateLimit where
  "sample_limiter = \<lparr>rl_limit = 2, rl_window = 50, rl_buckets = [], rl_stopped = False\<rparr>"

theorem window_limit_holds_witness:
  "int (admitted_in 50 ''a'' 100 (rl_answers \<lparr>fp_fused = False, fp_undef = 0\<rparr>
     [RlAllow 100 ''a'', RlAllow 101 ''a'', RlAllow 102 ''a'', RlCleanup 110] sample_limiter)) \<le> 2"
  using window_limit_holds [of sample_limiter
      "[RlAllow 100 ''a'', RlAllow 101 ''a'', RlAllow 102 ''a'', RlCleanup 110]" "''a''" 100]
  by (simp add: sample_limiter_def)

text \<open>
  C39. Cleaning is invisible: with a clock that does not go back, a run answers every request as
  the run without the rounds of the cleaning goroutine does.
\<close>

theorem cleanup_invisible:
  assumes "0 < rl_window rl" "rl_window rl < 2 ^ 62" "0 \<le> rl_limit rl" "rl_limit rl \<le> 2 ^ 52"
    and "rl_buckets rl = []" "sorted (map ev_time es)"
  shows "rl_answers pf es rl = rl_answers pf (filter is_request es) rl"
proof (cases es)
  case (Cons e es')
  have "limiter_ok (ev_time e) rl" "same_clients (ev_time e) rl rl"
    using assms by (simp_all add: limiter_ok_def same_clients_def)
  moreover have "\<forall>x \<in> set es. ev_time e \<le> ev_time x" using assms(6) Cons by auto
  ultimately show ?thesis using assms(6) by (intro answers_same_clients)
qed simp

theorem cleanup_invisible_witness:
  "rl_answers \<lparr>fp_fused = False, fp_undef = 0\<rparr>
     [RlAllow 100 ''a'', RlCleanup 300, RlAllow 310 ''a''] sample_limiter =
   rl_answers \<lparr>fp_fused = False, fp_undef = 0\<rparr> [RlAllow 100 ''a'', RlAllow 310 ''a''] sample_limiter"
  using cleanup_invisible [of sample_limiter "[RlAllow 100 ''a'', RlCleanup 300, RlAllow 310 ''a'']"
      "\<lparr>fp_fused = False, fp_undef = 0\<rparr>"]
  by (simp add: sample_limiter_def del: rl_answers.simps)

text \<open>
  Clients do not disturb each other: the answers to one client in a run are those it would
  get if it were alone.
\<close>

theorem clients_isolated:
  assumes "distinct (map fst (rl_buckets rl))"
  shows "filter (\<lambda>(t, k, ok). k = key) (rl_answers pf es rl) =
    rl_answers pf (filter (concerns key) es) rl"
  using assms by (intro answers_of_key) (simp add: agree_on_def)

theorem clients_isolated_witness:
  "filter (\<lambda>(t, k, ok). k = ''a'') (rl_answers \<lparr>fp_fused = False, fp_undef = 0\<rparr>
     [RlAllow 100 ''b'', RlAllow 101 ''a'', RlAllow 102 ''b''] sample_limiter) =
   rl_answers \<lparr>fp_fused = False, fp_undef = 0\<rparr> [RlAllow 101 ''a''] sample_limiter"
  using clients_isolated [of sample_limiter "''a''" "\<lparr>fp_fused = False, fp_undef = 0\<rparr>"
      "[RlAllow 100 ''b'', RlAllow 101 ''a'', RlAllow 102 ''b'']"]
  by (simp add: sample_limiter_def del: rl_answers.simps)

text \<open>
  A client that is new, or was silent for two windows, is admitted again as long as the limit
  is positive.
\<close>

theorem quiet_client_admitted:
  assumes "0 < rl_window rl" "rl_window rl < 2 ^ 62" "0 < rl_limit rl"
    and "\<And>e. map_of (rl_buckets rl) key = Some e \<Longrightarrow> windowStart e + 2 * rl_window rl \<le> t"
  shows "fst (ratelimit_Allow pf t key rl)"
proof -
  have "slide (rl_window rl) t (map_of (rl_buckets rl) key) = slide (rl_window rl) t None"
    using assms slide_stale by (cases "map_of (rl_buckets rl) key") auto
  moreover have "currentCount (slide (rl_window rl) t None) = 0 \<and> previousCount (slide (rl_window rl) t None) = 0"
    by (simp add: slide_def Let_def)
  ultimately show ?thesis
    using assms(1,3) by (simp add: ratelimit_Allow_def Let_def estimate_def f64.rnd_0 to_int_def)
qed

theorem quiet_client_admitted_witness:
  "fst (ratelimit_Allow \<lparr>fp_fused = True, fp_undef = 0\<rparr> 250 ''a''
     (sample_limiter\<lparr>rl_buckets := [(''a'', \<lparr>currentCount = 2, previousCount = 2, windowStart = 150\<rparr>)]\<rparr>))"
  by (rule quiet_client_admitted) (auto simp: sample_limiter_def)

end
