(* ===== verification/Gateway_Config.thy ===== *)
theory Gateway_Config
  imports Rate_Limit
begin

text \<open>
  The configuration (\<^verbatim>\<open>config.go\<close>): its structures and the checks that the repository makes itself.
  Reading YAML, filling defaults and checking the struct tags are work of third-party packages
  and enter as the record \<open>config_libs\<close>; \<open>tags_hold\<close> spells out what the tags demand.
\<close>

section \<open>Structures\<close>

type_synonym cfg_map = "(string, cfg_value) gomap"

record ServerTLSConfig =
  stls_Enabled :: bool
  stls_CertFile :: string
  stls_KeyFile :: string
  stls_MinVersion :: string
  stls_ClientAuth :: string
  stls_ClientCAFile :: string

record ServerConfig =
  srv_Port :: int
  srv_Timeout :: duration
  srv_HeaderTimeout :: duration
  srv_HTTP2 :: string
  srv_TLS :: ServerTLSConfig

record AdminConfig =
  adm_Port :: int
  adm_BindAddr :: string
  adm_Timeout :: duration
  adm_HeaderTimeout :: duration
  adm_EnablePprof :: bool

record OTLPConfig =
  otlp_Endpoint :: string
  otlp_Insecure :: bool
  otlp_Interval :: duration

record MetricsConfig =
  met_Enabled :: bool
  met_Exporter :: string
  met_OTLP :: OTLPConfig

record TracingConfig =
  trc_Enabled :: bool
  trc_Exporter :: string
  trc_SamplingRatio :: rat
  trc_OTLP :: OTLPConfig

record RateLimiterConfig =
  rlc_Enabled :: bool
  rlc_Config :: "cfg_map option"

record OnConflictConfig =
  onc_Policy :: string
  onc_Upstream :: string

record AggregationConfig =
  agc_BestEffort :: bool
  agc_Strategy :: string
  agc_OnConflict :: "OnConflictConfig option"

record TLSConfig =
  tls_Enabled :: bool
  tls_CertFile :: string
  tls_KeyFile :: string
  tls_CAFile :: string
  tls_ServerName :: string
  tls_InsecureSkipVerify :: bool
  tls_MinVersion :: string

record TransportConfig =
  trn_MaxIdleConns :: int
  trn_MaxIdleConnsPerHost :: int
  trn_IdleConnTimeout :: duration
  trn_HTTP2 :: string

text \<open>\<^verbatim>\<open>PluginConfig\<close> and \<^verbatim>\<open>MiddlewareConfig\<close> have the same fields.\<close>

record PluginConfig =
  plc_Name :: string
  plc_Source :: string
  plc_Path :: string
  plc_Config :: cfg_map

record RetryConfig =
  rtc_MaxRetries :: int
  rtc_RetryOnStatuses :: "int list"
  rtc_BackoffDelay :: duration

record CircuitBreakerConfig =
  cbc_Enabled :: bool
  cbc_MaxFailures :: int
  cbc_ResetTimeout :: duration

record PolicyConfig =
  pol_HeaderBlacklist :: "string list"
  pol_RequireBody :: bool
  pol_MaxResponseBodySize :: int
  pol_FollowRedirects :: bool
  pol_RetryConfig :: RetryConfig
  pol_CircuitBreakerConfig :: CircuitBreakerConfig
  pol_LoadBalancingMode :: string

record UpstreamConfig =
  upc_Name :: string
  upc_Hosts :: "string list"
  upc_Path :: string
  upc_Method :: string
  upc_Timeout :: duration
  upc_ForwardHeaders :: "string list"
  upc_ForwardQueries :: "string list"
  upc_ForwardParams :: "string list"
  upc_Policy :: PolicyConfig
  upc_Transport :: TransportConfig
  upc_TLS :: TLSConfig

record FlowConfig =
  flc_Path :: string
  flc_Method :: string
  flc_Streaming :: bool
  flc_Aggregation :: "AggregationConfig option"
  flc_Upstreams :: "UpstreamConfig list"
  flc_Plugins :: "PluginConfig list"
  flc_Middlewares :: "PluginConfig list"

record RoutingConfig =
  rou_RateLimiter :: RateLimiterConfig
  rou_TrustedProxies :: "string list"
  rou_Flows :: "FlowConfig list"

text \<open>\<^verbatim>\<open>Config\<close> with the nested \<^verbatim>\<open>GatewayConfig\<close> and \<^verbatim>\<open>ObservabilityConfig\<close> spread out.\<close>

record Config =
  cfg_Schema :: string
  cfg_Debug :: bool
  cfg_ServiceName :: string
  cfg_Server :: ServerConfig
  cfg_Admin :: AdminConfig
  cfg_Tracing :: TracingConfig
  cfg_Metrics :: MetricsConfig
  cfg_Routing :: RoutingConfig

section \<open>Address lists\<close>

text \<open>
  The kinds of a YAML node; a scalar and a sequence carry what decoding them as a string and as
  a list of strings gives.
\<close>

datatype yaml_node =
    ScalarNode "go_error + string"
  | SequenceNode "go_error + string list"
  | DocumentNode
  | MappingNode
  | AliasNode
  | OtherNode int

fun AddrList_UnmarshalYAML :: "yaml_node \<Rightarrow> go_error + string list" where
  "AddrList_UnmarshalYAML (ScalarNode d) =
     (case d of Inl err \<Rightarrow> Inl err | Inr addr \<Rightarrow> Inr [addr])"
| "AddrList_UnmarshalYAML (SequenceNode d) =
     (case d of Inl err \<Rightarrow> Inl err | Inr addrs \<Rightarrow> Inr addrs)"
| "AddrList_UnmarshalYAML DocumentNode = Inl (ErrMsg ''expects a string or sequence, got 1'')"
| "AddrList_UnmarshalYAML MappingNode = Inl (ErrMsg ''expects a string or sequence, got 4'')"
| "AddrList_UnmarshalYAML AliasNode = Inl (ErrMsg ''expects a string or sequence, got 16'')"
| "AddrList_UnmarshalYAML (OtherNode k) = Inl (ErrMsg (''unexpected yaml node kind for AddrList: '' @ Itoa k))"

section \<open>Path parameters\<close>

text \<open>
  The first groups of all matches of the pattern \<^verbatim>\<open>\{([^}]+)\}\<close>, from left to right.
\<close>

function path_params :: "string \<Rightarrow> string list" where
  "path_params [] = []"
| "path_params (c # s) =
     (let name = takeWhile (\<lambda>x. x \<noteq> CHR ''}'') s; rest = dropWhile (\<lambda>x. x \<noteq> CHR ''}'') s in
      if c = CHR ''{'' \<and> name \<noteq> [] \<and> rest \<noteq> [] then name # path_params (tl rest)
      else path_params s)"
  by pat_completeness auto

termination path_params
proof (relation "measure length")
  show "wf (measure length)" by simp
next
  fix c :: char and s name rest
  assume "rest = dropWhile (\<lambda>x. x \<noteq> CHR ''}'') s"
  then have "length rest \<le> length s" by (simp add: length_dropWhile_le)
  then show "(tl rest, c # s) \<in> measure length" by simp
qed simp

definition extractPathParams :: "string \<Rightarrow> string list" where
  "extractPathParams path = remdups (path_params path)"

section \<open>Checks of flows\<close>

text \<open>\<^verbatim>\<open>%q\<close> of \<^verbatim>\<open>fmt\<close> on text without characters to escape.\<close>

definition quoted :: "string \<Rightarrow> string" where
  "quoted s = CHR 0x22 # s @ [CHR 0x22]"

definition single_quoted :: "string \<Rightarrow> string" where
  "single_quoted s = CHR 0x27 # s @ [CHR 0x27]"

fun check_params :: "UpstreamConfig \<Rightarrow> string list \<Rightarrow> string \<Rightarrow> string list \<Rightarrow> go_error option" where
  "check_params u flowParams flowPath [] = None"
| "check_params u flowParams flowPath (p # ps) =
     (if p \<notin> set flowParams
      then Some (ErrMsg (''upstream '' @ quoted (upc_Name u) @ '': path param '' @
             single_quoted (''{'' @ p @ ''}'') @ '' not declared in flow path '' @ quoted flowPath))
      else check_params u flowParams flowPath ps)"

fun check_forwarded :: "UpstreamConfig \<Rightarrow> string list \<Rightarrow> string \<Rightarrow> string list \<Rightarrow> go_error option" where
  "check_forwarded u flowParams flowPath [] = None"
| "check_forwarded u flowParams flowPath (p # ps) =
     (if p = ''*'' then check_forwarded u flowParams flowPath ps
      else if p \<notin> set flowParams
      then Some (ErrMsg (''upstream '' @ quoted (upc_Name u) @ '': forward_param '' @ quoted p @
             '' not declared in flow path '' @ quoted flowPath))
      else check_forwarded u flowParams flowPath ps)"

definition validateUpstreamParams :: "UpstreamConfig \<Rightarrow> string list \<Rightarrow> string \<Rightarrow> go_error option" where
  "validateUpstreamParams u flowParams flowPath =
     (case check_params u flowParams flowPath (path_params (upc_Path u)) of
        Some err \<Rightarrow> Some err
      | None \<Rightarrow> check_forwarded u flowParams flowPath (upc_ForwardParams u))"

fun check_upstreams :: "string list \<Rightarrow> string \<Rightarrow> UpstreamConfig list \<Rightarrow> go_error option" where
  "check_upstreams flowParams flowPath [] = None"
| "check_upstreams flowParams flowPath (u # us) =
     (case validateUpstreamParams u flowParams flowPath of
        Some err \<Rightarrow> Some err
      | None \<Rightarrow> check_upstreams flowParams flowPath us)"

fun check_flows :: "FlowConfig list \<Rightarrow> go_error option" where
  "check_flows [] = None"
| "check_flows (f # fs) =
     (case check_upstreams (extractPathParams (flc_Path f)) (flc_Path f) (flc_Upstreams f) of
        Some err \<Rightarrow> Some err
      | None \<Rightarrow>
          if flc_Streaming f \<and> length (flc_Upstreams f) > 1
          then Some (ErrMsg (''flow '' @ quoted (flc_Path f) @ '': streaming flow must have only one upstream''))
          else if \<not> flc_Streaming f \<and> length (flc_Upstreams f) > 1 \<and> flc_Aggregation f = None
          then Some (ErrMsg (''flow '' @ quoted (flc_Path f) @
                 '': aggregation is required for flows with more than one upstream''))
          else check_flows fs)"

definition validateFlows :: "Config \<Rightarrow> go_error option" where
  "validateFlows cfg = check_flows (rou_Flows (cfg_Routing cfg))"

fun check_http2 :: "UpstreamConfig list \<Rightarrow> go_error option" where
  "check_http2 [] = None"
| "check_http2 (u # us) =
     (if trn_HTTP2 (upc_Transport u) = ''on'' \<and> \<not> tls_Enabled (upc_TLS u)
      then Some (ErrMsg (''upstream '' @ quoted (upc_Name u) @
             '': transport.http2 cannot be '' @ single_quoted ''on'' @ '' without tls.enabled''))
      else check_http2 us)"

definition validateHTTP2 :: "Config \<Rightarrow> go_error option" where
  "validateHTTP2 cfg =
     (if srv_HTTP2 (cfg_Server cfg) = ''on'' \<and> \<not> stls_Enabled (srv_TLS (cfg_Server cfg))
      then Some (ErrMsg (''gateway.server.http2: cannot be '' @ single_quoted ''on'' @
             '' without gateway.server.tls.enabled''))
      else check_http2 (concat (map flc_Upstreams (rou_Flows (cfg_Routing cfg)))))"

section \<open>Struct tags\<close>

text \<open>
  What the \<^verbatim>\<open>validate\<close> tags of the structures demand.  \<^verbatim>\<open>omitempty\<close> exempts the empty value,
  \<^verbatim>\<open>required_if\<close>, \<^verbatim>\<open>required_unless\<close> and \<^verbatim>\<open>required_with\<close> look at a sibling field, and \<^verbatim>\<open>dive\<close> goes to the
  elements of a list.
\<close>

definition http2_tag :: "string \<Rightarrow> bool" where
  "http2_tag s \<longleftrightarrow> s \<in> {[], ''auto'', ''on'', ''off''}"

definition tls_version_tag :: "string \<Rightarrow> bool" where
  "tls_version_tag s \<longleftrightarrow> s \<in> {[], ''1.2'', ''1.3''}"

definition port_tag :: "int \<Rightarrow> bool" where
  "port_tag n \<longleftrightarrow> 1 \<le> n \<and> n \<le> 65535"

definition ServerTLSConfig_tags :: "ServerTLSConfig \<Rightarrow> bool" where
  "ServerTLSConfig_tags c \<longleftrightarrow>
     (stls_Enabled c \<longrightarrow> stls_CertFile c \<noteq> [] \<and> stls_KeyFile c \<noteq> []) \<and>
     tls_version_tag (stls_MinVersion c) \<and>
     stls_ClientAuth c \<in> {[], ''require'', ''optional'', ''none''} \<and>
     (stls_ClientAuth c \<noteq> ''none'' \<longrightarrow> stls_ClientCAFile c \<noteq> [])"

definition ServerConfig_tags :: "ServerConfig \<Rightarrow> bool" where
  "ServerConfig_tags c \<longleftrightarrow>
     port_tag (srv_Port c) \<and> http2_tag (srv_HTTP2 c) \<and> ServerTLSConfig_tags (srv_TLS c)"

definition exporter_tag :: "bool \<Rightarrow> string list \<Rightarrow> string \<Rightarrow> bool" where
  "exporter_tag enabled allowed s \<longleftrightarrow> (enabled \<longrightarrow> s \<noteq> []) \<and> (s \<noteq> [] \<longrightarrow> s \<in> set allowed)"

definition MetricsConfig_tags :: "MetricsConfig \<Rightarrow> bool" where
  "MetricsConfig_tags c \<longleftrightarrow> exporter_tag (met_Enabled c) [''otlp'', ''prometheus''] (met_Exporter c)"

definition TracingConfig_tags :: "TracingConfig \<Rightarrow> bool" where
  "TracingConfig_tags c \<longleftrightarrow>
     exporter_tag (trc_Enabled c) [''otlp''] (trc_Exporter c) \<and>
     0 \<le> trc_SamplingRatio c \<and> trc_SamplingRatio c \<le> 1"

definition RateLimiterConfig_tags :: "RateLimiterConfig \<Rightarrow> bool" where
  "RateLimiterConfig_tags c \<longleftrightarrow> (\<not> rlc_Enabled c \<and> rlc_Config c = None) \<or> rlc_Config c \<noteq> None"

definition OnConflictConfig_tags :: "OnConflictConfig \<Rightarrow> bool" where
  "OnConflictConfig_tags c \<longleftrightarrow>
     onc_Policy c \<in> {''overwrite'', ''error'', ''first'', ''prefer''} \<and>
     (onc_Policy c = ''prefer'' \<longrightarrow> onc_Upstream c \<noteq> [])"

definition AggregationConfig_tags :: "AggregationConfig \<Rightarrow> bool" where
  "AggregationConfig_tags c \<longleftrightarrow>
     agc_Strategy c \<in> {''array'', ''merge'', ''namespace''} \<and>
     (agc_Strategy c = ''merge'' \<longrightarrow> agc_OnConflict c \<noteq> None) \<and>
     (case agc_OnConflict c of None \<Rightarrow> True | Some oc \<Rightarrow> OnConflictConfig_tags oc)"

definition TLSConfig_tags :: "TLSConfig \<Rightarrow> bool" where
  "TLSConfig_tags c \<longleftrightarrow>
     (tls_CertFile c = [] \<longleftrightarrow> tls_KeyFile c = []) \<and> tls_version_tag (tls_MinVersion c)"

definition UpstreamConfig_tags :: "UpstreamConfig \<Rightarrow> bool" where
  "UpstreamConfig_tags u \<longleftrightarrow>
     upc_Name u \<noteq> [] \<and> upc_Hosts u \<noteq> [] \<and> TLSConfig_tags (upc_TLS u) \<and>
     http2_tag (trn_HTTP2 (upc_Transport u))"

definition PluginConfig_tags :: "PluginConfig \<Rightarrow> bool" where
  "PluginConfig_tags c \<longleftrightarrow>
     plc_Name c \<noteq> [] \<and> plc_Source c \<in> {''builtin'', ''file''} \<and>
     (plc_Source c = ''file'' \<longrightarrow> plc_Path c \<noteq> [])"

definition FlowConfig_tags :: "FlowConfig \<Rightarrow> bool" where
  "FlowConfig_tags f \<longleftrightarrow>
     HasPrefix (flc_Path f) ''/'' \<and>
     flc_Method f \<in> {''GET'', ''POST'', ''PUT'', ''PATCH'', ''DELETE'', ''HEAD'', ''OPTIONS'', ''QUERY''} \<and>
     (case flc_Aggregation f of None \<Rightarrow> True | Some a \<Rightarrow> AggregationConfig_tags a) \<and>
     flc_Upstreams f \<noteq> [] \<and> list_all UpstreamConfig_tags (flc_Upstreams f) \<and>
     list_all PluginConfig_tags (flc_Plugins f) \<and> list_all PluginConfig_tags (flc_Middlewares f)"

definition tags_hold :: "Config \<Rightarrow> bool" where
  "tags_hold c \<longleftrightarrow>
     cfg_Schema c = ''v1'' \<and> ServerConfig_tags (cfg_Server c) \<and> port_tag (adm_Port (cfg_Admin c)) \<and>
     MetricsConfig_tags (cfg_Metrics c) \<and> TracingConfig_tags (cfg_Tracing c) \<and>
     RateLimiterConfig_tags (rou_RateLimiter (cfg_Routing c)) \<and>
     rou_Flows (cfg_Routing c) \<noteq> [] \<and> list_all FlowConfig_tags (rou_Flows (cfg_Routing c))"

section \<open>Loading and validating\<close>

record FieldError =
  fe_Namespace :: string
  fe_Field :: string
  fe_Tag :: string
  fe_Param :: string
  fe_Error :: string

text \<open>
  The third-party packages: the defaults of package \<^verbatim>\<open>defaults\<close>, the YAML decoder and the struct
  validator, which reports the failed fields or another error.
\<close>

record config_libs =
  lib_ReadFile :: "string \<Rightarrow> go_error + bytes"
  lib_Unmarshal :: "bytes \<Rightarrow> go_error + Config"
  lib_Defaults :: "Config \<Rightarrow> go_error + Config"
  lib_Struct :: "Config \<Rightarrow> (go_error + FieldError list) option"

definition validationMessage :: "FieldError \<Rightarrow> string" where
  "validationMessage fe =
     (if fe_Tag fe = ''required'' then ''field is required''
      else if fe_Tag fe = ''min'' then ''must have at least '' @ fe_Param fe @ '' item(s)''
      else if fe_Tag fe = ''oneof'' then ''must be one of ['' @ fe_Param fe @ '']''
      else if fe_Tag fe = ''hosts'' then ''must be a valid URL''
      else if fe_Tag fe = ''required_if'' then
        (if fe_Field fe = ''path'' then ''is required when source is '' @ single_quoted ''file''
         else fe_Error fe)
      else ''validation failed on '' @ quoted (fe_Tag fe))"

definition formatValidationError :: "go_error + FieldError list \<Rightarrow> go_error" where
  "formatValidationError err =
     (case err of
        Inl e \<Rightarrow> e
      | Inr ves \<Rightarrow>
          ErrMsg (Join (map (\<lambda>fe. ''  '' @ TrimPrefix (fe_Namespace fe) ''Config.'' @ '': '' @
                                  validationMessage fe) ves) [CHR 0x0A]))"

definition ValidateConfig :: "config_libs \<Rightarrow> Config \<Rightarrow> go_error + Config" where
  "ValidateConfig libs cfg0 =
     (case lib_Defaults libs cfg0 of
        Inl err \<Rightarrow> Inl (ErrWrap ''cannot apply configuration defaults: '' err)
      | Inr cfg \<Rightarrow>
          (case lib_Struct libs cfg of
             Some err \<Rightarrow> Inl (ErrWrap (''invalid configuration:'' @ [CHR 0x0A]) (formatValidationError err))
           | None \<Rightarrow>
               if srv_Port (cfg_Server cfg) = adm_Port (cfg_Admin cfg)
               then Inl (ErrMsg ''server.port and admin.port must differ'')
               else
                 (case validateFlows cfg of
                    Some err \<Rightarrow> Inl (ErrWrap ''invalid flow configuration: '' err)
                  | None \<Rightarrow>
                      (case validateHTTP2 cfg of
                         Some err \<Rightarrow> Inl err
                       | None \<Rightarrow> Inr cfg))))"

definition LoadConfig :: "config_libs \<Rightarrow> string \<Rightarrow> go_error + Config" where
  "LoadConfig libs path =
     (case lib_ReadFile libs path of
        Inl err \<Rightarrow> Inl (ErrWrap ''cannot read configuration file: '' err)
      | Inr data \<Rightarrow>
          (case lib_Unmarshal libs data of
             Inl err \<Rightarrow> Inl (ErrWrap ''cannot parse configuration file: '' err)
           | Inr cfg \<Rightarrow> ValidateConfig libs cfg))"

text \<open>The documented behaviour of the struct validator: it passes only what the tags admit.\<close>

definition validator_sound :: "config_libs \<Rightarrow> bool" where
  "validator_sound libs \<longleftrightarrow> (\<forall>cfg. lib_Struct libs cfg = None \<longrightarrow> tags_hold cfg)"

section \<open>Lemmas\<close>

lemma check_params_None: "check_params u fps path ps = None \<longleftrightarrow> set ps \<subseteq> set fps"
  by (induction ps) auto

lemma check_forwarded_None: "check_forwarded u fps path ps = None \<longleftrightarrow> set ps - {''*''} \<subseteq> set fps"
  by (induction ps) auto

lemma validateUpstreamParams_None:
  "validateUpstreamParams u fps path = None \<longleftrightarrow>
     set (path_params (upc_Path u)) \<subseteq> set fps \<and> set (upc_ForwardParams u) - {''*''} \<subseteq> set fps"
  using check_params_None [of u fps path "path_params (upc_Path u)"]
  by (cases "check_params u fps path (path_params (upc_Path u))")
    (simp_all add: validateUpstreamParams_def check_forwarded_None)

lemma check_upstreams_None:
  "check_upstreams fps path us = None \<longleftrightarrow> (\<forall>u \<in> set us. validateUpstreamParams u fps path = None)"
  by (induction us) (auto split: option.splits)

text \<open>What the checks of a flow leave through.\<close>

definition flow_valid :: "FlowConfig \<Rightarrow> bool" where
  "flow_valid f \<longleftrightarrow>
     (\<forall>u \<in> set (flc_Upstreams f).
        set (path_params (upc_Path u)) \<subseteq> set (path_params (flc_Path f)) \<and>
        set (upc_ForwardParams u) - {''*''} \<subseteq> set (path_params (flc_Path f))) \<and>
     (flc_Streaming f \<longrightarrow> length (flc_Upstreams f) \<le> 1) \<and>
     (\<not> flc_Streaming f \<longrightarrow> length (flc_Upstreams f) > 1 \<longrightarrow> flc_Aggregation f \<noteq> None)"

lemma check_flows_None: "check_flows fs = None \<longleftrightarrow> list_all flow_valid fs"
proof (induction fs)
  case (Cons f fs)
  have "check_upstreams (extractPathParams (flc_Path f)) (flc_Path f) (flc_Upstreams f) = None \<longleftrightarrow>
      (\<forall>u \<in> set (flc_Upstreams f).
        set (path_params (upc_Path u)) \<subseteq> set (path_params (flc_Path f)) \<and>
        set (upc_ForwardParams u) - {''*''} \<subseteq> set (path_params (flc_Path f)))"
    by (simp add: check_upstreams_None validateUpstreamParams_None extractPathParams_def)
  with Cons show ?case
    by (auto simp: flow_valid_def split: option.splits)
qed simp

lemma ValidateConfig_Inr:
  "ValidateConfig libs cfg0 = Inr cfg \<longleftrightarrow>
     lib_Defaults libs cfg0 = Inr cfg \<and> lib_Struct libs cfg = None \<and>
     srv_Port (cfg_Server cfg) \<noteq> adm_Port (cfg_Admin cfg) \<and>
     list_all flow_valid (rou_Flows (cfg_Routing cfg)) \<and> validateHTTP2 cfg = None"
  by (auto simp: ValidateConfig_def validateFlows_def check_flows_None [symmetric] split: sum.splits option.splits)

end
