(* ===== verification/Go_Encoding.thy ===== *)
theory Go_Encoding
  imports Go_Net
begin

text \<open>
  Parts of the standard library that the authentication middleware uses: base64
  (\<^verbatim>\<open>encoding/base64\<close>) and quoting (\<^verbatim>\<open>strconv.Quote\<close>) with the decoding of UTF-8 it rests on.  No
  definition here models a file of the repository.
\<close>

section \<open>Base64\<close>

definition b64_alphabet :: string where
  "b64_alphabet = ''ABCDEFGHIJKLMNOPQRSTUVWXYZabcdefghijklmnopqrstuvwxyz0123456789+/''"

definition b64_char :: "nat \<Rightarrow> char" where
  "b64_char n = b64_alphabet ! n"

definition b64_val :: "char \<Rightarrow> nat option" where
  "b64_val c = find (\<lambda>n. b64_char n = c) [0..<64]"

definition is_newline :: "char \<Rightarrow> bool" where
  "is_newline c \<longleftrightarrow> c = CHR 0x0A \<or> c = CHR 0x0D"

definition corrupt_input :: "nat \<Rightarrow> go_error" where
  "corrupt_input i = ErrMsg (''illegal base64 data at input byte '' @ Itoa (int i))"

text \<open>The bytes of a quantum of two to four sextets; bits beyond the last whole byte are dropped.\<close>

fun b64_quantum :: "nat list \<Rightarrow> bytes" where
  "b64_quantum [a, b] = [char_of (a * 4 + b div 16)]"
| "b64_quantum [a, b, c] = [char_of (a * 4 + b div 16), char_of (b mod 16 * 16 + c div 4)]"
| "b64_quantum [a, b, c, d] =
     [char_of (a * 4 + b div 16), char_of (b mod 16 * 16 + c div 4), char_of (c mod 4 * 64 + d)]"
| "b64_quantum _ = []"

text \<open>After the last padding character only line breaks may follow.\<close>

definition b64_finish :: "nat \<Rightarrow> nat list \<Rightarrow> bytes \<Rightarrow> go_error + bytes" where
  "b64_finish si q cs =
     (let rest = dropWhile is_newline cs in
      if rest \<noteq> [] then Inl (corrupt_input (si + (length cs - length rest))) else Inr (b64_quantum q))"

text \<open>After the first padding character: a quantum of two sextets needs a second one.\<close>

definition b64_padding :: "nat \<Rightarrow> nat list \<Rightarrow> bytes \<Rightarrow> go_error + bytes" where
  "b64_padding si q cs =
     (if length q = 2 then
        let rest = dropWhile is_newline cs; si' = si + (length cs - length rest) in
        (case rest of
           [] \<Rightarrow> Inl (corrupt_input si')
         | c # cs' \<Rightarrow>
             if c \<noteq> CHR ''='' then Inl (corrupt_input (si' - 1)) else b64_finish (si' + 1) q cs')
      else b64_finish si q cs)"

text \<open>
  \<^verbatim>\<open>StdEncoding.DecodeString\<close>, one character at a time: \<open>si\<close> is the position, \<open>q\<close> the sextets of
  the quantum that has begun.
\<close>

fun b64_scan :: "nat \<Rightarrow> nat list \<Rightarrow> bytes \<Rightarrow> go_error + bytes" where
  "b64_scan si q [] = (if q = [] then Inr [] else Inl (corrupt_input (si - length q)))"
| "b64_scan si q (c # cs) =
     (case b64_val c of
        Some v \<Rightarrow>
          if length q = 3
          then map_sum id (\<lambda>out. b64_quantum (q @ [v]) @ out) (b64_scan (si + 1) [] cs)
          else b64_scan (si + 1) (q @ [v]) cs
      | None \<Rightarrow>
          if is_newline c then b64_scan (si + 1) q cs
          else if c \<noteq> CHR ''='' \<or> length q < 2 then Inl (corrupt_input si)
          else b64_padding (si + 1) q cs)"

definition b64_DecodeString :: "string \<Rightarrow> go_error + bytes" where
  "b64_DecodeString s = b64_scan 0 [] s"

text \<open>The reference encoder: \<^verbatim>\<open>StdEncoding.EncodeToString\<close>.\<close>

fun b64_EncodeToString :: "bytes \<Rightarrow> string" where
  "b64_EncodeToString [] = []"
| "b64_EncodeToString [a] =
     [b64_char (of_char a div 4), b64_char (of_char a mod 4 * 16), CHR ''='', CHR ''='']"
| "b64_EncodeToString [a, b] =
     [b64_char (of_char a div 4), b64_char (of_char a mod 4 * 16 + of_char b div 16),
      b64_char (of_char b mod 16 * 4), CHR ''='']"
| "b64_EncodeToString (a # b # c # rest) =
     [b64_char (of_char a div 4), b64_char (of_char a mod 4 * 16 + of_char b div 16),
      b64_char (of_char b mod 16 * 4 + of_char c div 64), b64_char (of_char c mod 64)] @
     b64_EncodeToString rest"

lemma b64_val_char [simp]: "n < 64 \<Longrightarrow> b64_val (b64_char n) = Some n"
proof -
  have "list_all (\<lambda>n. b64_val (b64_char n) = Some n) [0..<64]" by code_simp
  then show "n < 64 \<Longrightarrow> ?thesis" by (simp add: list_all_iff)
qed

lemma b64_val_pad [simp]: "b64_val CHR ''='' = None"
  by code_simp

lemma of_char_lt: "(of_char c :: nat) < 256"
  by simp

lemma byte_digits:
  fixes c :: char
  shows "of_char c div 16 div 16 = (0 :: nat)" "of_char c div 64 div 4 = (0 :: nat)"
    "of_char c div 16 mod 16 = (of_char c div 16 :: nat)" "of_char c div 64 mod 4 = (of_char c div 64 :: nat)"
  using of_char_lt [of c] by (simp_all add: less_mult_imp_div_less flip: div_mult2_eq)

lemma b64_sextets:
  fixes a b c :: char
  shows "of_char a div 4 < (64 :: nat)" "of_char a mod 4 * 16 < (64 :: nat)" "of_char b mod 16 * 4 < (64 :: nat)"
    "of_char a mod 4 * 16 + of_char b div 16 < (64 :: nat)"
    "of_char b mod 16 * 4 + of_char c div 64 < (64 :: nat)" "of_char c mod 64 < (64 :: nat)"
proof -
  have b: "(of_char b :: nat) < 256" and c: "(of_char c :: nat) < 256" by (rule of_char_lt)+
  have "of_char b div 16 < (16 :: nat)" "of_char c div 64 < (4 :: nat)" using b c by (simp_all add: less_mult_imp_div_less)
  moreover have "of_char a mod 4 < (4 :: nat)" "of_char b mod 16 < (16 :: nat)" by simp_all
  ultimately show "of_char a mod 4 * 16 + of_char b div 16 < (64 :: nat)"
    "of_char b mod 16 * 4 + of_char c div 64 < (64 :: nat)"
    "of_char a mod 4 * 16 < (64 :: nat)" "of_char b mod 16 * 4 < (64 :: nat)" by linarith+
  show "of_char a div 4 < (64 :: nat)" using of_char_lt [of a] by (simp add: less_mult_imp_div_less)
  show "of_char c mod 64 < (64 :: nat)" by simp
qed

lemma b64_scan_encode: "b64_scan si [] (b64_EncodeToString bs) = Inr bs"
  by (induction bs arbitrary: si rule: b64_EncodeToString.induct)
    (simp_all add: b64_sextets byte_digits b64_padding_def b64_finish_def is_newline_def)

lemma b64_roundtrip: "b64_DecodeString (b64_EncodeToString bs) = Inr bs"
  by (simp add: b64_DecodeString_def b64_scan_encode)

section \<open>Quoting\<close>

text \<open>
  \<^verbatim>\<open>utf8.DecodeRuneInString\<close>: the first character and the number of its bytes; bytes that are no
  UTF-8 give the replacement character and the length one.
\<close>

definition RuneError :: nat where "RuneError = 0xFFFD"

definition continues :: "nat \<Rightarrow> bool" where
  "continues b \<longleftrightarrow> 0x80 \<le> b \<and> b \<le> 0xBF"

definition DecodeRune :: "bytes \<Rightarrow> nat \<times> nat" where
  "DecodeRune s =
     (case map of_char s of
        [] \<Rightarrow> (RuneError, 0)
      | a # bs \<Rightarrow>
          if a < 0x80 then (a, 1)
          else if 0xC2 \<le> a \<and> a \<le> 0xDF then
            (case bs of
               b # _ \<Rightarrow> if continues b then ((a - 0xC0) * 64 + (b - 0x80), 2) else (RuneError, 1)
             | _ \<Rightarrow> (RuneError, 1))
          else if 0xE0 \<le> a \<and> a \<le> 0xEF then
            (case bs of
               b # c # _ \<Rightarrow>
                 if continues b \<and> (a = 0xE0 \<longrightarrow> 0xA0 \<le> b) \<and> (a = 0xED \<longrightarrow> b \<le> 0x9F) \<and> continues c
                 then ((a - 0xE0) * 4096 + (b - 0x80) * 64 + (c - 0x80), 3) else (RuneError, 1)
             | _ \<Rightarrow> (RuneError, 1))
          else if 0xF0 \<le> a \<and> a \<le> 0xF4 then
            (case bs of
               b # c # d # _ \<Rightarrow>
                 if continues b \<and> (a = 0xF0 \<longrightarrow> 0x90 \<le> b) \<and> (a = 0xF4 \<longrightarrow> b \<le> 0x8F) \<and> continues c \<and> continues d
                 then ((a - 0xF0) * 262144 + (b - 0x80) * 4096 + (c - 0x80) * 64 + (d - 0x80), 4)
                 else (RuneError, 1)
             | _ \<Rightarrow> (RuneError, 1))
          else (RuneError, 1))"

definition hex_digit :: "nat \<Rightarrow> char" where
  "hex_digit n = ''0123456789abcdef'' ! (n mod 16)"

text \<open>The lowest \<open>k\<close> hexadecimal digits.\<close>

fun hex_digits :: "nat \<Rightarrow> nat \<Rightarrow> string" where
  "hex_digits 0 n = []"
| "hex_digits (Suc k) n = hex_digits k (n div 16) @ [hex_digit n]"

text \<open>\<^verbatim>\<open>strconv.IsPrint\<close>; \<open>pt\<close> is its table of the characters beyond Latin-1.\<close>

definition IsPrint :: "(nat \<Rightarrow> bool) \<Rightarrow> nat \<Rightarrow> bool" where
  "IsPrint pt r \<longleftrightarrow>
     (if r \<le> 0xFF then 0x20 \<le> r \<and> r < 0x7F \<or> 0xA1 \<le> r \<and> r \<noteq> 0xAD else pt r)"

text \<open>\<open>enc\<close> are the bytes of the character \<open>r\<close>.\<close>

definition escape_rune :: "(nat \<Rightarrow> bool) \<Rightarrow> nat \<Rightarrow> bytes \<Rightarrow> string" where
  "escape_rune pt r enc =
     (if r = 0x22 \<or> r = 0x5C then CHR 0x5C # enc
      else if IsPrint pt r then enc
      else case map_of [(7, CHR ''a''), (8, CHR ''b''), (12, CHR ''f''), (10, CHR ''n''), (13, CHR ''r''),
                        (9, CHR ''t''), (11, CHR ''v'')] r of
        Some c \<Rightarrow> [CHR 0x5C, c]
      | None \<Rightarrow>
          if r < 0x20 \<or> r = 0x7F then CHR 0x5C # CHR ''x'' # hex_digits 2 r
          else if r < 0x10000 then CHR 0x5C # CHR ''u'' # hex_digits 4 r
          else CHR 0x5C # CHR ''U'' # hex_digits 8 r)"

function quote_body :: "(nat \<Rightarrow> bool) \<Rightarrow> bytes \<Rightarrow> string" where
  "quote_body pt [] = []"
| "quote_body pt (c # cs) =
     (case DecodeRune (c # cs) of (r, n) \<Rightarrow>
        if n = 1 \<and> r = RuneError then CHR 0x5C # CHR ''x'' # hex_digits 2 (of_char c) @ quote_body pt cs
        else escape_rune pt r (take n (c # cs)) @ quote_body pt (drop (n - 1) cs))"
  by pat_completeness auto

termination quote_body
  by (relation "measure (length \<circ> snd)") auto

definition Quote :: "(nat \<Rightarrow> bool) \<Rightarrow> string \<Rightarrow> string" where
  "Quote pt s = CHR 0x22 # quote_body pt s @ [CHR 0x22]"

text \<open>A byte that may stand in the value of a header.\<close>

definition field_byte :: "char \<Rightarrow> bool" where
  "field_byte c \<longleftrightarrow> 0x20 \<le> (of_char c :: nat) \<and> (of_char c :: nat) \<noteq> 0x7F"

lemma DecodeRune_long:
  "continues b \<Longrightarrow> 0xC2 \<le> a \<Longrightarrow> 0x80 \<le> (a - 0xC0) * 64 + (b - 0x80 :: nat)"
  "(a = 0xE0 \<longrightarrow> 0xA0 \<le> b) \<Longrightarrow> 0xE0 \<le> a \<Longrightarrow> 0x80 \<le> (a - 0xE0) * 4096 + (b - 0x80) * 64 + (c - 0x80 :: nat)"
  "(a = 0xF0 \<longrightarrow> 0x90 \<le> b) \<Longrightarrow> 0xF0 \<le> a \<Longrightarrow>
     0x80 \<le> (a - 0xF0) * 262144 + (b - 0x80) * 4096 + (c - 0x80) * 64 + (d - 0x80 :: nat)"
proof -
  show "continues b \<Longrightarrow> 0xC2 \<le> a \<Longrightarrow> 0x80 \<le> (a - 0xC0) * 64 + (b - 0x80 :: nat)"
    unfolding continues_def by presburger
  show "0x80 \<le> (a - 0xE0) * 4096 + (b - 0x80) * 64 + (c - 0x80 :: nat)" if "a = 0xE0 \<longrightarrow> 0xA0 \<le> b" "0xE0 \<le> a"
    using that by (cases "a = 0xE0") auto
  show "0x80 \<le> (a - 0xF0) * 262144 + (b - 0x80) * 4096 + (c - 0x80) * 64 + (d - 0x80 :: nat)"
    if "a = 0xF0 \<longrightarrow> 0x90 \<le> b" "0xF0 \<le> a"
    using that by (cases "a = 0xF0") auto
qed

lemma DecodeRune_bytes:
  assumes "DecodeRune s = (r, n)" "\<not> (n = 1 \<and> r = RuneError)"
  shows "r < 0x80 \<and> take n s = [char_of r] \<or> 0x80 \<le> r \<and> list_all (\<lambda>c. 0x80 \<le> (of_char c :: nat)) (take n s)"
proof (cases s)
  case Nil
  with assms show ?thesis by (simp add: DecodeRune_def RuneError_def)
next
  case (Cons c cs)
  define a where "a = (of_char c :: nat)"
  consider "a < 0x80" | "0xC2 \<le> a \<and> a \<le> 0xDF" | "0xE0 \<le> a \<and> a \<le> 0xEF" | "0xF0 \<le> a \<and> a \<le> 0xF4"
    using assms Cons by (fastforce simp: DecodeRune_def a_def split: if_splits)
  then show ?thesis
  proof cases
    case 1
    with assms Cons show ?thesis by (auto simp: DecodeRune_def a_def)
  next
    case 2
    with assms Cons obtain b bs where "cs = b # bs" "continues (of_char b)"
      "r = (a - 0xC0) * 64 + (of_char b - 0x80)" "n = 2"
      by (auto simp: DecodeRune_def a_def split: list.splits if_splits)
    with 2 Cons DecodeRune_long(1) [of "of_char b" a] show ?thesis by (simp add: continues_def a_def)
  next
    case 3
    with assms Cons obtain b d bs where "cs = b # d # bs" "continues (of_char b)" "a = 0xE0 \<longrightarrow> 0xA0 \<le> (of_char b :: nat)"
      "continues (of_char d)" "r = (a - 0xE0) * 4096 + (of_char b - 0x80) * 64 + (of_char d - 0x80)" "n = 3"
      by (auto simp: DecodeRune_def a_def split: list.splits if_splits)
    with 3 Cons DecodeRune_long(2) [of a "of_char b" "of_char d"] show ?thesis by (simp add: continues_def a_def)
  next
    case 4
    with assms Cons obtain b d e bs where "cs = b # d # e # bs" "continues (of_char b)"
      "a = 0xF0 \<longrightarrow> 0x90 \<le> (of_char b :: nat)" "continues (of_char d)" "continues (of_char e)"
      "r = (a - 0xF0) * 262144 + (of_char b - 0x80) * 4096 + (of_char d - 0x80) * 64 + (of_char e - 0x80)" "n = 4"
      by (auto simp: DecodeRune_def a_def split: list.splits if_splits)
    with 4 Cons DecodeRune_long(3) [of a "of_char b" "of_char d" "of_char e"] show ?thesis
      by (simp add: continues_def a_def)
  qed
qed

lemma field_byte_hex: "field_byte (hex_digit n)"
proof -
  have "list_all (\<lambda>n. field_byte (''0123456789abcdef'' ! n)) [0..<16]" by code_simp
  then show ?thesis by (simp add: hex_digit_def list_all_iff)
qed

lemma field_bytes_hex: "list_all field_byte (hex_digits k n)"
  by (induction k n rule: hex_digits.induct) (simp_all add: field_byte_hex)

lemma field_bytes_escape:
  assumes "r < 0x80 \<and> enc = [char_of r] \<or> 0x80 \<le> r \<and> list_all (\<lambda>c. 0x80 \<le> (of_char c :: nat)) enc"
  shows "list_all field_byte (escape_rune pt r enc)"
proof -
  have "list_all field_byte enc" if "IsPrint pt r \<or> r = 0x22 \<or> r = 0x5C"
    using assms that by (fastforce simp: IsPrint_def field_byte_def list_all_iff)
  moreover have "field_byte CHR 0x5C" by (simp add: field_byte_def)
  moreover have "list_all field_byte (''a'' @ ''b'' @ ''f'' @ ''n'' @ ''r'' @ ''t'' @ ''v'' @ ''x'' @ ''u'' @ ''U'')"
    by (simp add: field_byte_def)
  ultimately show ?thesis
    by (auto simp: escape_rune_def field_bytes_hex split: option.splits if_splits)
qed

text \<open>A quoted string has no control characters, whatever the string has.\<close>

lemma field_bytes_Quote: "list_all field_byte (Quote pt s)"
proof -
  have x: "field_byte CHR 0x5C" "field_byte CHR ''x''" "field_byte CHR 0x22" by (simp_all add: field_byte_def)
  have "list_all field_byte (quote_body pt s)"
  proof (induction pt s rule: quote_body.induct)
    case (2 pt c cs)
    obtain r n where d: "DecodeRune (c # cs) = (r, n)" by force
    show ?case
    proof (cases "n = 1 \<and> r = RuneError")
      case True
      with 2(1) [OF d [symmetric]] show ?thesis by (simp add: d x field_bytes_hex)
    next
      case False
      with 2(2) [OF d [symmetric]] field_bytes_escape [OF DecodeRune_bytes [OF d False]] show ?thesis
        by (simp add: d) (metis One_nat_def)
    qed
  qed simp
  then show ?thesis by (simp add: Quote_def x)
qed

text \<open>Printable ASCII without quotes and backslashes is only put between quotes.\<close>

definition plain_byte :: "char \<Rightarrow> bool" where
  "plain_byte c \<longleftrightarrow> 0x20 \<le> (of_char c :: nat) \<and> (of_char c :: nat) < 0x7F \<and> c \<noteq> CHR 0x22 \<and> c \<noteq> CHR 0x5C"

lemma Quote_plain: "list_all plain_byte s \<Longrightarrow> Quote pt s = CHR 0x22 # s @ [CHR 0x22]"
proof -
  assume "list_all plain_byte s"
  then have "quote_body pt s = s"
  proof (induction s)
    case (Cons c cs)
    then have c: "0x20 \<le> (of_char c :: nat)" "(of_char c :: nat) < 0x7F" "c \<noteq> CHR 0x22" "c \<noteq> CHR 0x5C"
      by (simp_all add: plain_byte_def)
    have "(of_char c :: nat) \<noteq> of_char CHR 0x22" "(of_char c :: nat) \<noteq> of_char CHR 0x5C"
      using c(3,4) by (simp_all only: of_char_eq_iff not_False_eq_True)
    then have "(of_char c :: nat) \<noteq> 0x22" "(of_char c :: nat) \<noteq> 0x5C" by simp_all
    moreover have "DecodeRune (c # cs) = (of_char c, 1)" using c by (simp add: DecodeRune_def)
    ultimately show ?case using Cons c by (simp add: escape_rune_def IsPrint_def RuneError_def)
  qed simp
  then show ?thesis by (simp add: Quote_def)
qed

end
