(* ===== verification/OpenAPI_Spec.thy ===== *)
theory OpenAPI_Spec
  imports Gateway_Config Go_Encoding
begin

text \<open>
  The OpenAPI documents that the gateway's tool writes and reads (\<^verbatim>\<open>internal/openapi/spec.go\<close>).  A pointer that
  may be nil is an option, a map an association list, and an absent list is empty.  The extensions
  under \<^verbatim>\<open>x-aastro\<close> hold what the standard has no place for.
\<close>

section \<open>The standard part\<close>

record Info =
  in_Title :: string
  in_Description :: string
  in_Version :: string

text \<open>A server is its \<^verbatim>\<open>url\<close> and a tag its name.\<close>

type_synonym oa_Server = string
type_synonym oa_Tag = string

datatype Schema = Schema
  (sc_Ref: string) (sc_Type: string) (sc_Description: string) (sc_Enum: "string list")
  (sc_Items: "Schema option") (sc_Properties: "(string \<times> Schema) list")

record Parameter =
  pa_Name :: string
  pa_In :: string
  pa_Description :: string
  pa_Required :: bool
  pa_Schema :: "Schema option"

record MediaType =
  mt_Schema :: "Schema option"

record RequestBody =
  rb_Description :: string
  rb_Required :: bool
  rb_Content :: "(string, MediaType) gomap"

record oa_Header =
  oh_Description :: string
  oh_Schema :: "Schema option"

record oa_Response =
  or_Description :: string
  or_Headers :: "(string, oa_Header) gomap"
  or_Content :: "(string, MediaType) gomap"

record SecurityScheme =
  ss_Type :: string
  ss_Scheme :: string
  ss_BearerFormat :: string
  ss_Description :: string

record Components =
  co_Schemas :: "(string, Schema) gomap"
  co_SecuritySchemes :: "(string, SecurityScheme) gomap"

section \<open>The extensions\<close>

record RootExtension =
  rx_Schema :: string
  rx_Generator :: string

record OnConflictExtension =
  ox_Policy :: string
  ox_PreferUpstream :: string

record AggregationExtension =
  ax_Strategy :: string
  ax_BestEffort :: bool
  ax_OnConflict :: "OnConflictExtension option"

record RetryExtension =
  rex_MaxRetries :: int
  rex_RetryOnStatuses :: "int list"
  rex_BackoffDelay :: string

record CircuitBreakerExtension =
  cx_Enabled :: bool
  cx_MaxFailures :: int
  cx_ResetTimeout :: string

record PolicyExtension =
  px_HeaderBlacklist :: "string list"
  px_RequireBody :: bool
  px_MaxResponseBodySize :: int
  px_FollowRedirects :: bool
  px_Retry :: "RetryExtension option"
  px_CircuitBreaker :: "CircuitBreakerExtension option"
  px_LoadBalancing :: string

record TransportExtension =
  tx_MaxIdleConns :: int
  tx_MaxIdleConnsPerHost :: int
  tx_IdleConnTimeout :: string

record UpstreamExtension =
  ux_Name :: string
  ux_Hosts :: "string list"
  ux_Path :: string
  ux_Method :: string
  ux_Timeout :: string
  ux_ForwardHeaders :: "string list"
  ux_ForwardQueries :: "string list"
  ux_ForwardParams :: "string list"
  ux_TLSEnabled :: bool
  ux_Policy :: "PolicyExtension option"
  ux_Transport :: "TransportExtension option"

record FlowExtension =
  fx_Streaming :: bool
  fx_Aggregation :: "AggregationExtension option"
  fx_Upstreams :: "UpstreamExtension list"
  fx_Middlewares :: "string list"
  fx_Plugins :: "string list"

section \<open>Operations and the document\<close>

record Operation =
  op_Tags :: "string list"
  op_Summary :: string
  op_Description :: string
  op_OperationID :: string
  op_Parameters :: "Parameter list"
  op_RequestBody :: "RequestBody option"
  op_Security :: "(string, string list) gomap list"
  op_Responses :: "(string, oa_Response option) gomap"
  op_XAastro :: "FlowExtension option"

record PathItem =
  it_Get :: "Operation option"
  it_Put :: "Operation option"
  it_Post :: "Operation option"
  it_Delete :: "Operation option"
  it_Options :: "Operation option"
  it_Head :: "Operation option"
  it_Patch :: "Operation option"
  it_XAastroQuery :: "Operation option"

record Document =
  doc_OpenAPI :: string
  doc_Info :: Info
  doc_Servers :: "oa_Server list"
  doc_Tags :: "oa_Tag list"
  doc_Paths :: "(string, PathItem option) gomap"
  doc_Components :: "Components option"
  doc_XAastro :: "RootExtension option"

record oa_Warning =
  wa_Flow :: string
  wa_Message :: string

section \<open>Zero values\<close>

definition zero_transport :: TransportConfig where
  "zero_transport = \<lparr>trn_MaxIdleConns = 0, trn_MaxIdleConnsPerHost = 0, trn_IdleConnTimeout = 0, trn_HTTP2 = []\<rparr>"

definition zero_retry :: RetryConfig where
  "zero_retry = \<lparr>rtc_MaxRetries = 0, rtc_RetryOnStatuses = [], rtc_BackoffDelay = 0\<rparr>"

definition zero_breaker :: CircuitBreakerConfig where
  "zero_breaker = \<lparr>cbc_Enabled = False, cbc_MaxFailures = 0, cbc_ResetTimeout = 0\<rparr>"

definition zero_policy :: PolicyConfig where
  "zero_policy = \<lparr>pol_HeaderBlacklist = [], pol_RequireBody = False, pol_MaxResponseBodySize = 0,
     pol_FollowRedirects = False, pol_RetryConfig = zero_retry, pol_CircuitBreakerConfig = zero_breaker,
     pol_LoadBalancingMode = []\<rparr>"

definition zero_tls :: TLSConfig where
  "zero_tls = \<lparr>tls_Enabled = False, tls_CertFile = [], tls_KeyFile = [], tls_CAFile = [], tls_ServerName = [],
     tls_InsecureSkipVerify = False, tls_MinVersion = []\<rparr>"

definition zero_upstream :: UpstreamConfig where
  "zero_upstream = \<lparr>upc_Name = [], upc_Hosts = [], upc_Path = [], upc_Method = [], upc_Timeout = 0,
     upc_ForwardHeaders = [], upc_ForwardQueries = [], upc_ForwardParams = [], upc_Policy = zero_policy,
     upc_Transport = zero_transport, upc_TLS = zero_tls\<rparr>"

definition zero_flow :: FlowConfig where
  "zero_flow = \<lparr>flc_Path = [], flc_Method = [], flc_Streaming = False, flc_Aggregation = None, flc_Upstreams = [],
     flc_Plugins = [], flc_Middlewares = []\<rparr>"

definition zero_otlp :: OTLPConfig where
  "zero_otlp = \<lparr>otlp_Endpoint = [], otlp_Insecure = False, otlp_Interval = 0\<rparr>"

definition zero_config :: Config where
  "zero_config = \<lparr>cfg_Schema = [], cfg_Debug = False, cfg_ServiceName = [],
     cfg_Server = \<lparr>srv_Port = 0, srv_Timeout = 0, srv_HeaderTimeout = 0, srv_HTTP2 = [],
       srv_TLS = \<lparr>stls_Enabled = False, stls_CertFile = [], stls_KeyFile = [], stls_MinVersion = [],
         stls_ClientAuth = [], stls_ClientCAFile = []\<rparr>\<rparr>,
     cfg_Admin = \<lparr>adm_Port = 0, adm_BindAddr = [], adm_Timeout = 0, adm_HeaderTimeout = 0, adm_EnablePprof = False\<rparr>,
     cfg_Tracing = \<lparr>trc_Enabled = False, trc_Exporter = [], trc_SamplingRatio = 0, trc_OTLP = zero_otlp\<rparr>,
     cfg_Metrics = \<lparr>met_Enabled = False, met_Exporter = [], met_OTLP = zero_otlp\<rparr>,
     cfg_Routing = \<lparr>rou_RateLimiter = \<lparr>rlc_Enabled = False, rlc_Config = None\<rparr>, rou_TrustedProxies = [], rou_Flows = []\<rparr>\<rparr>"

definition zero_operation :: Operation where
  "zero_operation = \<lparr>op_Tags = [], op_Summary = [], op_Description = [], op_OperationID = [], op_Parameters = [],
     op_RequestBody = None, op_Security = [], op_Responses = [], op_XAastro = None\<rparr>"

definition zero_item :: PathItem where
  "zero_item = \<lparr>it_Get = None, it_Put = None, it_Post = None, it_Delete = None, it_Options = None, it_Head = None,
     it_Patch = None, it_XAastroQuery = None\<rparr>"

section \<open>Slots\<close>

text \<open>The field of a path item for a method: the eight that the exporter and the importer know.\<close>

definition methodQuery :: string where "methodQuery = ''QUERY''"

definition methodSlots :: "(string \<times> (PathItem \<Rightarrow> Operation option)) list" where
  "methodSlots = [(''GET'', it_Get), (''PUT'', it_Put), (''POST'', it_Post), (''DELETE'', it_Delete),
     (''OPTIONS'', it_Options), (''HEAD'', it_Head), (''PATCH'', it_Patch)]"

definition put_slot :: "string \<Rightarrow> Operation \<Rightarrow> PathItem \<Rightarrow> PathItem" where
  "put_slot method op item =
     (if method = ''GET'' then item\<lparr>it_Get := Some op\<rparr>
      else if method = ''PUT'' then item\<lparr>it_Put := Some op\<rparr>
      else if method = ''POST'' then item\<lparr>it_Post := Some op\<rparr>
      else if method = ''DELETE'' then item\<lparr>it_Delete := Some op\<rparr>
      else if method = ''OPTIONS'' then item\<lparr>it_Options := Some op\<rparr>
      else if method = ''HEAD'' then item\<lparr>it_Head := Some op\<rparr>
      else if method = ''PATCH'' then item\<lparr>it_Patch := Some op\<rparr>
      else if method = methodQuery then item\<lparr>it_XAastroQuery := Some op\<rparr>
      else item)"

section \<open>Third-party functions\<close>

text \<open>
  \<open>oe_lower\<close> is the table behind \<^verbatim>\<open>unicode.ToLower\<close> beyond ASCII, \<open>oe_print\<close> the one behind \<^verbatim>\<open>%q\<close>,
  and \<open>oe_Set\<close> the package that fills in the defaults of an upstream.
\<close>

record openapi_env =
  oe_lower :: "nat \<Rightarrow> nat"
  oe_print :: "nat \<Rightarrow> bool"
  oe_Set :: "UpstreamConfig \<Rightarrow> UpstreamConfig"

definition DefaultUpstreamConfig :: "openapi_env \<Rightarrow> UpstreamConfig" where
  "DefaultUpstreamConfig env = oe_Set env zero_upstream"

definition default_transport :: "openapi_env \<Rightarrow> TransportConfig" where
  "default_transport env = upc_Transport (DefaultUpstreamConfig env)"

section \<open>Names of operations\<close>

definition EncodeRune :: "nat \<Rightarrow> bytes" where
  "EncodeRune r =
     (let u = (if 0x10FFFF < r \<or> 0xD800 \<le> r \<and> r \<le> 0xDFFF then RuneError else r); byte = (\<lambda>n. char_of (n :: nat));
          tail = (\<lambda>n. byte (0x80 + n mod 64))
      in
      if u < 0x80 then [byte u]
      else if u < 0x800 then [byte (0xC0 + u div 64), tail u]
      else if u < 0x10000 then [byte (0xE0 + u div 4096), tail (u div 64), tail u]
      else [byte (0xF0 + u div 262144), tail (u div 4096), tail (u div 64), tail u])"

definition unicode_ToLower :: "openapi_env \<Rightarrow> nat \<Rightarrow> nat" where
  "unicode_ToLower env r = (if r < 0x80 then of_char (to_lower (char_of r)) else oe_lower env r)"

text \<open>
  \<^verbatim>\<open>strings.ToLower\<close>, a rune at a time: a byte that starts no rune comes out as \<open>RuneError\<close>.
\<close>

function ToLower :: "openapi_env \<Rightarrow> string \<Rightarrow> string" where
  "ToLower env [] = []"
| "ToLower env (c # cs) =
     (case DecodeRune (c # cs) of (r, n) \<Rightarrow> EncodeRune (unicode_ToLower env r) @ ToLower env (drop (n - 1) cs))"
  by pat_completeness auto

termination ToLower
  by (relation "measure (length \<circ> snd)") auto

text \<open>A character at a time: a letter or digit stays, any other becomes an underscore.\<close>

function sanitizeID :: "string \<Rightarrow> string" where
  "sanitizeID [] = []"
| "sanitizeID (c # cs) =
     (case DecodeRune (c # cs) of (r, n) \<Rightarrow>
        (if 97 \<le> r \<and> r \<le> 122 \<or> 48 \<le> r \<and> r \<le> 57 then char_of r else CHR ''_'') # sanitizeID (drop (n - 1) cs))"
  by pat_completeness auto

termination sanitizeID
  by (relation "measure length") auto

definition operationID :: "openapi_env \<Rightarrow> string \<Rightarrow> string \<Rightarrow> string" where
  "operationID env method path =
     ToLower env method @
     concat (map (\<lambda>seg. CHR ''_'' # sanitizeID (ToLower env (filter (\<lambda>c. c \<noteq> CHR ''{'' \<and> c \<noteq> CHR ''}'') seg)))
       (filter (\<lambda>seg. seg \<noteq> []) (Split path CHR ''/'')))"

lemma EncodeRune_ne [simp]: "EncodeRune r \<noteq> []"
  by (simp add: EncodeRune_def Let_def)

lemma ToLower_empty [simp]: "ToLower env s = [] \<longleftrightarrow> s = []"
  by (cases s) (auto split: prod.splits)

lemma ToLower_ascii: "list_all (\<lambda>c. of_char c < (0x80 :: nat)) s \<Longrightarrow> ToLower env s = map to_lower s"
proof (induction s)
  case (Cons c cs)
  have d: "DecodeRune (c # cs) = (of_char c, 1)" using Cons.prems by (simp add: DecodeRune_def)
  have "of_char (to_lower c) < (0x80 :: nat)" using Cons.prems by (auto simp: to_lower_def is_upper_def of_char_of)
  then have "EncodeRune (unicode_ToLower env (of_char c)) = [to_lower c]"
    using Cons.prems by (simp add: unicode_ToLower_def EncodeRune_def Let_def)
  with Cons show ?case by (simp add: d)
qed simp

lemma sanitizeID_empty [simp]: "sanitizeID s = [] \<longleftrightarrow> s = []"
  by (cases s) (auto split: prod.splits)

text \<open>A sanitized name has letters, digits and underscores only.\<close>

definition id_char :: "char \<Rightarrow> bool" where
  "id_char c \<longleftrightarrow> is_lower c \<or> is_digit c \<or> c = CHR ''_''"

lemma sanitizeID_chars: "list_all id_char (sanitizeID s)"
proof (induction s rule: sanitizeID.induct)
  case (2 c cs)
  obtain r n where d: "DecodeRune (c # cs) = (r, n)" by force
  have "id_char (if 97 \<le> r \<and> r \<le> 122 \<or> 48 \<le> r \<and> r \<le> 57 then char_of r else CHR ''_'')"
    by (auto simp: id_char_def is_lower_def is_digit_def)
  with 2 [OF d [symmetric]] show ?case by (simp add: d del: if_split_asm)
qed simp

end
