(* ===== verification/OpenAPI_Export.thy ===== *)
theory OpenAPI_Export
  imports OpenAPI_Spec
begin

text \<open>
  The export of a gateway configuration as an OpenAPI document (\<^verbatim>\<open>internal/openapi/export.go\<close>): one operation
  per flow with its parameters, the responses the gateway may give and, on request, an extension
  from which the import restores the flow.
\<close>

section \<open>Options and texts\<close>

record Options =
  eo_OASVersion :: string
  eo_Title :: string
  eo_APIVersion :: string
  eo_Servers :: "string list"
  eo_Extensions :: bool
  eo_GeneratorVersion :: string

definition Warning_String :: "oa_Warning \<Rightarrow> string" where
  "Warning_String w = wa_Flow w @ '': '' @ wa_Message w"

definition oasVersion31 :: string where "oasVersion31 = ''3.1.0''"
definition oasVersion30 :: string where "oasVersion30 = ''3.0.3''"
definition maxBodySizeNote :: string where "maxBodySizeNote = ''Request bodies larger than 5 MiB are rejected with 413.''"
definition schemaProblemDetails :: string where "schemaProblemDetails = ''#/components/schemas/ProblemDetails''"
definition securitySchemeBearer :: string where "securitySchemeBearer = ''bearerAuth''"
definition authMiddlewareName :: string where "authMiddlewareName = ''auth''"

text \<open>The longer texts of the file.\<close>

definition wildcardQueriesNote :: string where
  "wildcardQueriesNote =
     ''All query parameters are forwarded to at least one upstream (`forward_queries: '' @
     [CHR 0x22] @
     ''*'' @
     [CHR 0x22] @
     ''`).''"

definition wildcardHeadersNote :: string where
  "wildcardHeadersNote =
     ''All request headers are forwarded to at least one upstream (`forward_headers: '' @
     [CHR 0x22] @
     ''*'' @
     [CHR 0x22] @
     ''`).''"

definition streamingNote :: string where
  "streamingNote =
     ''Streaming flow: the upstream response is streamed to the client unbuffered (SSE-capable); '' @
     ''status and body are proxied as-is.''"

definition proxyNote :: string where
  "proxyNote =
     ''Proxy flow: the upstream's response (status, headers, body) is forwarded to the client '' @
     ''as-is. Only a gateway-side failure - the upstream is unavailable, returns a server error, '' @
     ''or fails gateway policy - is reported through the JSON error envelope instead.''"

definition propagationNote :: string where
  "propagationNote =
     ''Upstream status propagated verbatim. When every failing upstream returns the same client '' @
     ''error status (typically 401 or 403 from a shared auth layer), that status is forwarded '' @
     ''instead of 502.''"

definition aggregatedDescription :: string where
  "aggregatedDescription =
     ''Aggregated upstream data (`merge`/`array`/`namespace`), with no gateway wrapper.''"

definition partialDescription :: string where
  "partialDescription =
     ''Partial success: some upstreams failed (best-effort aggregation). The body is the data '' @
     ''from the upstreams that succeeded, in the same shape as 200; `X-Partial-Errors` carries '' @
     ''one value per failure.''"

definition conflictDescription :: string where
  "conflictDescription =
     ''Merge conflict: upstreams returned different values for the same field (`on_conflict: '' @
     ''error`).''"

definition forwardedDescription :: string where
  "forwardedDescription =
     ''Upstream response forwarded as-is: status, headers, and body are exactly what the '' @
     ''upstream returned. This also covers 3xx/4xx answers from the upstream - those are proxied '' @
     ''verbatim too, not translated into gateway errors.''"

definition streamedDescription :: string where
  "streamedDescription =
     ''Upstream response streamed as-is. The actual status code, headers, and body are those '' @
     ''returned by the upstream.''"

definition partialErrorsDescription :: string where
  "partialErrorsDescription =
     ''One value per failed upstream (a ClientError code, see the ClientError schema). Repeated '' @
     ''when more than one upstream failed.''"

definition problemDescription :: string where
  "problemDescription =
     ''RFC 9457 Problem Details (application/problem+json). Returned only when there is no '' @
     ''upstream data to report: every upstream failed, or the request was rejected before '' @
     ''reaching one.''"

definition problemTypeDescription :: string where
  "problemTypeDescription =
     ''Always '' @
     [CHR 0x22] @
     ''about:blank'' @
     [CHR 0x22] @
     '' (RFC 9457 '' @
     [CHR 0xC2, CHR 0xA7] @
     ''4.2's own default). Deliberately never a real URI - see `errors` for the machine-readable '' @
     ''cause instead.''"

definition problemErrorsDescription :: string where
  "problemErrorsDescription =
     ''Every distinct ClientError behind this response - always at least one. More than one only '' @
     ''for a multi-upstream failure where several upstreams failed differently.''"

definition resolveOASVersion :: "openapi_env \<Rightarrow> string \<Rightarrow> go_error + string" where
  "resolveOASVersion env v =
     (if v = [] \<or> v = ''3.1'' then Inr oasVersion31
      else if v = ''3.0'' then Inr oasVersion30
      else Inl (ErrMsg (''unsupported OpenAPI version '' @ Quote (oe_print env) v @ '' (want 3.0 or 3.1)'')))"

fun coalesce :: "string list \<Rightarrow> string" where
  "coalesce [] = []"
| "coalesce (v # vs) = (if v \<noteq> [] then v else coalesce vs)"

section \<open>Schemas and responses\<close>

definition type_schema :: "string \<Rightarrow> Schema" where
  "type_schema ty = Schema [] ty [] [] None []"

definition described_schema :: "string \<Rightarrow> string \<Rightarrow> Schema" where
  "described_schema ty desc = Schema [] ty desc [] None []"

definition ref_schema :: "string \<Rightarrow> Schema" where
  "ref_schema ref = Schema ref [] [] [] None []"

definition string_header :: "string \<Rightarrow> oa_Header" where
  "string_header desc = \<lparr>oh_Description = desc, oh_Schema = Some (type_schema ''string'')\<rparr>"

definition stdHeaders :: "(string, oa_Header) gomap" where
  "stdHeaders =
     [(''X-Request-ID'', string_header ''Request identifier, echoed from the request or generated (UUIDv7).''),
      (''X-Request-Fingerprint'',
       string_header ''Stable fingerprint of the request shape (method, route, header/query names).'')]"

definition partialHeaders :: "(string, oa_Header) gomap" where
  "partialHeaders = AList.update ''X-Partial-Errors'' (string_header partialErrorsDescription) stdHeaders"

definition problem_content :: "(string, MediaType) gomap" where
  "problem_content = [(''application/problem+json'', \<lparr>mt_Schema = Some (ref_schema schemaProblemDetails)\<rparr>)]"

definition problemResponse :: "string \<Rightarrow> oa_Response" where
  "problemResponse desc = \<lparr>or_Description = desc, or_Headers = stdHeaders, or_Content = problem_content\<rparr>"

definition opaque_content :: "string \<Rightarrow> (string, MediaType) gomap" where
  "opaque_content ty = [(ty, \<lparr>mt_Schema = None\<rparr>)]"

type_synonym responses = "(string, oa_Response option) gomap"

definition respond :: "string \<Rightarrow> oa_Response \<Rightarrow> responses \<Rightarrow> responses" where
  "respond code r rs = AList.update code (Some r) rs"

definition rate_limited_response :: "bool \<Rightarrow> responses \<Rightarrow> responses" where
  "rate_limited_response rateLimited rs =
     (if rateLimited then respond ''429'' (problemResponse ''Rate limit exceeded.'') rs else rs)"

definition aggregateResponses :: "FlowConfig \<Rightarrow> bool \<Rightarrow> responses" where
  "aggregateResponses f rateLimited =
     (let rs0 =
        [(''200'', Some \<lparr>or_Description = aggregatedDescription, or_Headers = stdHeaders,
                         or_Content = opaque_content ''application/json''\<rparr>),
         (''413'', Some (problemResponse ''Request body exceeds the gateway limit.'')),
         (''502'', Some (problemResponse ''Every upstream failed, was unavailable, or returned a malformed response.'')),
         (''500'', Some (problemResponse ''Internal gateway error.''))];
          rs1 = (case flc_Aggregation f of
             None \<Rightarrow> rs0
           | Some a \<Rightarrow>
               let rs = (if agc_BestEffort a \<and> length (flc_Upstreams f) > 1
                         then respond ''206'' \<lparr>or_Description = partialDescription, or_Headers = partialHeaders,
                                               or_Content = opaque_content ''application/json''\<rparr> rs0
                         else rs0)
               in if agc_Strategy a = ''merge'' \<and> (case agc_OnConflict a of None \<Rightarrow> False | Some oc \<Rightarrow> onc_Policy oc = ''error'')
                  then respond ''409'' (problemResponse conflictDescription) rs else rs)
      in respond ''default'' \<lparr>or_Description = propagationNote, or_Headers = stdHeaders, or_Content = problem_content\<rparr>
           (rate_limited_response rateLimited rs1))"

definition proxyResponses :: "bool \<Rightarrow> responses" where
  "proxyResponses rateLimited = rate_limited_response rateLimited
     [(''200'', Some \<lparr>or_Description = forwardedDescription, or_Headers = stdHeaders, or_Content = opaque_content ''*/*''\<rparr>),
      (''413'', Some (problemResponse ''Request body exceeds the gateway limit.'')),
      (''502'', Some (problemResponse ''Upstream unavailable, returned a server error, or failed gateway policy validation.'')),
      (''500'', Some (problemResponse ''Internal gateway error.''))]"

definition streamingResponses :: "bool \<Rightarrow> responses" where
  "streamingResponses rateLimited = rate_limited_response rateLimited
     [(''200'', Some \<lparr>or_Description = streamedDescription, or_Headers = stdHeaders, or_Content = opaque_content ''*/*''\<rparr>),
      (''502'', Some (problemResponse ''Upstream unavailable before the response started streaming.'')),
      (''500'', Some (problemResponse ''Internal gateway error.''))]"

definition unauthorizedResponse :: oa_Response where
  "unauthorizedResponse = \<lparr>or_Description = ''Missing, malformed, or invalid bearer token.'',
     or_Headers = [(''WWW-Authenticate'',
       string_header ''Bearer challenge with optional error/error_description (RFC 6750).'')],
     or_Content = problem_content\<rparr>"

definition problemSchemas :: "(string, Schema) gomap" where
  "problemSchemas =
     [(''ProblemDetails'', Schema [] ''object'' problemDescription [] None
        [(''type'', described_schema ''string'' problemTypeDescription),
         (''title'', described_schema ''string'' ''Short, human-readable summary of the highest-priority entry in `errors`.''),
         (''status'', described_schema ''integer'' ''HTTP status code, repeated here per RFC 9457.''),
         (''detail'', described_schema ''string'' ''Occurrence-specific explanation, when there is one.''),
         (''errors'', Schema [] ''array'' problemErrorsDescription []
            (Some (ref_schema ''#/components/schemas/ClientError'')) [])]),
      (''ClientError'', Schema [] ''string'' []
        [''RATE_LIMIT_EXCEEDED'', ''PAYLOAD_TOO_LARGE'', ''UPSTREAM_BODY_TOO_LARGE'', ''UPSTREAM_UNAVAILABLE'',
         ''UPSTREAM_ERROR'', ''UPSTREAM_CLIENT_ERROR'', ''UPSTREAM_REDIRECT'', ''UPSTREAM_MALFORMED'', ''INTERNAL'',
         ''ABORTED'', ''UNAUTHORIZED'', ''VALUE_CONFLICT''] None [])]"

section \<open>Parts of an operation\<close>

definition findAuthMiddleware :: "FlowConfig \<Rightarrow> PluginConfig option" where
  "findAuthMiddleware f = find (\<lambda>m. plc_Name m = authMiddlewareName \<and> plc_Source m = ''builtin'') (flc_Middlewares f)"

definition authNote :: "PluginConfig \<Rightarrow> string" where
  "authNote m =
     (let get = (\<lambda>k. case map_of (plc_Config m) k of Some (CfgString s) \<Rightarrow> s | _ \<Rightarrow> []);
          issuer = get ''issuer''; audience = get ''audience''
      in
      if issuer \<noteq> [] \<and> audience \<noteq> []
      then ''Requires a JWT issued by `'' @ issuer @ ''` for audience `'' @ audience @ ''`.''
      else if issuer \<noteq> [] then ''Requires a JWT issued by `'' @ issuer @ ''`.''
      else if audience \<noteq> [] then ''Requires a JWT for audience `'' @ audience @ ''`.''
      else [])"

definition upstreamNames :: "UpstreamConfig list \<Rightarrow> string" where
  "upstreamNames ups = Join (map upc_Name ups) '', ''"

definition summarize :: "FlowConfig \<Rightarrow> string" where
  "summarize f =
     (if flc_Streaming f then ''Proxy to '' @ upstreamNames (flc_Upstreams f) @ '' (streaming)''
      else if length (flc_Upstreams f) = 1 then ''Proxy to '' @ upstreamNames (flc_Upstreams f)
      else ''Aggregate '' @ upstreamNames (flc_Upstreams f) @ '' ('' @
             (case flc_Aggregation f of None \<Rightarrow> [] | Some a \<Rightarrow> agc_Strategy a) @ '')'')"

text \<open>The names one field of the upstreams forwards, without wildcards, each once and in order.\<close>

definition collectForwarded :: "UpstreamConfig list \<Rightarrow> (UpstreamConfig \<Rightarrow> string list) \<Rightarrow> string list" where
  "collectForwarded ups get =
     sort (remdups (filter (\<lambda>name. \<not> (name = ''*'' \<or> HasSuffix name ''*'')) (concat (map get ups))))"

definition string_parameter :: "string \<Rightarrow> bool \<Rightarrow> string \<Rightarrow> Parameter" where
  "string_parameter place required name = \<lparr>pa_Name = name, pa_In = place, pa_Description = [], pa_Required = required,
     pa_Schema = Some (type_schema ''string'')\<rparr>"

text \<open>The loop over the path keeps the first occurrence of a name.\<close>

fun first_occurrences :: "string list \<Rightarrow> string list \<Rightarrow> string list" where
  "first_occurrences seen_names [] = []"
| "first_occurrences seen_names (name # names) =
     (if name \<in> set seen_names then first_occurrences seen_names names
      else name # first_occurrences (name # seen_names) names)"

definition buildParameters :: "FlowConfig \<Rightarrow> Parameter list" where
  "buildParameters f =
     map (string_parameter ''path'' True) (first_occurrences [] (path_params (flc_Path f))) @
     map (string_parameter ''query'' False) (collectForwarded (flc_Upstreams f) upc_ForwardQueries) @
     map (string_parameter ''header'' False)
       (filter (\<lambda>h. canon h \<notin> {''Accept'', ''Content-Type'', ''Authorization''})
         (collectForwarded (flc_Upstreams f) upc_ForwardHeaders))"

definition descriptionNotes :: "FlowConfig \<Rightarrow> string list" where
  "descriptionNotes f =
     (let queries = concat (map upc_ForwardQueries (flc_Upstreams f));
          headers = concat (map upc_ForwardHeaders (flc_Upstreams f));
          headerPrefixes = filter (\<lambda>h. h \<noteq> ''*'' \<and> HasSuffix h ''*'') headers
      in (if ''*'' \<in> set queries then [wildcardQueriesNote] else []) @
         (if ''*'' \<in> set headers then [wildcardHeadersNote] else []) @
         (if headerPrefixes \<noteq> []
          then [''Headers matching prefix pattern(s) '' @ Join (sort headerPrefixes) '', '' @ '' are forwarded.''] else []))"

definition hasRequestBody :: "string \<Rightarrow> bool" where
  "hasRequestBody method \<longleftrightarrow> method \<in> {''POST'', ''PUT'', ''PATCH'', methodQuery}"

definition firstPathSegment :: "string \<Rightarrow> string" where
  "firstPathSegment path =
     (case find (\<lambda>seg. seg \<noteq> [] \<and> \<not> HasPrefix seg ''{'') (Split path CHR ''/'') of Some seg \<Rightarrow> seg | None \<Rightarrow> [])"

section \<open>The extension of a flow\<close>

definition transportExtension :: "openapi_env \<Rightarrow> TransportConfig \<Rightarrow> TransportExtension option" where
  "transportExtension env t =
     (if t = zero_transport \<or> t = default_transport env then None
      else Some \<lparr>tx_MaxIdleConns = trn_MaxIdleConns t, tx_MaxIdleConnsPerHost = trn_MaxIdleConnsPerHost t,
                 tx_IdleConnTimeout = Duration_String (trn_IdleConnTimeout t)\<rparr>)"

definition policyExtension :: "PolicyConfig \<Rightarrow> PolicyExtension option" where
  "policyExtension p =
     (if p = zero_policy then None
      else Some \<lparr>px_HeaderBlacklist = pol_HeaderBlacklist p, px_RequireBody = pol_RequireBody p,
        px_MaxResponseBodySize = pol_MaxResponseBodySize p, px_FollowRedirects = pol_FollowRedirects p,
        px_Retry =
          (let r = pol_RetryConfig p in
           if r = zero_retry then None
           else Some \<lparr>rex_MaxRetries = rtc_MaxRetries r, rex_RetryOnStatuses = rtc_RetryOnStatuses r,
                      rex_BackoffDelay = Duration_String (rtc_BackoffDelay r)\<rparr>),
        px_CircuitBreaker =
          (let b = pol_CircuitBreakerConfig p in
           if b = zero_breaker then None
           else Some \<lparr>cx_Enabled = cbc_Enabled b, cx_MaxFailures = cbc_MaxFailures b,
                      cx_ResetTimeout = Duration_String (cbc_ResetTimeout b)\<rparr>),
        px_LoadBalancing = pol_LoadBalancingMode p\<rparr>)"

definition upstream_extension :: "openapi_env \<Rightarrow> UpstreamConfig \<Rightarrow> UpstreamExtension" where
  "upstream_extension env u = \<lparr>ux_Name = upc_Name u, ux_Hosts = upc_Hosts u, ux_Path = upc_Path u,
     ux_Method = upc_Method u, ux_Timeout = Duration_String (upc_Timeout u), ux_ForwardHeaders = upc_ForwardHeaders u,
     ux_ForwardQueries = upc_ForwardQueries u, ux_ForwardParams = upc_ForwardParams u,
     ux_TLSEnabled = tls_Enabled (upc_TLS u), ux_Policy = policyExtension (upc_Policy u),
     ux_Transport = transportExtension env (upc_Transport u)\<rparr>"

definition aggregation_extension :: "AggregationConfig \<Rightarrow> AggregationExtension" where
  "aggregation_extension a = \<lparr>ax_Strategy = agc_Strategy a, ax_BestEffort = agc_BestEffort a,
     ax_OnConflict = map_option (\<lambda>oc. \<lparr>ox_Policy = onc_Policy oc, ox_PreferUpstream = onc_Upstream oc\<rparr>) (agc_OnConflict a)\<rparr>"

definition flowExtension :: "openapi_env \<Rightarrow> FlowConfig \<Rightarrow> FlowExtension" where
  "flowExtension env f = \<lparr>fx_Streaming = flc_Streaming f,
     fx_Aggregation = map_option aggregation_extension (flc_Aggregation f),
     fx_Upstreams = map (upstream_extension env) (flc_Upstreams f),
     fx_Middlewares = map plc_Name (flc_Middlewares f), fx_Plugins = map plc_Name (flc_Plugins f)\<rparr>"

section \<open>Operations\<close>

definition buildOperation :: "openapi_env \<Rightarrow> FlowConfig \<Rightarrow> PluginConfig option \<Rightarrow> bool \<Rightarrow> bool \<Rightarrow> Operation" where
  "buildOperation env f auth rateLimited extensions =
     (let note = (case auth of None \<Rightarrow> [] | Some m \<Rightarrow> authNote m);
          notes = descriptionNotes f @ (if note \<noteq> [] then [note] else []);
          (rs, notes) =
            (if flc_Streaming f then (streamingResponses rateLimited, notes @ [streamingNote])
             else if length (flc_Upstreams f) = 1 then (proxyResponses rateLimited, notes @ [proxyNote])
             else (aggregateResponses f rateLimited, notes))
      in \<lparr>op_Tags = [], op_Summary = summarize f, op_Description = Join notes [CHR 0x0A, CHR 0x0A],
          op_OperationID = operationID env (flc_Method f) (flc_Path f), op_Parameters = buildParameters f,
          op_RequestBody =
            (if hasRequestBody (flc_Method f)
             then Some \<lparr>rb_Description = maxBodySizeNote, rb_Required = False,
                        rb_Content = [(''application/json'', \<lparr>mt_Schema = Some (type_schema ''object'')\<rparr>)]\<rparr>
             else None),
          op_Security = (if auth \<noteq> None then [[(securitySchemeBearer, [])]] else []),
          op_Responses = (if auth \<noteq> None then respond ''401'' unauthorizedResponse rs else rs),
          op_XAastro = (if extensions then Some (flowExtension env f) else None)\<rparr>)"

definition attachOperation :: "openapi_env \<Rightarrow> PathItem \<Rightarrow> FlowConfig \<Rightarrow> Operation \<Rightarrow> PathItem \<times> oa_Warning list" where
  "attachOperation env item f op =
     (let flowID = flc_Method f @ '' '' @ flc_Path f;
          warn = (\<lambda>msg. [\<lparr>wa_Flow = flowID, wa_Message = msg\<rparr>])
      in
      if flc_Method f = methodQuery then
        if it_XAastroQuery item = None
        then (put_slot methodQuery op item, warn ''QUERY is not an OpenAPI 3.x method; emitted as x-aastro-query extension'')
        else (item, warn ''duplicate method+path, operation skipped'')
      else case map_of methodSlots (flc_Method f) of
        None \<Rightarrow> (item, warn (''unsupported method '' @ Quote (oe_print env) (flc_Method f) @ '', flow skipped''))
      | Some get \<Rightarrow>
          if get item \<noteq> None then (item, warn ''duplicate method+path, operation skipped'')
          else (put_slot (flc_Method f) op item, []))"

text \<open>The loop of \<^verbatim>\<open>FromConfig\<close>: the paths, the tags, whether a flow authenticates, the warnings.\<close>

record export_state =
  es_paths :: "(string, PathItem option) gomap"
  es_tags :: "string list"
  es_auth :: bool
  es_warnings :: "oa_Warning list"

definition export_flow :: "openapi_env \<Rightarrow> bool \<Rightarrow> bool \<Rightarrow> FlowConfig \<Rightarrow> export_state \<Rightarrow> export_state" where
  "export_flow env rateLimited extensions f s =
     (let auth = findAuthMiddleware f;
          op0 = buildOperation env f auth rateLimited extensions;
          tag = firstPathSegment (flc_Path f);
          op = (if tag \<noteq> [] then op0\<lparr>op_Tags := [tag]\<rparr> else op0);
          item = (case map_of (es_paths s) (flc_Path f) of Some (Some item) \<Rightarrow> item | _ \<Rightarrow> zero_item);
          (item', ws) = attachOperation env item f op
      in \<lparr>es_paths = AList.update (flc_Path f) (Some item') (es_paths s),
          es_tags = (if tag \<noteq> [] then tag # es_tags s else es_tags s),
          es_auth = (es_auth s \<or> auth \<noteq> None), es_warnings = es_warnings s @ ws\<rparr>)"

definition FromConfig :: "openapi_env \<Rightarrow> Config \<Rightarrow> Options \<Rightarrow> go_error + Document \<times> oa_Warning list" where
  "FromConfig env cfg opts =
     (case resolveOASVersion env (eo_OASVersion opts) of
        Inl err \<Rightarrow> Inl err
      | Inr version \<Rightarrow>
          let flows = rou_Flows (cfg_Routing cfg);
              s = fold (export_flow env (rlc_Enabled (rou_RateLimiter (cfg_Routing cfg))) (eo_Extensions opts)) flows
                    \<lparr>es_paths = [], es_tags = [], es_auth = False, es_warnings = []\<rparr>;
              needProblemSchemas = (length flows > 0)
          in Inr (\<lparr>doc_OpenAPI = version,
                   doc_Info = \<lparr>in_Title = coalesce [eo_Title opts, cfg_ServiceName cfg, ''aastro gateway''],
                     in_Description = ''Generated by aastroctl from the aastro gateway configuration.'',
                     in_Version = coalesce [eo_APIVersion opts, ''0.0.0'']\<rparr>,
                   doc_Servers = eo_Servers opts, doc_Tags = sort (remdups (es_tags s)), doc_Paths = es_paths s,
                   doc_Components =
                     (if needProblemSchemas \<or> es_auth s
                      then Some \<lparr>co_Schemas = (if needProblemSchemas then problemSchemas else []),
                        co_SecuritySchemes = (if es_auth s
                          then [(securitySchemeBearer, \<lparr>ss_Type = ''http'', ss_Scheme = ''bearer'', ss_BearerFormat = ''JWT'',
                                  ss_Description = ''JWT bearer token validated by the gateway auth middleware.''\<rparr>)]
                          else [])\<rparr>
                      else None),
                   doc_XAastro = Some \<lparr>rx_Schema = cfg_Schema cfg,
                     rx_Generator = ''aastroctl/'' @ coalesce [eo_GeneratorVersion opts, ''dev'']\<rparr>\<rparr>, es_warnings s))"

end
