(* ===== verification/OpenAPI_Import.thy ===== *)
theory OpenAPI_Import
  imports OpenAPI_Export
begin

text \<open>
  The import of an OpenAPI document as a gateway configuration (\<^verbatim>\<open>internal/openapi/import.go\<close>): operations with an
  extension are restored from it, others get a flow with one upstream.
\<close>

section \<open>Options\<close>

record ImportOptions =
  io_DefaultHost :: string
  io_Mode :: string
  io_ServerPort :: int
  io_AdminPort :: int

definition importModeProxy :: string where "importModeProxy = ''proxy''"
definition importModeStreaming :: string where "importModeStreaming = ''streaming''"
definition placeholderHost :: string where "placeholderHost = ''https://CHANGE-ME.internal''"
definition defaultServerPort :: int where "defaultServerPort = 7805"
definition defaultAdminPort :: int where "defaultAdminPort = 9090"
definition defaultRateLimit :: int where "defaultRateLimit = 100"
definition defaultRateWindow :: string where "defaultRateWindow = ''1s''"

definition resolveImportMode :: "openapi_env \<Rightarrow> string \<Rightarrow> go_error + string" where
  "resolveImportMode env mode =
     (if mode = [] \<or> mode = importModeProxy then Inr importModeProxy
      else if mode = importModeStreaming then Inr importModeStreaming
      else Inl (ErrMsg (''unsupported import mode '' @ Quote (oe_print env) mode @ '' (want proxy or streaming)'')))"

definition intOr :: "int \<Rightarrow> int \<Rightarrow> int" where
  "intOr v fallback = (if v > 0 then v else fallback)"

section \<open>Restoring a flow\<close>

definition warning :: "string \<Rightarrow> string \<Rightarrow> oa_Warning list" where
  "warning flowID msg = [\<lparr>wa_Flow = flowID, wa_Message = msg\<rparr>]"

text \<open>A function that takes a pointer to the warnings returns the ones it adds.\<close>

definition parseDurationOr ::
  "openapi_env \<Rightarrow> string \<Rightarrow> duration \<Rightarrow> string \<Rightarrow> string \<Rightarrow> string \<Rightarrow> duration \<times> oa_Warning list" where
  "parseDurationOr env raw fallback flowID upstream field =
     (if raw = [] then (fallback, [])
      else case ParseDuration raw of
        None \<Rightarrow> (fallback, warning flowID (''upstream '' @ Quote (oe_print env) upstream @ '' has unparsable '' @ field @ '' '' @
                             Quote (oe_print env) raw @ ''; zero value used''))
      | Some d \<Rightarrow> (d, []))"

definition reconstructAggregation :: "AggregationExtension \<Rightarrow> AggregationConfig" where
  "reconstructAggregation ext = \<lparr>agc_BestEffort = ax_BestEffort ext, agc_Strategy = ax_Strategy ext,
     agc_OnConflict = map_option (\<lambda>oc. \<lparr>onc_Policy = ox_Policy oc, onc_Upstream = ox_PreferUpstream oc\<rparr>) (ax_OnConflict ext)\<rparr>"

definition reconstructPolicy ::
  "openapi_env \<Rightarrow> PolicyExtension \<Rightarrow> string \<Rightarrow> string \<Rightarrow> PolicyConfig \<times> oa_Warning list" where
  "reconstructPolicy env p flowID upstream =
     (let (retry, ws1) = (case px_Retry p of
             None \<Rightarrow> (zero_retry, [])
           | Some r \<Rightarrow>
               (case parseDurationOr env (rex_BackoffDelay r) 0 flowID upstream ''retry backoff_delay'' of
                  (d, ws) \<Rightarrow> (\<lparr>rtc_MaxRetries = rex_MaxRetries r, rtc_RetryOnStatuses = rex_RetryOnStatuses r,
                              rtc_BackoffDelay = d\<rparr>, ws)));
          (breaker, ws2) = (case px_CircuitBreaker p of
             None \<Rightarrow> (zero_breaker, [])
           | Some b \<Rightarrow>
               (case parseDurationOr env (cx_ResetTimeout b) 0 flowID upstream ''circuit_breaker reset_timeout'' of
                  (d, ws) \<Rightarrow> (\<lparr>cbc_Enabled = cx_Enabled b, cbc_MaxFailures = cx_MaxFailures b, cbc_ResetTimeout = d\<rparr>, ws)))
      in (\<lparr>pol_HeaderBlacklist = px_HeaderBlacklist p, pol_RequireBody = px_RequireBody p,
           pol_MaxResponseBodySize = px_MaxResponseBodySize p, pol_FollowRedirects = px_FollowRedirects p,
           pol_RetryConfig = retry, pol_CircuitBreakerConfig = breaker, pol_LoadBalancingMode = px_LoadBalancing p\<rparr>,
          ws1 @ ws2))"

text \<open>One upstream of the loop of \<^verbatim>\<open>reconstructFlow\<close>.\<close>

definition reconstruct_upstream :: "openapi_env \<Rightarrow> string \<Rightarrow> UpstreamExtension \<Rightarrow> UpstreamConfig \<times> oa_Warning list" where
  "reconstruct_upstream env flowID u =
     (let name = Quote (oe_print env) (ux_Name u);
          (hosts, ws1) = (if ux_Hosts u = []
             then ([placeholderHost], warning flowID (''upstream '' @ name @ '' has no hosts in x-aastro; placeholder inserted''))
             else (ux_Hosts u, []));
          (timeout, ws2) = (if ux_Timeout u = [] then (0, [])
             else case ParseDuration (ux_Timeout u) of
               None \<Rightarrow> (0, warning flowID (''upstream '' @ name @ '' has unparsable timeout '' @
                             Quote (oe_print env) (ux_Timeout u) @ ''; gateway default will apply''))
             | Some d \<Rightarrow> (d, []));
          (policy, ws3) = (case ux_Policy u of
             None \<Rightarrow> (zero_policy, [])
           | Some p \<Rightarrow> reconstructPolicy env p flowID (ux_Name u));
          (transport, ws4) = (case ux_Transport u of
             None \<Rightarrow> (default_transport env, [])
           | Some t \<Rightarrow>
               (case parseDurationOr env (tx_IdleConnTimeout t) 0 flowID (ux_Name u) ''transport idle_conn_timeout'' of
                  (d, ws) \<Rightarrow> (\<lparr>trn_MaxIdleConns = tx_MaxIdleConns t, trn_MaxIdleConnsPerHost = tx_MaxIdleConnsPerHost t,
                              trn_IdleConnTimeout = d, trn_HTTP2 = []\<rparr>, ws)));
          (tls, ws5) = (if ux_TLSEnabled u
             then (zero_tls\<lparr>tls_Enabled := True\<rparr>, warning flowID (''upstream '' @ name @
               '' TLS restored with system roots; certificate/CA paths are not stored in specs - re-add them if the '' @
               ''upstream uses mTLS or a private CA''))
             else (zero_tls, []))
      in (\<lparr>upc_Name = ux_Name u, upc_Hosts = hosts, upc_Path = ux_Path u, upc_Method = ux_Method u,
           upc_Timeout = timeout, upc_ForwardHeaders = ux_ForwardHeaders u, upc_ForwardQueries = ux_ForwardQueries u,
           upc_ForwardParams = ux_ForwardParams u, upc_Policy = policy, upc_Transport = transport, upc_TLS = tls\<rparr>,
          ws1 @ ws2 @ ws3 @ ws4 @ ws5))"

definition reconstructFlow :: "openapi_env \<Rightarrow> string \<Rightarrow> string \<Rightarrow> FlowExtension \<Rightarrow> FlowConfig \<times> oa_Warning list" where
  "reconstructFlow env path meth ext =
     (let flowID = meth @ '' '' @ path;
          ups = map (reconstruct_upstream env flowID) (fx_Upstreams ext)
      in (\<lparr>flc_Path = path, flc_Method = meth, flc_Streaming = fx_Streaming ext,
           flc_Aggregation = map_option reconstructAggregation (fx_Aggregation ext),
           flc_Upstreams = map fst ups, flc_Plugins = [], flc_Middlewares = []\<rparr>,
          concat (map snd ups) @
          (if fx_Plugins ext \<noteq> []
           then warning flowID (''flow used plugin(s) '' @ Join (fx_Plugins ext) '', '' @
                  ''; plugin configurations are not stored in specs - re-add them manually'') else []) @
          (if fx_Middlewares ext \<noteq> []
           then warning flowID (''flow used middleware(s) '' @ Join (fx_Middlewares ext) '', '' @
                  ''; middleware configurations are not stored in specs - re-add them manually'') else [])))"

section \<open>Making up a flow\<close>

definition isStreamingOperation :: "Operation \<Rightarrow> bool" where
  "isStreamingOperation op =
     (case map_of (op_Responses op) ''200'' of
        Some (Some resp) \<Rightarrow> map_of (or_Content resp) ''*/*'' \<noteq> None
      | _ \<Rightarrow> False)"

definition resolveScaffoldHost :: "Document \<Rightarrow> ImportOptions \<Rightarrow> string \<times> string" where
  "resolveScaffoldHost doc opts =
     (if io_DefaultHost opts \<noteq> [] then (io_DefaultHost opts, [])
      else if doc_Servers doc \<noteq> [] \<and> hd (doc_Servers doc) \<noteq> [] then (hd (doc_Servers doc), [])
      else (placeholderHost, ''no --default-host and no servers[] in the document; placeholder host inserted''))"

definition upstreamNameFor :: "openapi_env \<Rightarrow> Operation \<Rightarrow> string \<Rightarrow> string \<Rightarrow> string" where
  "upstreamNameFor env op meth path =
     (if op_OperationID op \<noteq> [] then sanitizeID (ToLower env (op_OperationID op)) else operationID env meth path)"

definition scaffoldFlow ::
  "openapi_env \<Rightarrow> Document \<Rightarrow> string \<Rightarrow> string \<Rightarrow> Operation \<Rightarrow> string \<Rightarrow> ImportOptions \<Rightarrow> FlowConfig \<times> oa_Warning list" where
  "scaffoldFlow env doc path meth op mode opts =
     (let flowID = meth @ '' '' @ path;
          (host, hostWarning) = resolveScaffoldHost doc opts;
          named = (\<lambda>place. map pa_Name (filter (\<lambda>p. pa_In p = place) (op_Parameters op)));
          up = zero_upstream\<lparr>upc_Name := upstreamNameFor env op meth path, upc_Hosts := [host], upc_Path := path,
                 upc_ForwardQueries := named ''query'', upc_ForwardHeaders := named ''header''\<rparr>;
          streaming = isStreamingOperation op
      in (zero_flow\<lparr>flc_Path := path, flc_Method := meth, flc_Upstreams := [up],
            flc_Streaming := (mode = importModeStreaming \<or> streaming)\<rparr>,
          (if hostWarning \<noteq> [] then warning flowID hostWarning else []) @
          (if streaming \<and> mode \<noteq> importModeStreaming
           then warning flowID ''streamed */* response detected; scaffolded as a streaming flow'' else []) @
          (if op_Security op \<noteq> []
           then warning flowID (''operation declares a security requirement; configure the auth middleware '' @
                  ''(and forward the Authorization header if the upstream needs it)'') else [])))"

definition convertOperation ::
  "openapi_env \<Rightarrow> Document \<Rightarrow> string \<Rightarrow> string \<Rightarrow> Operation \<Rightarrow> string \<Rightarrow> ImportOptions \<Rightarrow> FlowConfig \<times> oa_Warning list" where
  "convertOperation env doc path meth op mode opts =
     (case op_XAastro op of
        Some ext \<Rightarrow> reconstructFlow env path meth ext
      | None \<Rightarrow> scaffoldFlow env doc path meth op mode opts)"

section \<open>The document\<close>

definition generatedByAastroctl :: "Document \<Rightarrow> bool" where
  "generatedByAastroctl doc =
     (case doc_XAastro doc of None \<Rightarrow> False | Some x \<Rightarrow> HasPrefix (rx_Generator x) ''aastroctl/'')"

definition sortedPaths :: "(string, PathItem option) gomap \<Rightarrow> string list" where
  "sortedPaths paths = sort (map fst paths)"

definition schemaVersion :: "Document \<Rightarrow> string" where
  "schemaVersion doc =
     (case doc_XAastro doc of None \<Rightarrow> ''v1'' | Some x \<Rightarrow> if rx_Schema x \<noteq> [] then rx_Schema x else ''v1'')"

definition serviceName :: "Document \<Rightarrow> string" where
  "serviceName doc = (if in_Title (doc_Info doc) \<noteq> [] then in_Title (doc_Info doc) else ''aastro'')"

text \<open>The operations in the order in which the nested loops of \<^verbatim>\<open>ToConfig\<close> come upon them.\<close>

definition item_operations :: "string \<Rightarrow> PathItem \<Rightarrow> (string \<times> string \<times> Operation) list" where
  "item_operations path item =
     List.map_filter (\<lambda>(meth, get). map_option (\<lambda>op. (path, meth, op)) (get item))
       (methodSlots @ [(methodQuery, it_XAastroQuery)])"

definition operations :: "Document \<Rightarrow> (string \<times> string \<times> Operation) list" where
  "operations doc =
     concat (map (\<lambda>path. case map_of (doc_Paths doc) path of Some (Some item) \<Rightarrow> item_operations path item | _ \<Rightarrow> [])
       (sortedPaths (doc_Paths doc)))"

text \<open>The callback of \<^verbatim>\<open>ToConfig\<close> and what it collects.\<close>

record import_state =
  is_flows :: "FlowConfig list"
  is_warnings :: "oa_Warning list"
  is_rateLimited :: bool
  is_sawExtension :: bool

definition handle_operation ::
  "openapi_env \<Rightarrow> Document \<Rightarrow> string \<Rightarrow> ImportOptions \<Rightarrow> string \<times> string \<times> Operation \<Rightarrow> import_state \<Rightarrow> import_state" where
  "handle_operation env doc mode opts pmo s =
     (case pmo of (path, meth, op) \<Rightarrow>
        case convertOperation env doc path meth op mode opts of (flow, ws) \<Rightarrow>
          \<lparr>is_flows = is_flows s @ [flow], is_warnings = is_warnings s @ ws,
           is_rateLimited = (is_rateLimited s \<or> map_of (op_Responses op) ''429'' \<noteq> None),
           is_sawExtension = (is_sawExtension s \<or> op_XAastro op \<noteq> None)\<rparr>)"

text \<open>An error comes with the warnings so far.\<close>

definition ToConfig ::
  "openapi_env \<Rightarrow> Document option \<Rightarrow> ImportOptions \<Rightarrow> (go_error + Config) \<times> oa_Warning list" where
  "ToConfig env docp opts =
     (case docp of
        None \<Rightarrow> (Inl (ErrMsg ''nil document''), [])
      | Some doc \<Rightarrow>
     (case resolveImportMode env (io_Mode opts) of
        Inl err \<Rightarrow> (Inl err, [])
      | Inr mode \<Rightarrow>
          let s = fold (handle_operation env doc mode opts) (operations doc)
                    \<lparr>is_flows = [], is_warnings = [], is_rateLimited = False, is_sawExtension = False\<rparr>
          in
          if is_flows s = [] then (Inl (ErrMsg ''document contains no operations''), is_warnings s)
          else
            let ws1 = is_warnings s @
                  (if generatedByAastroctl doc \<and> \<not> is_sawExtension s
                   then warning ''document'' (''document was generated by aastroctl but carries no per-operation x-aastro extensions; '' @
                          ''flows are scaffolded with defaults - re-export with --extensions for lossless import'')
                   else []);
                ws2 = ws1 @
                  (if is_rateLimited s
                   then warning ''gateway'' (''429 responses found in the document; rate limiter enabled with default settings '' @
                          ''(limit=100, window=1s) - tune before deploying'')
                   else [])
            in (Inr (zero_config\<lparr>
                  cfg_Schema := schemaVersion doc, cfg_ServiceName := serviceName doc,
                  cfg_Server := (cfg_Server zero_config)\<lparr>srv_Port := intOr (io_ServerPort opts) defaultServerPort\<rparr>,
                  cfg_Admin := (cfg_Admin zero_config)\<lparr>adm_Port := intOr (io_AdminPort opts) defaultAdminPort\<rparr>,
                  cfg_Routing := (cfg_Routing zero_config)\<lparr>
                    rou_RateLimiter := (if is_rateLimited s
                      then \<lparr>rlc_Enabled = True, rlc_Config = Some [(''limit'', CfgInt defaultRateLimit), (''window'', CfgString defaultRateWindow)]\<rparr>
                      else rou_RateLimiter (cfg_Routing zero_config)),
                    rou_Flows := is_flows s\<rparr>\<rparr>), ws2)))"

end
