(* ===== verification/Client_IP.thy ===== *)
theory Client_IP
  imports Requests
begin

text \<open>
  The client address of a request (\<^verbatim>\<open>router.go\<close>: \<^verbatim>\<open>extractClientIP\<close> and its helpers): the key of
  the rate limiter and the value of the forwarding headers.  The theorems say what a client can
  and cannot do to it by sending headers.
\<close>

section \<open>Definitions\<close>

text \<open>A nil address is the empty list.\<close>

definition remoteIP :: "Request \<Rightarrow> IP" where
  "remoteIP r =
     (case SplitHostPort (req_RemoteAddr r) of
        None \<Rightarrow> ParseIP (req_RemoteAddr r)
      | Some (host, port) \<Rightarrow> ParseIP host)"

definition peerString :: "Request \<Rightarrow> IP \<Rightarrow> string" where
  "peerString r peer = (if peer \<noteq> [] then IP_String peer else req_RemoteAddr r)"

fun ipInNets :: "IP \<Rightarrow> IPNet list \<Rightarrow> bool" where
  "ipInNets ip [] = False"
| "ipInNets ip (n # ns) = (if IPNet_Contains n ip then True else ipInNets ip ns)"

text \<open>
  The loop over the parts of \<^verbatim>\<open>X-Forwarded-For\<close>, here given from the last to the first: the first
  address outside the trusted networks, unless a part that is no address comes before it.
\<close>

fun xff_loop :: "IPNet list \<Rightarrow> string list \<Rightarrow> string option" where
  "xff_loop trustedProxies [] = None"
| "xff_loop trustedProxies (part # parts) =
     (let ip = ParseIP (TrimSpace part) in
      if ip = [] then None
      else if \<not> ipInNets ip trustedProxies then Some (IP_String ip)
      else xff_loop trustedProxies parts)"

definition extractClientIP :: "Request \<Rightarrow> IPNet list \<Rightarrow> string" where
  "extractClientIP r trustedProxies =
     (let peer = remoteIP r in
      if peer = [] \<or> \<not> ipInNets peer trustedProxies then peerString r peer
      else
        let xff = hdr_Get (req_Header r) ''X-Forwarded-For'';
            chain = (if xff \<noteq> [] then xff_loop trustedProxies (rev (Split xff CHR '','')) else None)
        in
        (case chain of
           Some s \<Rightarrow> s
         | None \<Rightarrow>
             let xrip = ParseIP (TrimSpace (hdr_Get (req_Header r) ''X-Real-IP'')) in
             if xrip \<noteq> [] then IP_String xrip else peerString r peer))"

section \<open>Lemmas\<close>

lemma ipInNets_iff: "ipInNets ip ns \<longleftrightarrow> (\<exists>n \<in> set ns. IPNet_Contains n ip)"
  by (induction ns) auto

lemma peer_of_header [simp]:
  "remoteIP (r\<lparr>req_Header := h\<rparr>) = remoteIP r"
  "peerString (r\<lparr>req_Header := h\<rparr>) peer = peerString r peer"
  by (simp_all add: remoteIP_def peerString_def split: option.splits)

text \<open>A part of the chain that names a trusted proxy, or an address outside the networks.\<close>

definition trusted_hop :: "IPNet list \<Rightarrow> string \<Rightarrow> bool" where
  "trusted_hop nets part \<longleftrightarrow>
     ParseIP (TrimSpace part) \<noteq> [] \<and> ipInNets (ParseIP (TrimSpace part)) nets"

definition outside_hop :: "IPNet list \<Rightarrow> string \<Rightarrow> bool" where
  "outside_hop nets part \<longleftrightarrow>
     ParseIP (TrimSpace part) \<noteq> [] \<and> \<not> ipInNets (ParseIP (TrimSpace part)) nets"

lemma xff_loop_skips:
  "list_all (trusted_hop nets) hops \<Longrightarrow> xff_loop nets (hops @ parts) = xff_loop nets parts"
  by (induction hops) (auto simp: trusted_hop_def Let_def)

lemma xff_loop_stops:
  "outside_hop nets part \<Longrightarrow> xff_loop nets (part # parts) = Some (IP_String (ParseIP (TrimSpace part)))"
  by (simp add: outside_hop_def Let_def)

lemma Split_suffix: "\<exists>pre. Split (s @ c # t) c = pre @ Split t c"
proof (induction s)
  case Nil
  have "Split ([] @ c # t) c = [[]] @ Split t c" by simp
  then show ?case by blast
next
  case (Cons x s)
  then obtain pre where pre: "Split (s @ c # t) c = pre @ Split t c" by blast
  show ?case
  proof (cases "x = c")
    case True
    with pre have "Split ((x # s) @ c # t) c = ([] # pre) @ Split t c" by simp
    then show ?thesis by blast
  next
    case False
    show ?thesis
    proof (cases pre)
      case Nil
      have "length (Split (s @ c # t) c) \<ge> Suc (length (Split t c))"
        by (induction s) (auto split: list.splits)
      with pre Nil show ?thesis by simp
    next
      case (Cons p ps)
      with False pre have "Split ((x # s) @ c # t) c = ((x # p) # ps) @ Split t c" by simp
      then show ?thesis by blast
    qed
  qed
qed

lemma Split_covers: "x \<in> set s \<Longrightarrow> x \<noteq> c \<Longrightarrow> \<exists>p \<in> set (Split s c). x \<in> set p"
proof (induction s)
  case (Cons y s)
  show ?case
  proof (cases "y = c")
    case False
    with Cons show ?thesis by (cases "Split s c") auto
  qed (use Cons in auto)
qed simp

lemma ParseIP_zone:
  assumes "CHR ''%'' \<in> set s" shows "ParseIP s = []"
proof -
  have "parseIPv4 s = None"
  proof (rule ccontr)
    assume "parseIPv4 s \<noteq> None"
    then have "\<forall>p \<in> set (Split s CHR ''.''). list_all is_digit p"
    proof -
      assume "parseIPv4 s \<noteq> None"
      moreover have "those (map octet ps) \<noteq> None \<Longrightarrow> \<forall>p \<in> set ps. list_all is_digit p" for ps
        by (induction ps) (auto simp: octet_def split: option.splits if_splits)
      ultimately show ?thesis by (auto simp: parseIPv4_def Let_def split: if_splits)
    qed
    moreover obtain p where "p \<in> set (Split s CHR ''.'')" "CHR ''%'' \<in> set p"
      using assms Split_covers [of "CHR ''%''" s "CHR ''.''"] by auto
    ultimately have "is_digit CHR ''%''" by (auto simp: list_all_iff)
    then show False by (simp add: is_digit_def)
  qed
  with assms show ?thesis
    by (auto simp: ParseIP_def split: option.splits)
qed

text \<open>The chain of a request that came through trusted proxies.\<close>

lemma extractClientIP_chain:
  assumes "remoteIP r \<noteq> []" "ipInNets (remoteIP r) nets"
    and "outside_hop nets client" "list_all (trusted_hop nets) proxies"
    and "CHR '','' \<notin> set client" "\<forall>p \<in> set proxies. CHR '','' \<notin> set p"
    and "hdr_Get (req_Header r) ''X-Forwarded-For'' =
      forged @ '','' @ Join (client # proxies) '',''"
  shows "extractClientIP r nets = IP_String (ParseIP (TrimSpace client))"
proof -
  have "Split (Join (client # proxies) '','') CHR '','' = client # proxies"
    using assms(5,6) by (intro Split_Join) auto
  with Split_suffix [of forged "CHR '',''" "Join (client # proxies) '',''"]
  obtain pre where "Split (forged @ '','' @ Join (client # proxies) '','') CHR '','' =
      pre @ client # proxies" by auto
  then have "xff_loop nets (rev (Split (forged @ '','' @ Join (client # proxies) '','') CHR '','')) =
      xff_loop nets (rev proxies @ client # rev pre)" by simp
  also have "\<dots> = Some (IP_String (ParseIP (TrimSpace client)))"
    using assms(3,4) by (simp del: xff_loop.simps add: xff_loop_skips xff_loop_stops)
  finally show ?thesis using assms(1,2,7) by (simp add: extractClientIP_def)
qed

section \<open>Properties\<close>

text \<open>
  A peer outside the trusted networks cannot choose its address: whatever headers it sends,
  the client address is the peer's own.
\<close>

theorem client_ip_untrusted_peer:
  assumes "\<not> ipInNets (remoteIP r) nets"
  shows "extractClientIP (r\<lparr>req_Header := h\<rparr>) nets = peerString r (remoteIP r)"
  using assms by (simp add: extractClientIP_def)

theorem client_ip_untrusted_peer_witness:
  "extractClientIP
     \<lparr>req_Method = ''GET'', req_URL = \<lparr>url_Path = ''/'', url_RawQuery = [], url_Host = []\<rparr>,
      req_Host = ''gw'', req_Header = [(''X-Forwarded-For'', [''1.1.1.1''])], req_Body = [],
      req_ContentLength = 0, req_TransferEncoding = [], req_RemoteAddr = ''203.0.113.7:4711'',
      req_TLS = False, req_Context = empty_context\<rparr>
     [\<lparr>ipn_IP = [10, 0, 0, 0], ipn_Mask = [255, 0, 0, 0]\<rparr>] = ''203.0.113.7''"
proof -
  let ?r = "\<lparr>req_Method = ''GET'', req_URL = \<lparr>url_Path = ''/'', url_RawQuery = [], url_Host = []\<rparr>,
      req_Host = ''gw'', req_Header = [], req_Body = [],
      req_ContentLength = 0, req_TransferEncoding = [], req_RemoteAddr = ''203.0.113.7:4711'',
      req_TLS = False, req_Context = empty_context\<rparr> :: Request"
  let ?nets = "[\<lparr>ipn_IP = [10, 0, 0, 0], ipn_Mask = [255, 0, 0, 0]\<rparr>]"
  have "\<not> ipInNets (remoteIP ?r) ?nets" by code_simp
  moreover have "peerString ?r (remoteIP ?r) = ''203.0.113.7''" by code_simp
  ultimately show ?thesis
    using client_ip_untrusted_peer [of ?r ?nets "[(''X-Forwarded-For'', [''1.1.1.1''])]"] by simp
qed

text \<open>
  C12. Behind trusted proxies the client address is the last address of the chain that is not a
  trusted proxy, whatever a client wrote in front of it: text before the hop that the trusted
  proxies recorded has no influence.
\<close>

theorem client_ip_ignores_forged_prefix:
  assumes "remoteIP r \<noteq> []" "ipInNets (remoteIP r) nets"
    and "outside_hop nets client" "list_all (trusted_hop nets) proxies"
    and "CHR '','' \<notin> set client" "\<forall>p \<in> set proxies. CHR '','' \<notin> set p"
    and "hdr_Get (req_Header r) ''X-Forwarded-For'' =
      forged @ '','' @ Join (client # proxies) '',''"
  shows "extractClientIP r nets = IP_String (ParseIP (TrimSpace client))"
  using assms by (rule extractClientIP_chain)

theorem client_ip_ignores_forged_prefix_witness:
  "extractClientIP
     \<lparr>req_Method = ''GET'', req_URL = \<lparr>url_Path = ''/'', url_RawQuery = [], url_Host = []\<rparr>,
      req_Host = ''gw'',
      req_Header = [(''X-Forwarded-For'', [''8.8.8.8,203.0.113.7,10.0.0.9''])], req_Body = [],
      req_ContentLength = 0, req_TransferEncoding = [], req_RemoteAddr = ''10.0.0.1:80'',
      req_TLS = False, req_Context = empty_context\<rparr>
     [\<lparr>ipn_IP = [10, 0, 0, 0], ipn_Mask = [255, 0, 0, 0]\<rparr>] = ''203.0.113.7''"
proof -
  let ?r = "\<lparr>req_Method = ''GET'', req_URL = \<lparr>url_Path = ''/'', url_RawQuery = [], url_Host = []\<rparr>,
      req_Host = ''gw'',
      req_Header = [(''X-Forwarded-For'', [''8.8.8.8,203.0.113.7,10.0.0.9''])], req_Body = [],
      req_ContentLength = 0, req_TransferEncoding = [], req_RemoteAddr = ''10.0.0.1:80'',
      req_TLS = False, req_Context = empty_context\<rparr> :: Request"
  let ?nets = "[\<lparr>ipn_IP = [10, 0, 0, 0], ipn_Mask = [255, 0, 0, 0]\<rparr>]"
  have peer: "remoteIP ?r = v4InV6Prefix @ [10, 0, 0, 1]" by code_simp
  have ips: "ParseIP ''203.0.113.7'' = v4InV6Prefix @ [203, 0, 113, 7]"
    "ParseIP ''10.0.0.9'' = v4InV6Prefix @ [10, 0, 0, 9]"
    by code_simp+
  have nets: "ipInNets (v4InV6Prefix @ [10, 0, 0, 1]) ?nets" "ipInNets (v4InV6Prefix @ [10, 0, 0, 9]) ?nets"
    "\<not> ipInNets (v4InV6Prefix @ [203, 0, 113, 7]) ?nets"
    by code_simp+
  have trim: "TrimSpace ''203.0.113.7'' = ''203.0.113.7''" "TrimSpace ''10.0.0.9'' = ''10.0.0.9''"
    by (simp_all add: TrimSpace_graphic graphic_def)
  have hops: "outside_hop ?nets ''203.0.113.7''" "trusted_hop ?nets ''10.0.0.9''"
    using nets by (simp_all add: outside_hop_def trusted_hop_def trim ips)
  have str: "IP_String (v4InV6Prefix @ [203, 0, 113, 7]) = ''203.0.113.7''" by code_simp
  have "hdr_Get (req_Header ?r) ''X-Forwarded-For'' =
      ''8.8.8.8'' @ '','' @ Join (''203.0.113.7'' # [''10.0.0.9'']) '',''"
    by (simp add: hdr_Get_def hdr_values_def)
  with client_ip_ignores_forged_prefix [of ?r ?nets "''203.0.113.7''" "[''10.0.0.9'']" "''8.8.8.8''",
      unfolded peer trim ips str] nets hops
  show ?thesis by simp
qed

text \<open>
  A peer whose address carries an IPv6 zone is not recognised: its client address is the
  whole remote address with the port, which differs from connection to connection.
\<close>

theorem client_ip_zoned_peer_keeps_port:
  assumes "SplitHostPort (req_RemoteAddr r) = Some (host, port)" "CHR ''%'' \<in> set host"
  shows "extractClientIP r nets = req_RemoteAddr r"
  using assms by (simp add: extractClientIP_def remoteIP_def peerString_def ParseIP_zone)

theorem client_ip_zoned_peer_keeps_port_witness:
  "extractClientIP
     \<lparr>req_Method = ''GET'', req_URL = \<lparr>url_Path = ''/'', url_RawQuery = [], url_Host = []\<rparr>,
      req_Host = ''gw'', req_Header = [], req_Body = [],
      req_ContentLength = 0, req_TransferEncoding = [], req_RemoteAddr = ''[fe80::1%eth0]:4711'',
      req_TLS = False, req_Context = empty_context\<rparr> [] = ''[fe80::1%eth0]:4711''"
proof -
  have "SplitHostPort ''[fe80::1%eth0]:4711'' = Some (''fe80::1%eth0'', ''4711'')" by code_simp
  then show ?thesis
    using client_ip_zoned_peer_keeps_port [of "\<lparr>req_Method = ''GET'',
      req_URL = \<lparr>url_Path = ''/'', url_RawQuery = [], url_Host = []\<rparr>,
      req_Host = ''gw'', req_Header = [], req_Body = [],
      req_ContentLength = 0, req_TransferEncoding = [], req_RemoteAddr = ''[fe80::1%eth0]:4711'',
      req_TLS = False, req_Context = empty_context\<rparr>" "''fe80::1%eth0''" "''4711''" "[]"]
    by simp
qed

end
