(* ===== verification/Load_Balancer.thy ===== *)
theory Load_Balancer
  imports Client_IP "HOL-Library.Multiset"
begin

text \<open>
  The settings of an upstream (\<^verbatim>\<open>policy.go\<close>, \<^verbatim>\<open>upstreamConfig\<close>), the counters its goroutines share
  (\<^verbatim>\<open>upstreamState\<close>) and the choice of a host (\<^verbatim>\<open>selectHost\<close>).  The counters change by atomic
  additions only, so a run of the balancer is a sequence of such additions in some order.
\<close>

section \<open>Settings and state\<close>

record retryPolicy =
  maxRetries :: int
  retryOnStatuses :: "int list"
  backoffDelay :: duration

text \<open>The blacklist is a set of header names; only its members and its emptiness are used.\<close>

record upstreamPolicy =
  headerBlacklist :: "string list"
  requireBody :: bool
  maxResponseBodySize :: int
  retry :: retryPolicy

datatype lbMode = lbModeRoundRobin | lbModeLeastConns | lbModeOther string

record upstreamConfig =
  uc_id :: string
  uc_name :: string
  uc_hosts :: "string list"
  uc_path :: string
  uc_method :: string
  uc_timeout :: duration
  uc_forwardHeaders :: "string list"
  uc_forwardQueries :: "string list"
  uc_forwardParams :: "string list"
  uc_trustedProxies :: "IPNet list"
  uc_lbMode :: lbMode
  uc_policy :: upstreamPolicy

record upstreamState =
  currentHostIdx :: "64 word"
  activeConnections :: "int list"

section \<open>Choosing a host\<close>

text \<open>
  The loop of the least-connections mode over the remaining host indices.  Reading a counter
  that does not exist is an index panic.
\<close>

fun least_loop :: "int list \<Rightarrow> nat list \<Rightarrow> int \<Rightarrow> nat \<Rightarrow> nat go" where
  "least_loop conns [] minConns selected = Some selected"
| "least_loop conns (i # is) minConns selected =
     (if i \<ge> length conns then None
      else if conns ! i < minConns then least_loop conns is (conns ! i) i
      else least_loop conns is minConns selected)"

text \<open>
  The chosen index and the changed counters.  Without hosts the code panics: the round robin on
  the division by zero, the other modes when they log the name of the host.
\<close>

definition selectHost :: "upstreamConfig \<Rightarrow> upstreamState \<Rightarrow> (nat \<times> upstreamState) go" where
  "selectHost cfg st =
     (let hosts = uc_hosts cfg in
      if length hosts = 1 then Some (0, st)
      else
        case uc_lbMode cfg of
          lbModeRoundRobin \<Rightarrow>
            (let idx = currentHostIdx st + 1 in
             if hosts = [] then None
             else Some (unat (idx mod of_nat (length hosts)), st\<lparr>currentHostIdx := idx\<rparr>))
        | lbModeLeastConns \<Rightarrow>
            (case least_loop (activeConnections st) [0..<length hosts] max_i64 0 of
               None \<Rightarrow> None
             | Some selected \<Rightarrow> if selected < length hosts then Some (selected, st) else None)
        | lbModeOther m \<Rightarrow> if hosts = [] then None else Some (0, st))"

text \<open>The two atomic additions around a call in the least-connections mode.\<close>

definition conn_add :: "nat \<Rightarrow> int \<Rightarrow> upstreamState \<Rightarrow> upstreamState go" where
  "conn_add h d st =
     (if h < length (activeConnections st)
      then Some (st\<lparr>activeConnections := (activeConnections st)[h := i64 (activeConnections st ! h + d)]\<rparr>)
      else None)"

section \<open>Least connections\<close>

lemma least_loop_min:
  assumes "\<forall>i \<in> set is. i < length conns"
  shows "\<exists>h. least_loop conns is m s = Some h \<and>
    ((h = s \<and> (\<forall>i \<in> set is. m \<le> conns ! i)) \<or>
     (h \<in> set is \<and> conns ! h < m \<and> (\<forall>i \<in> set is. conns ! h \<le> conns ! i)))"
  using assms
proof (induction "is" arbitrary: m s)
  case (Cons i "is")
  then show ?case
  proof (cases "conns ! i < m")
    case True
    with Cons obtain h where "least_loop conns is (conns ! i) i = Some h"
      "(h = i \<and> (\<forall>j \<in> set is. conns ! i \<le> conns ! j)) \<or>
       (h \<in> set is \<and> conns ! h < conns ! i \<and> (\<forall>j \<in> set is. conns ! h \<le> conns ! j))" by force
    with True Cons.prems show ?thesis by force
  next
    case False
    with Cons obtain h where "least_loop conns is m s = Some h"
      "(h = s \<and> (\<forall>j \<in> set is. m \<le> conns ! j)) \<or>
       (h \<in> set is \<and> conns ! h < m \<and> (\<forall>j \<in> set is. conns ! h \<le> conns ! j))" by force
    with False Cons.prems show ?thesis by force
  qed
qed simp

lemma selectHost_in_range:
  assumes "selectHost cfg st = Some (h, st')"
  shows "h < length (uc_hosts cfg)"
proof -
  have "unat ((w :: 64 word) mod of_nat n) < n" if "0 < n" for w and n :: nat
  proof (cases "(of_nat n :: 64 word) = 0")
    case True
    then have "2 ^ 64 \<le> n" using that by (auto simp: word_of_nat_eq_0_iff dest: dvd_imp_le)
    moreover have "unat (w mod of_nat n) < 2 ^ 64" using unsigned_less [of "w mod of_nat n", where 'a = nat] by simp
    ultimately show ?thesis by simp
  next
    case False
    then have "unat (w mod of_nat n) < unat (of_nat n :: 64 word)"
      by (simp add: unat_mod unat_gt_0)
    also have "\<dots> \<le> n" by (simp add: unat_of_nat)
    finally show ?thesis .
  qed
  with assms show ?thesis
    by (auto simp: selectHost_def Let_def split: if_splits lbMode.splits option.splits)
qed

section \<open>Round robin\<close>

text \<open>The hosts that consecutive calls get.\<close>

fun select_run :: "upstreamConfig \<Rightarrow> nat \<Rightarrow> upstreamState \<Rightarrow> nat list go" where
  "select_run cfg 0 st = Some []"
| "select_run cfg (Suc k) st =
     (case selectHost cfg st of
        None \<Rightarrow> None
      | Some (h, st') \<Rightarrow> map_option ((#) h) (select_run cfg k st'))"

lemma selectHost_round_robin:
  assumes "uc_lbMode cfg = lbModeRoundRobin" "1 < length (uc_hosts cfg)"
    and "unat (currentHostIdx st) + 1 < 2 ^ 64" "length (uc_hosts cfg) < 2 ^ 64"
  shows "selectHost cfg st =
    Some ((unat (currentHostIdx st) + 1) mod length (uc_hosts cfg),
          st\<lparr>currentHostIdx := currentHostIdx st + 1\<rparr>)"
    and "unat (currentHostIdx st + 1) = unat (currentHostIdx st) + 1"
proof -
  show inc: "unat (currentHostIdx st + 1) = unat (currentHostIdx st) + 1"
    using assms(3) by (simp add: unat_word_ariths)
  have "unat (of_nat (length (uc_hosts cfg)) :: 64 word) = length (uc_hosts cfg)"
    using assms(4) by (simp add: unat_of_nat)
  with inc have "unat ((currentHostIdx st + 1) mod of_nat (length (uc_hosts cfg))) =
      (unat (currentHostIdx st) + 1) mod length (uc_hosts cfg)"
    by (simp only: unat_mod)
  then show "selectHost cfg st =
    Some ((unat (currentHostIdx st) + 1) mod length (uc_hosts cfg),
          st\<lparr>currentHostIdx := currentHostIdx st + 1\<rparr>)"
    using assms(1,2) by (auto simp: selectHost_def Let_def)
qed

lemma select_run_round_robin:
  assumes "uc_lbMode cfg = lbModeRoundRobin" "1 < length (uc_hosts cfg)"
    and "unat (currentHostIdx st) + k < 2 ^ 64" "length (uc_hosts cfg) < 2 ^ 64"
  shows "select_run cfg k st =
    Some (map (\<lambda>i. (unat (currentHostIdx st) + 1 + i) mod length (uc_hosts cfg)) [0..<k])"
  using assms(3)
proof (induction k arbitrary: st)
  case (Suc k)
  let ?st = "st\<lparr>currentHostIdx := currentHostIdx st + 1\<rparr>"
  have one: "unat (currentHostIdx st) + 1 < 2 ^ 64" using Suc.prems by simp
  note step = selectHost_round_robin [OF assms(1,2) one assms(4)]
  have "unat (currentHostIdx ?st) + k < 2 ^ 64" using Suc.prems step(2) by simp
  from Suc.IH [OF this] step show ?case
    by (simp add: upt_conv_Cons map_Suc_upt [symmetric] comp_def del: upt_Suc)
qed simp

lemma residues_window:
  assumes "0 < (n :: nat)"
  shows "mset (map (\<lambda>i. (a + i) mod n) [0..<n]) = mset_set {0..<n}"
proof -
  let ?f = "\<lambda>i. (a + i) mod n"
  have le: "i = j" if "i \<le> j" "j < n" "?f j = ?f i" for i j
  proof -
    from that(1) have "a + i \<le> a + j" by simp
    from mod_eq_dvd_iff_nat [OF this, of n] that(3) have "n dvd j - i" by simp
    then show ?thesis using that by (auto dest: dvd_imp_le)
  qed
  then have inj: "inj_on ?f {0..<n}"
    by (auto intro!: inj_onI) (metis le nat_le_linear)
  then have "?f ` {0..<n} = {0..<n}" using assms by (intro endo_inj_surj) auto
  with image_mset_mset_set [OF inj] show ?thesis by (simp add: mset_upt)
qed

lemma residues_count:
  assumes "0 < (n :: nat)" "h < n"
  shows "count (mset (map (\<lambda>i. (a + i) mod n) [0..<k * n])) h = k"
proof (induction k)
  case (Suc k)
  have "[0..<Suc k * n] = [0..<k * n] @ map (\<lambda>i. k * n + i) [0..<n]"
    using upt_add_eq_append [of 0 "k * n" n] map_add_upt [of "k * n" n]
    by (simp add: add.commute)
  then have "mset (map (\<lambda>i. (a + i) mod n) [0..<Suc k * n]) =
      mset (map (\<lambda>i. (a + i) mod n) [0..<k * n]) + mset (map (\<lambda>i. ((a + k * n) + i) mod n) [0..<n])"
    by (simp add: comp_def add.assoc)
  also have "mset (map (\<lambda>i. ((a + k * n) + i) mod n) [0..<n]) = mset_set {0..<n}"
    using assms(1) by (rule residues_window)
  finally show ?case using Suc assms by simp
qed simp

section \<open>Concurrent calls\<close>

text \<open>
  The calls of one upstream in the least-connections mode, seen at the shared counters: a call
  that chose host \<open>h\<close> adds one when it starts and takes one away when it ends.  The state also
  records which calls are under way; a call can only end once.
\<close>

datatype conn_event = ConnBegin nat | ConnEnd nat

record conn_state =
  cs_state :: upstreamState
  cs_running :: "nat list"

fun conn_step :: "conn_event \<Rightarrow> conn_state \<Rightarrow> conn_state" where
  "conn_step (ConnBegin h) s =
     (case conn_add h 1 (cs_state s) of
        None \<Rightarrow> s
      | Some st \<Rightarrow> s\<lparr>cs_state := st, cs_running := h # cs_running s\<rparr>)"
| "conn_step (ConnEnd h) s =
     (if h \<in> set (cs_running s) then
        (case conn_add h (- 1) (cs_state s) of
           None \<Rightarrow> s
         | Some st \<Rightarrow> s\<lparr>cs_state := st, cs_running := remove1 h (cs_running s)\<rparr>)
      else s)"

definition conn_init :: "nat \<Rightarrow> conn_state" where
  "conn_init n = \<lparr>cs_state = \<lparr>currentHostIdx = 0, activeConnections = replicate n 0\<rparr>, cs_running = []\<rparr>"

definition conn_inv :: "nat \<Rightarrow> conn_state \<Rightarrow> bool" where
  "conn_inv n s \<longleftrightarrow>
     length (activeConnections (cs_state s)) = n \<and>
     (\<forall>h < n. activeConnections (cs_state s) ! h = i64 (int (count (mset (cs_running s)) h)))"

lemma i64_add: "i64 (i64 x + y) = i64 (x + y)"
proof -
  have "((x + 2 ^ 63) mod 2 ^ 64 - 2 ^ 63 + y + 2 ^ 63) mod 2 ^ 64 = (x + y + 2 ^ 63) mod (2 ^ 64 :: int)"
    by (simp add: mod_simps algebra_simps)
  then show ?thesis by (simp add: i64_def)
qed

lemma i64_pred: "i64 (i64 x - 1) = i64 (x - 1)"
  using i64_add [of x "- 1"] by simp

lemma conn_inv_step: "conn_inv n s \<Longrightarrow> conn_inv n (conn_step e s)"
proof (cases e)
  case (ConnBegin h)
  assume "conn_inv n s"
  with ConnBegin show ?thesis
    by (auto simp: conn_inv_def conn_add_def nth_list_update i64_add)
      (metis add.commute i64_add)
next
  case (ConnEnd h)
  assume inv: "conn_inv n s"
  have "count (mset (remove1 h (cs_running s))) j =
      (if j = h then count (mset (cs_running s)) h - 1 else count (mset (cs_running s)) j)" for j
    by simp
  moreover have "h \<in> set (cs_running s) \<Longrightarrow> 1 \<le> count (mset (cs_running s)) h"
    by (simp add: Suc_le_eq)
  ultimately show ?thesis using inv ConnEnd
    by (auto simp: conn_inv_def conn_add_def nth_list_update of_nat_diff i64_pred)
qed

interpretation conns: atomic_component conn_step "conn_init n" "conn_inv n" for n
  by unfold_locales (simp_all add: conn_inv_step, simp add: conn_inv_def conn_init_def)

section \<open>Properties\<close>

text \<open>
  C37. Round robin is fair: over \<open>k\<close> times as many consecutive calls as there are hosts, every
  host is chosen exactly \<open>k\<close> times, as long as the 64-bit counter does not wrap in between.
\<close>

theorem round_robin_fair:
  assumes "uc_lbMode cfg = lbModeRoundRobin" "1 < length (uc_hosts cfg)"
    and "unat (currentHostIdx st) + k * length (uc_hosts cfg) < 2 ^ 64"
    and "length (uc_hosts cfg) < 2 ^ 64"
  shows "\<exists>hs. select_run cfg (k * length (uc_hosts cfg)) st = Some hs \<and>
    (\<forall>h < length (uc_hosts cfg). count (mset hs) h = k)"
proof -
  have "0 < length (uc_hosts cfg)" using assms(2) by linarith
  from select_run_round_robin [OF assms] residues_count [OF this] show ?thesis by metis
qed

definition sample_upstream_config :: upstreamConfig where
  "sample_upstream_config = \<lparr>uc_id = ''u1'', uc_name = ''users'',
     uc_hosts = [''http://a'', ''http://b'', ''http://c''], uc_path = ''/users/{id}'',
     uc_method = [], uc_timeout = 3000000000, uc_forwardHeaders = [''X-*''],
     uc_forwardQueries = [''page''], uc_forwardParams = [], uc_trustedProxies = [],
     uc_lbMode = lbModeRoundRobin,
     uc_policy = \<lparr>headerBlacklist = [''Set-Cookie''], requireBody = False,
       maxResponseBodySize = 1024,
       retry = \<lparr>maxRetries = 2, retryOnStatuses = [503], backoffDelay = 0\<rparr>\<rparr>\<rparr>"

theorem round_robin_fair_witness:
  "\<exists>hs. select_run sample_upstream_config 6 \<lparr>currentHostIdx = 7, activeConnections = []\<rparr> = Some hs \<and>
     (\<forall>h < 3. count (mset hs) h = 2)"
proof -
  have "uc_lbMode sample_upstream_config = lbModeRoundRobin"
    "length (uc_hosts sample_upstream_config) = 3" by (simp_all add: sample_upstream_config_def)
  with round_robin_fair [of sample_upstream_config "\<lparr>currentHostIdx = 7, activeConnections = []\<rparr>" 2]
  show ?thesis by simp
qed

text \<open>
  Least connections picks a host with the fewest calls under way (by the counters it reads),
  and the choice exists whenever there is a counter for every host.
\<close>

theorem least_conns_picks_minimum:
  assumes "uc_lbMode cfg = lbModeLeastConns" "1 < length (uc_hosts cfg)"
    and "length (activeConnections st) = length (uc_hosts cfg)"
  shows "\<exists>h. selectHost cfg st = Some (h, st) \<and> h < length (uc_hosts cfg) \<and>
    (\<forall>j < length (uc_hosts cfg). min max_i64 (activeConnections st ! h) \<le> activeConnections st ! j)"
proof -
  obtain h where h: "least_loop (activeConnections st) [0..<length (uc_hosts cfg)] max_i64 0 = Some h"
    "(h = 0 \<and> (\<forall>i < length (uc_hosts cfg). max_i64 \<le> activeConnections st ! i)) \<or>
     (h < length (uc_hosts cfg) \<and> (\<forall>i < length (uc_hosts cfg). activeConnections st ! h \<le> activeConnections st ! i))"
    using least_loop_min [of "[0..<length (uc_hosts cfg)]" "activeConnections st" max_i64 0] assms(3)
    by auto
  have "h < length (uc_hosts cfg)" using h(2) assms(2) by auto
  with h assms show ?thesis by (auto simp: selectHost_def Let_def)
qed

theorem least_conns_picks_minimum_witness:
  "\<exists>h. selectHost (sample_upstream_config\<lparr>uc_lbMode := lbModeLeastConns\<rparr>)
      \<lparr>currentHostIdx = 0, activeConnections = [2, 1, 3]\<rparr> =
      Some (h, \<lparr>currentHostIdx = 0, activeConnections = [2, 1, 3]\<rparr>) \<and> h < 3 \<and>
    (\<forall>j < 3. min max_i64 ([2, 1, 3] ! h) \<le> [2, 1, 3] ! j)"
  using least_conns_picks_minimum [of "sample_upstream_config\<lparr>uc_lbMode := lbModeLeastConns\<rparr>"
      "\<lparr>currentHostIdx = 0, activeConnections = [2, 1, 3]\<rparr>"]
  by (simp add: sample_upstream_config_def numeral_3_eq_3)



text \<open>
  A mode that is neither of the two known ones (the empty default among them) sends every
  call to the first host and never changes the counters.
\<close>

theorem unknown_mode_pins_first_host:
  assumes "uc_lbMode cfg = lbModeOther m" "uc_hosts cfg \<noteq> []"
  shows "select_run cfg k st = Some (replicate k 0)"
proof -
  have "selectHost cfg st = Some (0, st)" using assms by (simp add: selectHost_def Let_def)
  then show ?thesis by (induction k) simp_all
qed

theorem unknown_mode_pins_first_host_witness:
  "select_run (sample_upstream_config\<lparr>uc_lbMode := lbModeOther []\<rparr>) 4
     \<lparr>currentHostIdx = 7, activeConnections = []\<rparr> = Some [0, 0, 0, 0]"
  using unknown_mode_pins_first_host [of "sample_upstream_config\<lparr>uc_lbMode := lbModeOther []\<rparr>" "[]" 4]
  by (simp add: sample_upstream_config_def numeral_eq_Suc)

end
