(* ===== verification/Upstream_Request.thy ===== *)
theory Upstream_Request
  imports Load_Balancer
begin

text \<open>
  How \<^verbatim>\<open>upstream.go\<close> builds the request to an upstream: the path with its parameters, the query,
  the headers it forwards and the forwarding headers it adds.  What is not code of the
  repository enters as the record \<open>externals\<close>: the URL parser, the route parameters of the
  router \<^verbatim>\<open>chi\<close>, and the trace propagator.
\<close>

record externals =
  url_Parse :: "string \<Rightarrow> go_error + URL"
  URLParam :: "Request \<Rightarrow> string \<Rightarrow> string"
  otel_Inject :: "Context \<Rightarrow> Header \<Rightarrow> Header"

section \<open>Making a request\<close>

definition validMethod :: "string \<Rightarrow> bool" where
  "validMethod m \<longleftrightarrow> m \<noteq> [] \<and> list_all valid_header_byte m"

text \<open>\<^verbatim>\<open>removeEmptyPort\<close> of \<^verbatim>\<open>net/http\<close>: a final colon (which then follows every bracket) is dropped.\<close>

definition removeEmptyPort :: "string \<Rightarrow> string" where
  "removeEmptyPort host = TrimSuffix host '':''"

definition http_NewRequest ::
  "externals \<Rightarrow> Context \<Rightarrow> string \<Rightarrow> string \<Rightarrow> body_stream \<Rightarrow> int \<Rightarrow> go_error + Request" where
  "http_NewRequest ext ctx method0 url body len =
     (let method = (if method0 = [] then ''GET'' else method0) in
      if \<not> validMethod method then Inl (ErrMsg (''net/http: invalid method '' @ method))
      else
        case url_Parse ext url of
          Inl err \<Rightarrow> Inl err
        | Inr u \<Rightarrow>
            let host = removeEmptyPort (url_Host u) in
            Inr \<lparr>req_Method = method, req_URL = u\<lparr>url_Host := host\<rparr>, req_Host = host,
                 req_Header = [], req_Body = body, req_ContentLength = len,
                 req_TransferEncoding = [], req_RemoteAddr = [], req_TLS = False,
                 req_Context = ctx\<rparr>)"

section \<open>Path parameters\<close>

text \<open>
  Replacing every leftmost match of the pattern \<^verbatim>\<open>\{([^}]+)\}\<close>.  A brace without a closing one,
  or with nothing in between, is text.
\<close>

function replace_params :: "(string \<Rightarrow> string) \<Rightarrow> string \<Rightarrow> string" where
  "replace_params f [] = []"
| "replace_params f (c # s) =
     (let name = takeWhile (\<lambda>x. x \<noteq> CHR ''}'') s; rest = dropWhile (\<lambda>x. x \<noteq> CHR ''}'') s in
      if c = CHR ''{'' \<and> name \<noteq> [] \<and> rest \<noteq> [] then
        (if f name \<noteq> [] then f name else CHR ''{'' # name @ [CHR ''}'']) @ replace_params f (tl rest)
      else c # replace_params f s)"
  by pat_completeness auto

termination replace_params
proof (relation "measure (\<lambda>(f, s). length s)")
  show "wf (measure (\<lambda>(f, s). length s))" by simp
next
  fix f :: "string \<Rightarrow> string" and c s name rest
  assume "rest = dropWhile (\<lambda>x. x \<noteq> CHR ''}'') s"
  then have "length rest \<le> length s" by (simp add: length_dropWhile_le)
  then show "((f, tl rest), (f, c # s)) \<in> measure (\<lambda>(f, s). length s)" by simp
qed simp

definition expandPathParams :: "externals \<Rightarrow> string \<Rightarrow> Request \<Rightarrow> string" where
  "expandPathParams ext path req = replace_params (URLParam ext req) path"

section \<open>Query\<close>

text \<open>
  The loop over the forwarded query names: \<open>Inl\<close> is the early return with the whole query of
  the client, \<open>Inr\<close> the query built so far.
\<close>

fun query_loop :: "Values \<Rightarrow> string list \<Rightarrow> Values \<Rightarrow> string + Values" where
  "query_loop originalQ [] targetQ = Inr targetQ"
| "query_loop originalQ (pattern # ps) targetQ =
     (if pattern = ''*'' then Inl (Values_Encode originalQ)
      else
        let v = Values_Get originalQ pattern in
        query_loop originalQ ps (if v \<noteq> [] then Values_Add pattern v targetQ else targetQ))"

fun set_all :: "(string \<times> string) list \<Rightarrow> Values \<Rightarrow> Values" where
  "set_all [] q = q"
| "set_all ((k, v) # kvs) q = set_all kvs (Values_Set k v q)"

text \<open>The loop over the forwarded route parameters; both ways out encode the query built so far.\<close>

fun param_loop :: "externals \<Rightarrow> Request \<Rightarrow> string list \<Rightarrow> Values \<Rightarrow> Values" where
  "param_loop ext original [] targetQ = targetQ"
| "param_loop ext original (param # ps) targetQ =
     (if param = ''*'' then
        (case ctx_params (req_Context original) of
           None \<Rightarrow> targetQ
         | Some kvs \<Rightarrow> set_all kvs targetQ)
      else
        let v = URLParam ext original param in
        param_loop ext original ps (if v \<noteq> [] then Values_Set param v targetQ else targetQ))"

definition resolveQueries :: "externals \<Rightarrow> upstreamConfig \<Rightarrow> Request \<Rightarrow> Request \<Rightarrow> Request" where
  "resolveQueries ext cfg target original =
     (let targetQ = ParseQuery (url_RawQuery (req_URL target));
          originalQ = ParseQuery (url_RawQuery (req_URL original));
          raw = (case query_loop originalQ (uc_forwardQueries cfg) targetQ of
                   Inl s \<Rightarrow> s
                 | Inr q \<Rightarrow> Values_Encode (param_loop ext original (uc_forwardParams cfg) q))
      in target\<lparr>req_URL := (req_URL target)\<lparr>url_RawQuery := raw\<rparr>\<rparr>)"

section \<open>Headers\<close>

fun forwardHeadersByPrefix :: "Header \<Rightarrow> string \<Rightarrow> Header \<Rightarrow> Header" where
  "forwardHeadersByPrefix [] prefix_name target = target"
| "forwardHeadersByPrefix ((name, values) # src) prefix_name target =
     forwardHeadersByPrefix src prefix_name
       (if HasPrefix name prefix_name then hdr_AddAll name values target else target)"

fun header_loop :: "Header \<Rightarrow> string list \<Rightarrow> Header \<Rightarrow> Header" where
  "header_loop original [] target = target"
| "header_loop original (pattern # ps) target =
     (if pattern = ''*'' then original
      else if HasSuffix pattern ''*'' then
        header_loop original ps (forwardHeadersByPrefix original (TrimSuffix pattern ''*'') target)
      else
        let v = hdr_Get original pattern in
        header_loop original ps (if v \<noteq> [] then hdr_Add pattern v target else target))"

fun isTrustedProxy :: "IPNet list \<Rightarrow> IP \<Rightarrow> bool" where
  "isTrustedProxy [] ip = False"
| "isTrustedProxy (cidr # cidrs) ip = (if IPNet_Contains cidr ip then True else isTrustedProxy cidrs ip)"

definition resolvePort :: "string \<Rightarrow> bool \<Rightarrow> string" where
  "resolvePort host isTLS =
     (case SplitHostPort host of
        None \<Rightarrow> if isTLS then ''443'' else ''80''
      | Some (h, port) \<Rightarrow> port)"

definition effectiveHost :: "Request \<Rightarrow> string" where
  "effectiveHost req = (if req_Host req \<noteq> [] then req_Host req else url_Host (req_URL req))"

definition isValidPort :: "string \<Rightarrow> bool" where
  "isValidPort p = (case Atoi p of None \<Rightarrow> False | Some n \<Rightarrow> n \<ge> 1 \<and> n \<le> 65535)"

definition forwarded_hop :: "string \<Rightarrow> string \<Rightarrow> string \<Rightarrow> string" where
  "forwarded_hop clientIP proto host = ''for='' @ clientIP @ ''; proto='' @ proto @ ''; host='' @ host"

definition setUntrustedForwardingHeaders ::
  "Request \<Rightarrow> string \<Rightarrow> string \<Rightarrow> string \<Rightarrow> Header \<Rightarrow> Header" where
  "setUntrustedForwardingHeaders original clientIP proto port target =
     (let host = effectiveHost original in
      hdr_Set ''Forwarded'' (forwarded_hop clientIP proto host)
       (hdr_Set ''X-Forwarded-Port'' port
         (hdr_Set ''X-Forwarded-Host'' host
           (hdr_Set ''X-Forwarded-Proto'' proto
             (hdr_Set ''X-Forwarded-For'' clientIP target)))))"

definition appendTrustedForwardingHeaders ::
  "Request \<Rightarrow> string \<Rightarrow> string \<Rightarrow> string \<Rightarrow> Header \<Rightarrow> Header" where
  "appendTrustedForwardingHeaders original clientIP proto0 port target =
     (let get = hdr_Get (req_Header original);
          xff = get ''X-Forwarded-For'';
          t1 = hdr_Set ''X-Forwarded-For'' (if xff \<noteq> [] then xff @ '', '' @ clientIP else clientIP) target;
          p = get ''X-Forwarded-Proto'';
          proto = (if p = ''http'' \<or> p = ''https'' then p else proto0);
          t2 = hdr_Set ''X-Forwarded-Proto'' proto t1;
          h = get ''X-Forwarded-Host'';
          host = (if h \<noteq> [] then h else effectiveHost original);
          t3 = hdr_Set ''X-Forwarded-Host'' host t2;
          fp = get ''X-Forwarded-Port'';
          t4 = hdr_Set ''X-Forwarded-Port'' (if isValidPort fp then fp else port) t3;
          hop = forwarded_hop clientIP proto host;
          fwd = get ''Forwarded''
      in hdr_Set ''Forwarded'' (if fwd \<noteq> [] then fwd @ '', '' @ hop else hop) t4)"

definition resolveHeaders :: "upstreamConfig \<Rightarrow> Request \<Rightarrow> Request \<Rightarrow> Request" where
  "resolveHeaders cfg target original =
     (let h0 = header_loop (req_Header original) (uc_forwardHeaders cfg) (req_Header target);
          h1 = hdr_Set ''Content-Type'' (hdr_Get (req_Header original) ''Content-Type'') h0;
          cip = clientIPFromContext (req_Context original);
          clientIP = (if cip = [] then extractClientIP original (uc_trustedProxies cfg) else cip);
          parsed = ParseIP clientIP;
          port = resolvePort (effectiveHost original) (req_TLS original);
          proto = (if req_TLS original then ''https'' else ''http'')
      in target\<lparr>req_Header :=
           if parsed = [] then h1
           else if \<not> isTrustedProxy (uc_trustedProxies cfg) parsed
           then setUntrustedForwardingHeaders original clientIP proto port h1
           else appendTrustedForwardingHeaders original clientIP proto port h1\<rparr>)"

section \<open>The request to an upstream\<close>

definition upstream_url :: "string \<Rightarrow> string \<Rightarrow> string" where
  "upstream_url targetHost path0 =
     (let path = TrimPrefix path0 ''/'' in
      if HasSuffix targetHost ''/'' then targetHost @ path else targetHost @ ''/'' @ path)"

definition effective_method :: "upstreamConfig \<Rightarrow> Request \<Rightarrow> string" where
  "effective_method cfg original = (if uc_method cfg = [] then req_Method original else uc_method cfg)"

definition newRequest ::
  "externals \<Rightarrow> upstreamConfig \<Rightarrow> Context \<Rightarrow> Request \<Rightarrow> bytes \<Rightarrow> string \<Rightarrow> go_error + Request" where
  "newRequest ext cfg ctx original originalBody targetHost =
     (let hostPath = upstream_url targetHost (expandPathParams ext (uc_path cfg) original);
          method = effective_method cfg original;
          body = (if method \<noteq> ''POST'' \<and> method \<noteq> ''PUT'' \<and> method \<noteq> ''PATCH'' \<and> method \<noteq> ''QUERY''
                  then [] else originalBody)
      in
      case http_NewRequest ext ctx method hostPath (body_of body) (int (length body)) of
        Inl err \<Rightarrow> Inl err
      | Inr target \<Rightarrow> Inr (resolveHeaders cfg (resolveQueries ext cfg target original) original))"

section \<open>Lemmas\<close>

lemma isTrustedProxy_iff: "isTrustedProxy ns ip \<longleftrightarrow> ipInNets ip ns"
  by (induction ns) auto

text \<open>The header names under which the gateway itself writes.\<close>

definition gateway_headers :: "string set" where
  "gateway_headers = {''Content-Type'', ''X-Forwarded-For'', ''X-Forwarded-Proto'',
     ''X-Forwarded-Host'', ''X-Forwarded-Port'', ''Forwarded''}"

text \<open>The header names a pattern of the configuration lets through.\<close>

definition pattern_admits :: "string \<Rightarrow> string \<Rightarrow> bool" where
  "pattern_admits p k \<longleftrightarrow>
     p = ''*'' \<or>
     (if HasSuffix p ''*'' then HasPrefix k (TrimSuffix p ''*'') else canon p = k)"

lemma forwardHeadersByPrefix_other:
  "(\<And>n. n \<in> fst ` set src \<Longrightarrow> canon n = n) \<Longrightarrow> \<not> HasPrefix k pre \<Longrightarrow>
     hdr_values (forwardHeadersByPrefix src pre target) k = hdr_values target k"
proof (induction src arbitrary: target)
  case (Cons nv src)
  obtain n vs where nv: "nv = (n, vs)" by force
  with Cons.prems have "canon n = n" by force
  with Cons nv show ?case by (auto simp: header_simps)
qed simp

lemma header_loop_other:
  "(\<And>n. n \<in> fst ` set original \<Longrightarrow> canon n = n) \<Longrightarrow>
   list_all (\<lambda>p. \<not> pattern_admits p k) ps \<Longrightarrow>
     hdr_values (header_loop original ps target) k = hdr_values target k"
  by (induction ps arbitrary: target)
    (auto simp: pattern_admits_def header_simps Let_def forwardHeadersByPrefix_other split: if_splits)

lemma forwarding_headers_other:
  assumes "k \<notin> gateway_headers"
  shows "hdr_values (setUntrustedForwardingHeaders original c proto port h) k = hdr_values h k"
    and "hdr_values (appendTrustedForwardingHeaders original c proto port h) k = hdr_values h k"
  using assms
  by (simp_all add: setUntrustedForwardingHeaders_def appendTrustedForwardingHeaders_def Let_def
      gateway_headers_def header_simps)

lemma query_loop_star:
  "''*'' \<in> set ps \<Longrightarrow> query_loop q ps t = Inl (Values_Encode q)"
  by (induction ps arbitrary: t) (auto simp: Let_def)

lemma query_loop_other:
  "''*'' \<notin> set ps \<Longrightarrow> k \<notin> set ps \<Longrightarrow>
     \<exists>q'. query_loop q ps t = Inr q' \<and> vals_of q' k = vals_of t k \<and>
       (distinct (map fst t) \<longrightarrow> distinct (map fst q'))"
proof (induction ps arbitrary: t)
  case (Cons p ps)
  let ?t = "if Values_Get q p \<noteq> [] then Values_Add p (Values_Get q p) t else t"
  have "vals_of ?t k = vals_of t k" using Cons.prems by (simp add: vals_of_Add)
  moreover have "distinct (map fst t) \<Longrightarrow> distinct (map fst ?t)"
    by (simp add: Values_Add_def distinct_update)
  ultimately show ?case using Cons.IH [of ?t] Cons.prems by (auto simp: Let_def)
qed simp

lemma param_loop_other:
  "''*'' \<notin> set ps \<Longrightarrow> k \<notin> set ps \<Longrightarrow>
     vals_of (param_loop ext original ps t) k = vals_of t k"
  by (induction ps arbitrary: t) (auto simp: Let_def vals_of_Set)

lemma distinct_set_all: "distinct (map fst q) \<Longrightarrow> distinct (map fst (set_all kvs q))"
  by (induction kvs q rule: set_all.induct) (auto simp: Values_Set_def distinct_update)

lemma distinct_param_loop:
  "distinct (map fst t) \<Longrightarrow> distinct (map fst (param_loop ext original ps t))"
  by (induction ps arbitrary: t)
    (auto simp: Let_def Values_Set_def distinct_update distinct_set_all split: option.splits)

lemma resolveHeaders_untrusted:
  assumes "clientIPFromContext (req_Context original) = cip" "cip \<noteq> []" "ParseIP cip \<noteq> []"
    and "\<not> ipInNets (ParseIP cip) (uc_trustedProxies cfg)"
  shows "let h = req_Header (resolveHeaders cfg target original);
             proto = (if req_TLS original then ''https'' else ''http'') in
    hdr_values h ''X-Forwarded-For'' = [cip] \<and>
    hdr_values h ''X-Forwarded-Proto'' = [proto] \<and>
    hdr_values h ''X-Forwarded-Host'' = [effectiveHost original] \<and>
    hdr_values h ''X-Forwarded-Port'' = [resolvePort (effectiveHost original) (req_TLS original)] \<and>
    hdr_values h ''Forwarded'' = [''for='' @ cip @ ''; proto='' @ proto @ ''; host='' @ effectiveHost original]"
  using assms
  by (simp add: resolveHeaders_def Let_def isTrustedProxy_iff setUntrustedForwardingHeaders_def
      header_simps forwarded_hop_def)

section \<open>Properties\<close>


definition sample_request :: Request where
  "sample_request = \<lparr>req_Method = ''GET'',
     req_URL = \<lparr>url_Path = ''/users/7'', url_RawQuery = ''page=2&debug=1'', url_Host = []\<rparr>,
     req_Host = ''api.example.org'',
     req_Header = [(''X-Forwarded-For'', [''1.1.1.1'']), (''X-Trace'', [''t'']), (''Cookie'', [''s''])],
     req_Body = [], req_ContentLength = 0, req_TransferEncoding = [],
     req_RemoteAddr = ''203.0.113.7:4711'', req_TLS = True,
     req_Context = empty_context\<lparr>ctx_clientIP := Some ''203.0.113.7''\<rparr>\<rparr>"

definition sample_target :: Request where
  "sample_target = \<lparr>req_Method = ''GET'',
     req_URL = \<lparr>url_Path = ''/users/7'', url_RawQuery = ''v=1'', url_Host = ''a''\<rparr>, req_Host = ''a'',
     req_Header = [], req_Body = [], req_ContentLength = 0, req_TransferEncoding = [],
     req_RemoteAddr = [], req_TLS = False, req_Context = empty_context\<rparr>"


text \<open>
  A request that reaches the gateway through trusted proxies, on behalf of an IPv4 client
  outside them, loses the forwarding headers those proxies wrote: the chain is replaced by the
  client alone and the scheme by the one between the last proxy and the gateway.
\<close>

theorem trusted_proxy_headers_overwritten:
  assumes "remoteIP original \<noteq> []" "ipInNets (remoteIP original) nets"
    and "outside_hop nets client" "list_all (trusted_hop nets) proxies"
    and "CHR '','' \<notin> set client" "\<forall>p \<in> set proxies. CHR '','' \<notin> set p"
    and "hdr_Get (req_Header original) ''X-Forwarded-For'' =
      forged @ '','' @ Join (client # proxies) '',''"
    and "ParseIP (TrimSpace client) = v4InV6Prefix @ v4" "length v4 = 4"
    and "uc_trustedProxies cfg = nets"
    and "clientIPFromContext (req_Context original) = extractClientIP original nets"
  shows "let h = req_Header (resolveHeaders cfg target original) in
    hdr_values h ''X-Forwarded-For'' = [IP_String (v4InV6Prefix @ v4)] \<and>
    hdr_values h ''X-Forwarded-Proto'' = [if req_TLS original then ''https'' else ''http'']"
proof -
  let ?ip = "v4InV6Prefix @ v4"
  have c: "extractClientIP original nets = IP_String ?ip"
    using extractClientIP_chain [OF assms(1-7)] assms(8) by simp
  have p: "ParseIP (IP_String ?ip) = ?ip" using assms(9) by (rule ParseIP_String_v4)
  have ne: "?ip \<noteq> []" using assms(9) by auto
  with p have "IP_String ?ip \<noteq> []" by (auto simp: ParseIP_def)
  moreover have "\<not> ipInNets ?ip nets" using assms(3,8) by (simp add: outside_hop_def)
  ultimately show ?thesis
    using resolveHeaders_untrusted [of original "IP_String ?ip" cfg target] assms(10,11) c p ne
    by (auto simp: Let_def)
qed

theorem trusted_proxy_headers_overwritten_witness:
  "hdr_values (req_Header (resolveHeaders
     (sample_upstream_config\<lparr>uc_trustedProxies := [\<lparr>ipn_IP = [10, 0, 0, 0], ipn_Mask = [255, 0, 0, 0]\<rparr>]\<rparr>)
     sample_target
     (sample_request\<lparr>req_Header := [(''X-Forwarded-For'', [''9.9.9.9,203.0.113.7'']),
        (''X-Forwarded-Proto'', [''https''])], req_RemoteAddr := ''10.0.0.1:80'', req_TLS := False\<rparr>)))
     ''X-Forwarded-Proto'' = [''http'']"
proof -
  let ?nets = "[\<lparr>ipn_IP = [10, 0, 0, 0], ipn_Mask = [255, 0, 0, 0]\<rparr>]"
  let ?r = "sample_request\<lparr>req_Header := [(''X-Forwarded-For'', [''9.9.9.9,203.0.113.7'']),
        (''X-Forwarded-Proto'', [''https''])], req_RemoteAddr := ''10.0.0.1:80'', req_TLS := False\<rparr>"
  have peer: "remoteIP ?r = v4InV6Prefix @ [10, 0, 0, 1]" by code_simp
  have nets: "ipInNets (v4InV6Prefix @ [10, 0, 0, 1]) ?nets"
    "\<not> ipInNets (v4InV6Prefix @ [203, 0, 113, 7]) ?nets" by code_simp+
  have trim: "TrimSpace ''203.0.113.7'' = ''203.0.113.7''" by (simp add: TrimSpace_graphic graphic_def)
  have ip: "ParseIP ''203.0.113.7'' = v4InV6Prefix @ [203, 0, 113, 7]" by code_simp
  have xff: "hdr_Get (req_Header ?r) ''X-Forwarded-For'' = ''9.9.9.9'' @ '','' @ Join [''203.0.113.7''] '',''"
    by (simp add: hdr_Get_def hdr_values_def)
  have out: "outside_hop ?nets ''203.0.113.7''" using nets(2) by (simp add: outside_hop_def trim ip)
  have str: "IP_String (v4InV6Prefix @ [203, 0, 113, 7]) = ''203.0.113.7''" by code_simp
  have "extractClientIP ?r ?nets = ''203.0.113.7''"
    using extractClientIP_chain [OF _ _ out _ _ _ xff] nets(1) by (simp add: peer trim ip str)
  then have "clientIPFromContext (req_Context ?r) = extractClientIP ?r ?nets"
    by (simp add: sample_request_def clientIPFromContext_def)
  with trusted_proxy_headers_overwritten [of ?r ?nets "''203.0.113.7''" "[]" "''9.9.9.9''"
      "[203, 0, 113, 7]" "sample_upstream_config\<lparr>uc_trustedProxies := ?nets\<rparr>" sample_target]
    peer nets out xff trim ip
  show ?thesis by (simp add: Let_def)
qed

text \<open>
  C13. Only configured headers travel to the upstream: a header that no pattern admits and that
  the gateway does not write itself is absent from the request.
\<close>

theorem unlisted_headers_not_forwarded:
  assumes "newRequest ext cfg ctx original body host = Inr t"
    and "\<And>n. n \<in> fst ` set (req_Header original) \<Longrightarrow> canon n = n"
    and "list_all (\<lambda>p. \<not> pattern_admits p k) (uc_forwardHeaders cfg)"
    and "k \<notin> gateway_headers"
  shows "hdr_values (req_Header t) k = []"
proof -
  obtain target where t: "t = resolveHeaders cfg (resolveQueries ext cfg target original) original"
    and "req_Header target = []"
    using assms(1)
    by (auto simp: newRequest_def http_NewRequest_def Let_def split: sum.splits if_splits)
  then have "req_Header (resolveQueries ext cfg target original) = []"
    by (simp add: resolveQueries_def Let_def)
  moreover from assms(4) have "k \<noteq> ''Content-Type''" by (auto simp: gateway_headers_def)
  ultimately show ?thesis
    using assms(4) header_loop_other [of "req_Header original", OF assms(2,3), of "[]"]
    by (simp add: t resolveHeaders_def Let_def forwarding_headers_other header_simps)
qed

definition sample_externals :: externals where
  "sample_externals = \<lparr>url_Parse = (\<lambda>s. Inr \<lparr>url_Path = s, url_RawQuery = [], url_Host = ''a''\<rparr>),
     URLParam = (\<lambda>r k. if k = ''id'' then ''7'' else []), otel_Inject = (\<lambda>ctx h. h)\<rparr>"

theorem unlisted_headers_not_forwarded_witness:
  "(case newRequest sample_externals sample_upstream_config empty_context sample_request [] ''http://a'' of
      Inl e \<Rightarrow> False | Inr t \<Rightarrow> hdr_values (req_Header t) ''Cookie'' = [])"
proof -
  have m: "effective_method sample_upstream_config sample_request = ''GET''"
    by (simp add: effective_method_def sample_upstream_config_def sample_request_def)
  have v: "validMethod ''GET''" by code_simp
  obtain t where t: "newRequest sample_externals sample_upstream_config empty_context sample_request []
      ''http://a'' = Inr t"
    by (simp add: newRequest_def http_NewRequest_def Let_def m v sample_externals_def)
  have "canon n = n" if "n \<in> fst ` set (req_Header sample_request)" for n
  proof -
    have "canon ''X-Trace'' = ''X-Trace''" "canon ''Cookie'' = ''Cookie''" by code_simp+
    with that show ?thesis by (auto simp: sample_request_def)
  qed
  moreover have "list_all (\<lambda>p. \<not> pattern_admits p ''Cookie'') (uc_forwardHeaders sample_upstream_config)"
    by (simp add: sample_upstream_config_def pattern_admits_def TrimSuffix_def suffix_def)
  ultimately show ?thesis
    using unlisted_headers_not_forwarded [OF t, of "''Cookie''"] t by (simp add: gateway_headers_def)
qed

text \<open>
  With \<^verbatim>\<open>*\<close> among the forwarded queries the upstream decodes exactly the query the client sent,
  whatever else is configured (route parameters are not added then).
\<close>

theorem star_forwards_whole_query:
  assumes "''*'' \<in> set (uc_forwardQueries cfg)"
  shows "vals_of (ParseQuery (url_RawQuery (req_URL (resolveQueries ext cfg target original)))) k =
    vals_of (ParseQuery (url_RawQuery (req_URL original))) k"
  using assms
  by (simp add: resolveQueries_def Let_def query_loop_star ParseQuery_Encode)

theorem star_forwards_whole_query_witness:
  "vals_of (ParseQuery (url_RawQuery (req_URL (resolveQueries sample_externals
     (sample_upstream_config\<lparr>uc_forwardQueries := [''*'']\<rparr>) sample_target sample_request)))) ''debug'' =
   [''1'']"
proof -
  have "vals_of (ParseQuery ''page=2&debug=1'') ''debug'' = [''1'']" by code_simp
  then show ?thesis
    using star_forwards_whole_query [of "sample_upstream_config\<lparr>uc_forwardQueries := [''*'']\<rparr>"
      sample_externals sample_target sample_request "''debug''"]
    by (simp add: sample_request_def)
qed

text \<open>
  Without a wildcard only the named queries and route parameters reach the upstream: under
  every other name it decodes what its own configured URL says.
\<close>

theorem unlisted_queries_not_forwarded:
  assumes "''*'' \<notin> set (uc_forwardQueries cfg)" "''*'' \<notin> set (uc_forwardParams cfg)"
    and "k \<notin> set (uc_forwardQueries cfg)" "k \<notin> set (uc_forwardParams cfg)"
  shows "vals_of (ParseQuery (url_RawQuery (req_URL (resolveQueries ext cfg target original)))) k =
    vals_of (ParseQuery (url_RawQuery (req_URL target))) k"
proof -
  let ?t = "ParseQuery (url_RawQuery (req_URL target))"
  let ?o = "ParseQuery (url_RawQuery (req_URL original))"
  obtain q where q: "query_loop ?o (uc_forwardQueries cfg) ?t = Inr q"
    "vals_of q k = vals_of ?t k" "distinct (map fst q)"
    using query_loop_other [OF assms(1,3), of ?o ?t] by auto
  then show ?thesis
    using param_loop_other [OF assms(2,4), of ext original q]
      ParseQuery_Encode [OF distinct_param_loop [OF q(3)], of ext original]
    by (simp add: resolveQueries_def Let_def)
qed

theorem unlisted_queries_not_forwarded_witness:
  "vals_of (ParseQuery (url_RawQuery (req_URL (resolveQueries sample_externals
     sample_upstream_config sample_target sample_request)))) ''debug'' = []"
proof -
  have "vals_of (ParseQuery ''v=1'') ''debug'' = []" by code_simp
  then show ?thesis
    using unlisted_queries_not_forwarded [of sample_upstream_config "''debug''"
      sample_externals sample_target sample_request]
    by (simp add: sample_upstream_config_def sample_target_def)
qed

end
