(* ===== verification/Responses.thy ===== *)
theory Responses
  imports Go_Http
begin

text \<open>
  \<^verbatim>\<open>response.go\<close>: the client-facing error codes, the RFC 9457 problem document and
  \<^verbatim>\<open>WriteError\<close>.  The JSON encoder (package \<^verbatim>\<open>github.com/goccy/go-json\<close>) is a parameter: a
  function from the document to the bytes it encodes to, or an error.
\<close>

section \<open>Client errors\<close>

text \<open>
  \<^verbatim>\<open>ClientError\<close> is a string type with twelve named values; \<open>OtherClientErr\<close> stands for any
  other string, the zero value \<open>''''\<close> among them.
\<close>

datatype ClientError =
    ClientErrRateLimitExceeded
  | ClientErrPayloadTooLarge
  | ClientErrUpstreamBodyTooLarge
  | ClientErrUpstreamUnavailable
  | ClientErrUpstreamError
  | ClientErrUpstreamClientError
  | ClientErrUpstreamRedirect
  | ClientErrUpstreamMalformed
  | ClientErrInternal
  | ClientErrAborted
  | ClientErrValueConflict
  | ClientErrUnauthorized
  | OtherClientErr string

fun ClientError_String :: "ClientError \<Rightarrow> string" where
  "ClientError_String ClientErrRateLimitExceeded = ''RATE_LIMIT_EXCEEDED''"
| "ClientError_String ClientErrPayloadTooLarge = ''PAYLOAD_TOO_LARGE''"
| "ClientError_String ClientErrUpstreamBodyTooLarge = ''UPSTREAM_BODY_TOO_LARGE''"
| "ClientError_String ClientErrUpstreamUnavailable = ''UPSTREAM_UNAVAILABLE''"
| "ClientError_String ClientErrUpstreamError = ''UPSTREAM_ERROR''"
| "ClientError_String ClientErrUpstreamClientError = ''UPSTREAM_CLIENT_ERROR''"
| "ClientError_String ClientErrUpstreamRedirect = ''UPSTREAM_REDIRECT''"
| "ClientError_String ClientErrUpstreamMalformed = ''UPSTREAM_MALFORMED''"
| "ClientError_String ClientErrInternal = ''INTERNAL''"
| "ClientError_String ClientErrAborted = ''ABORTED''"
| "ClientError_String ClientErrValueConflict = ''VALUE_CONFLICT''"
| "ClientError_String ClientErrUnauthorized = ''UNAUTHORIZED''"
| "ClientError_String (OtherClientErr s) = s"

definition problemTitles :: "(ClientError, string) gomap" where
  "problemTitles =
     [(ClientErrRateLimitExceeded, ''Rate limit exceeded''),
      (ClientErrPayloadTooLarge, ''Request payload too large''),
      (ClientErrUpstreamBodyTooLarge, ''Upstream response too large''),
      (ClientErrUpstreamUnavailable, ''Upstream unavailable''),
      (ClientErrUpstreamError, ''Upstream returned a server error''),
      (ClientErrUpstreamClientError, ''Upstream rejected the request''),
      (ClientErrUpstreamRedirect, ''Upstream returned a redirect''),
      (ClientErrUpstreamMalformed, ''Upstream response failed gateway policy''),
      (ClientErrInternal, ''Internal gateway error''),
      (ClientErrAborted, ''Request aborted before the upstream responded''),
      (ClientErrValueConflict, ''Conflicting values from upstreams''),
      (ClientErrUnauthorized, ''Unauthorized'')]"

definition problemTitle :: "ClientError \<Rightarrow> string" where
  "problemTitle e =
     (case map_of problemTitles e of Some title \<Rightarrow> title | None \<Rightarrow> ClientError_String e)"

section \<open>Problem documents\<close>

record ProblemDetails =
  pd_type :: string
  pd_title :: string
  pd_status :: int
  pd_detail :: string
  pd_errors :: "ClientError list"

definition problemTypeBlank :: string where
  "problemTypeBlank = ''about:blank''"

type_synonym problem_encoder = "ProblemDetails \<Rightarrow> go_error + bytes"

text \<open>The stream encoder of the library ends a document with a newline.\<close>

definition WriteError ::
  "problem_encoder \<Rightarrow> ResponseWriter \<Rightarrow> ClientError \<Rightarrow> int \<Rightarrow> ResponseWriter go" where
  "WriteError enc w code status =
     Option.bind
       (rw_WriteHeader status (rw_edit (hdr_Set ''Content-Type'' ''application/problem+json'') w))
       (\<lambda>w'.
         let problem = \<lparr>pd_type = problemTypeBlank, pd_title = problemTitle code,
                        pd_status = status, pd_detail = [], pd_errors = [code]\<rparr> in
         case enc problem of
           Inl err \<Rightarrow> http_Error (StatusText status) status w'
         | Inr data \<Rightarrow>
             (case rw_Write (data @ [CHR 0x0A]) w' of
                (None, w'') \<Rightarrow> Some w''
              | (Some err, w'') \<Rightarrow> http_Error (StatusText status) status w''))"

text \<open>
  What a client sees of \<^verbatim>\<open>WriteError\<close> on a fresh writer: the given status with the problem
  content type and the encoded document as the body.
\<close>

lemma WriteError_fresh:
  assumes "rw_sent w = None" and "final_status status" and "body_allowed status"
    and "enc \<lparr>pd_type = problemTypeBlank, pd_title = problemTitle code, pd_status = status,
              pd_detail = [], pd_errors = [code]\<rparr> = Inr data"
  shows "WriteError enc w code status =
    Some (w\<lparr>rw_header := hdr_Set ''Content-Type'' ''application/problem+json'' (rw_header w),
            rw_sent := Some (status,
              hdr_Set ''Content-Type'' ''application/problem+json'' (rw_header w)),
            rw_body := rw_body w @ data @ [CHR 0x0A]\<rparr>)"
  using assms
  by (simp add: WriteError_def rw_WriteHeader_fresh rw_Write_def rw_edit_def Let_def)

text \<open>Whatever the encoder does, a fresh writer ends up with the given status sent.\<close>

lemma WriteError_status:
  assumes "rw_sent w = None" and "final_status status"
  shows "\<exists>w' h. WriteError enc w code status = Some w' \<and> rw_sent w' = Some (status, h) \<and>
           hdr_values h ''Content-Type'' = [''application/problem+json'']"
  using assms
  by (auto simp: WriteError_def rw_WriteHeader_fresh rw_WriteHeader_again http_Error_def
      rw_edit_def Let_def rw_Write_def header_simps split: sum.splits)

end
