(* ===== verification/Upstream_Error.thy ===== *)
theory Upstream_Error
  imports Responses
begin

text \<open>
  \<^verbatim>\<open>upstream_error.go\<close>: the kinds of upstream failure, the table of facts about each kind, and
  the questions the retry, breaker, policy and response layers ask of it.
\<close>

section \<open>Kinds\<close>

text \<open>A string type with eleven named values; \<open>OtherKind\<close> is any other string.\<close>

datatype upstreamErrorKind =
    upstreamTimeout
  | upstreamCanceled
  | upstreamConnection
  | upstreamRedirect
  | upstreamClientError
  | upstreamBadStatus
  | upstreamReadError
  | upstreamBodyTooLarge
  | upstreamCircuitOpen
  | upstreamInternal
  | upstreamPolicyViolation
  | OtherKind string

record upstreamError =
  ue_kind :: upstreamErrorKind
  ue_err :: go_error

datatype breakerOutcome = breakerNoSignal | breakerSuccess | breakerFailure

datatype retryEligibility = retryNever | retryAlways | retryByStatus

record kindProps =
  kp_breaker :: breakerOutcome
  kp_retry :: retryEligibility
  kp_hasBody :: bool
  kp_propagatable :: bool
  kp_clientErr :: ClientError

definition kindTable :: "(upstreamErrorKind, kindProps) gomap" where
  "kindTable =
     [(upstreamTimeout, \<lparr>kp_breaker = breakerFailure, kp_retry = retryAlways, kp_hasBody = False,
         kp_propagatable = False, kp_clientErr = ClientErrUpstreamUnavailable\<rparr>),
      (upstreamConnection, \<lparr>kp_breaker = breakerFailure, kp_retry = retryAlways, kp_hasBody = False,
         kp_propagatable = False, kp_clientErr = ClientErrUpstreamUnavailable\<rparr>),
      (upstreamCanceled, \<lparr>kp_breaker = breakerNoSignal, kp_retry = retryNever, kp_hasBody = False,
         kp_propagatable = False, kp_clientErr = ClientErrAborted\<rparr>),
      (upstreamCircuitOpen, \<lparr>kp_breaker = breakerNoSignal, kp_retry = retryNever, kp_hasBody = False,
         kp_propagatable = False, kp_clientErr = ClientErrUpstreamUnavailable\<rparr>),
      (upstreamInternal, \<lparr>kp_breaker = breakerNoSignal, kp_retry = retryNever, kp_hasBody = False,
         kp_propagatable = False, kp_clientErr = ClientErrInternal\<rparr>),
      (upstreamReadError, \<lparr>kp_breaker = breakerFailure, kp_retry = retryNever, kp_hasBody = False,
         kp_propagatable = False, kp_clientErr = ClientErrInternal\<rparr>),
      (upstreamBodyTooLarge, \<lparr>kp_breaker = breakerSuccess, kp_retry = retryNever, kp_hasBody = False,
         kp_propagatable = False, kp_clientErr = ClientErrUpstreamBodyTooLarge\<rparr>),
      (upstreamBadStatus, \<lparr>kp_breaker = breakerFailure, kp_retry = retryByStatus, kp_hasBody = True,
         kp_propagatable = False, kp_clientErr = ClientErrUpstreamError\<rparr>),
      (upstreamClientError, \<lparr>kp_breaker = breakerSuccess, kp_retry = retryByStatus, kp_hasBody = True,
         kp_propagatable = True, kp_clientErr = ClientErrUpstreamClientError\<rparr>),
      (upstreamRedirect, \<lparr>kp_breaker = breakerSuccess, kp_retry = retryNever, kp_hasBody = True,
         kp_propagatable = True, kp_clientErr = ClientErrUpstreamRedirect\<rparr>),
      (upstreamPolicyViolation, \<lparr>kp_breaker = breakerSuccess, kp_retry = retryNever, kp_hasBody = False,
         kp_propagatable = False, kp_clientErr = ClientErrUpstreamMalformed\<rparr>)]"

definition allUpstreamErrorKinds :: "upstreamErrorKind list" where
  "allUpstreamErrorKinds =
     [upstreamTimeout, upstreamCanceled, upstreamConnection, upstreamRedirect,
      upstreamClientError, upstreamBadStatus, upstreamReadError, upstreamBodyTooLarge,
      upstreamCircuitOpen, upstreamInternal, upstreamPolicyViolation]"

text \<open>\<^verbatim>\<open>init\<close> panics when a kind has no entry in the table.\<close>

fun init_kinds :: "upstreamErrorKind list \<Rightarrow> unit go" where
  "init_kinds [] = Some ()"
| "init_kinds (k # ks) = (case map_of kindTable k of None \<Rightarrow> None | Some p \<Rightarrow> init_kinds ks)"

definition unknownKindProps :: kindProps where
  "unknownKindProps = \<lparr>kp_breaker = breakerNoSignal, kp_retry = retryNever, kp_hasBody = False,
     kp_propagatable = False, kp_clientErr = ClientErrInternal\<rparr>"

definition kind_props :: "upstreamErrorKind \<Rightarrow> kindProps" where
  "kind_props k = (case map_of kindTable k of Some p \<Rightarrow> p | None \<Rightarrow> unknownKindProps)"

section \<open>Questions\<close>

definition breakerOutcomeFor :: "upstreamError option \<Rightarrow> breakerOutcome" where
  "breakerOutcomeFor uerr =
     (case uerr of None \<Rightarrow> breakerSuccess | Some e \<Rightarrow> kp_breaker (kind_props (ue_kind e)))"

definition isStatusFailure :: "upstreamErrorKind \<Rightarrow> bool" where
  "isStatusFailure k = kp_hasBody (kind_props k)"

definition isPropagatable :: "upstreamErrorKind \<Rightarrow> bool" where
  "isPropagatable k = kp_propagatable (kind_props k)"

definition mapUpstreamError :: "upstreamError option \<Rightarrow> ClientError" where
  "mapUpstreamError err =
     (case err of None \<Rightarrow> ClientErrInternal | Some e \<Rightarrow> kp_clientErr (kind_props (ue_kind e)))"

lemmas kind_defs [kind_simps] =
  kind_props_def kindTable_def unknownKindProps_def isStatusFailure_def isPropagatable_def
  breakerOutcomeFor_def mapUpstreamError_def

lemma isStatusFailure_iff:
  "isStatusFailure k \<longleftrightarrow> k \<in> {upstreamRedirect, upstreamClientError, upstreamBadStatus}"
  by (cases k) (simp_all add: kind_simps)

lemma isPropagatable_iff:
  "isPropagatable k \<longleftrightarrow> k \<in> {upstreamRedirect, upstreamClientError}"
  by (cases k) (simp_all add: kind_simps)

lemma breakerOutcome_NoSignal_iff:
  "breakerOutcomeFor (Some e) = breakerNoSignal \<longleftrightarrow>
     ue_kind e \<in> {upstreamCanceled, upstreamCircuitOpen, upstreamInternal} \<or>
     (\<exists>s. ue_kind e = OtherKind s)"
  by (cases "ue_kind e") (simp_all add: kind_simps)

section \<open>What an upstream call returns\<close>

text \<open>
  \<^verbatim>\<open>upstreamResponse\<close> of \<^verbatim>\<open>upstream.go\<close>; it is declared here because the aggregator and the
  router consume it without looking at how it was made.  A nil header map is \<open>None\<close>.
\<close>

record upstreamResponse =
  ur_status :: int
  ur_headers :: "Header option"
  ur_body :: bytes
  ur_err :: "upstreamError option"

definition failed_with :: "upstreamErrorKind \<Rightarrow> go_error \<Rightarrow> upstreamResponse" where
  "failed_with k e = \<lparr>ur_status = 0, ur_headers = None, ur_body = [],
     ur_err = Some \<lparr>ue_kind = k, ue_err = e\<rparr>\<rparr>"

lemma failed_with_simps [simp]:
  "ur_err (failed_with k e) = Some \<lparr>ue_kind = k, ue_err = e\<rparr>"
  "ur_status (failed_with k e) = 0" "ur_body (failed_with k e) = []"
  by (simp_all add: failed_with_def)

section \<open>Properties\<close>

text \<open>
  The table is complete: the start-up check passes, every kind the package names is in the
  checked list, and the facts of such a kind come from the table and never from the fallback.
\<close>

theorem kind_table_complete:
  "init_kinds allUpstreamErrorKinds = Some () \<and>
   (\<forall>k. k \<in> set allUpstreamErrorKinds \<or> (\<exists>s. k = OtherKind s)) \<and>
   (\<forall>k. map_of kindTable k = Some (kind_props k) \<or>
        (\<exists>s. k = OtherKind s) \<and> kind_props k = unknownKindProps)"
proof (intro conjI allI)
  show "init_kinds allUpstreamErrorKinds = Some ()"
    by (simp add: allUpstreamErrorKinds_def kindTable_def)
  fix k
  show "k \<in> set allUpstreamErrorKinds \<or> (\<exists>s. k = OtherKind s)"
    by (cases k) (simp_all add: allUpstreamErrorKinds_def)
  show "map_of kindTable k = Some (kind_props k) \<or>
      (\<exists>s. k = OtherKind s) \<and> kind_props k = unknownKindProps"
    by (cases k) (simp_all add: kind_props_def kindTable_def)
qed

text \<open>
  The layers agree on a kind: what is forwarded to the client as it is carries a response of
  the upstream and counts as a sign of life; what never left the gateway is neither retried nor
  reported to the breaker; and what is retried whatever its status is always a failure for the
  breaker.
\<close>

theorem kind_layers_agree:
  "(isPropagatable k \<longrightarrow> isStatusFailure k \<and>
      breakerOutcomeFor (Some \<lparr>ue_kind = k, ue_err = e\<rparr>) = breakerSuccess) \<and>
   (breakerOutcomeFor (Some \<lparr>ue_kind = k, ue_err = e\<rparr>) = breakerNoSignal \<longrightarrow>
      kp_retry (kind_props k) = retryNever \<and> \<not> isStatusFailure k) \<and>
   (kp_retry (kind_props k) = retryAlways \<longrightarrow>
      breakerOutcomeFor (Some \<lparr>ue_kind = k, ue_err = e\<rparr>) = breakerFailure \<and> \<not> isStatusFailure k) \<and>
   (kp_retry (kind_props k) = retryByStatus \<longrightarrow> isStatusFailure k)"
  by (cases k) (simp_all add: kind_simps)

theorem kind_layers_agree_witness:
  "isPropagatable upstreamRedirect \<and> isStatusFailure upstreamRedirect \<and>
   kp_retry (kind_props upstreamTimeout) = retryAlways \<and>
   breakerOutcomeFor (Some \<lparr>ue_kind = upstreamTimeout, ue_err = ErrDeadlineExceeded\<rparr>)
     = breakerFailure"
proof -
  have "isPropagatable upstreamRedirect" by (simp add: kind_simps)
  moreover have "kp_retry (kind_props upstreamTimeout) = retryAlways" by (simp add: kind_simps)
  ultimately show ?thesis
    using kind_layers_agree [of upstreamRedirect ErrCanceled]
      kind_layers_agree [of upstreamTimeout ErrDeadlineExceeded]
    by simp
qed

end
