(* ===== verification/Circuit_Breaker.thy ===== *)
theory Circuit_Breaker
  imports Gateway_Prelude
begin

text \<open>
  The circuit breaker of \<^verbatim>\<open>internal/circuitbreaker/circuitbreaker.go\<close>.  Every method holds the
  breaker's mutex from its first statement to its return, so a method is one atomic step and
  the concurrent use of a breaker is a sequence of such steps.  The clock is an argument of
  the methods that read it.  The theory gives the methods, the invariant, the abstract
  machine the breaker implements (with the number of probes a half-open breaker still
  admits), when the breaker opens and recovers, and the half-open state that nothing but a
  reported outcome can leave.
\<close>

section \<open>The breaker and its methods\<close>

datatype State = Closed | Open | HalfOpen

record CircuitBreaker =
  state :: State
  failures :: int
  lastFailureAt :: time
  threshold :: int
  resetTimeout :: duration
  halfOpenTrial :: bool

definition breaker_New :: "int \<Rightarrow> duration \<Rightarrow> CircuitBreaker" where
  "breaker_New thr rst = \<lparr>state = Closed, failures = 0, lastFailureAt = 0, threshold = thr,
     resetTimeout = rst, halfOpenTrial = False\<rparr>"

definition breaker_Allow :: "time \<Rightarrow> CircuitBreaker \<Rightarrow> bool \<times> CircuitBreaker" where
  "breaker_Allow now b =
     (case state b of
        Open \<Rightarrow>
          if time_sub now (lastFailureAt b) \<ge> resetTimeout b
          then (True, b\<lparr>state := HalfOpen, halfOpenTrial := False\<rparr>)
          else (False, b)
      | HalfOpen \<Rightarrow>
          if \<not> halfOpenTrial b
          then (True, b\<lparr>halfOpenTrial := True\<rparr>)
          else (False, b)
      | Closed \<Rightarrow> (True, b))"

definition breaker_OnFailure :: "time \<Rightarrow> CircuitBreaker \<Rightarrow> CircuitBreaker" where
  "breaker_OnFailure now b0 =
     (let b = b0\<lparr>lastFailureAt := now\<rparr> in
      case state b of
        HalfOpen \<Rightarrow> b\<lparr>state := Open, failures := threshold b\<rparr>
      | Closed \<Rightarrow>
          (let b' = b\<lparr>failures := failures b + 1\<rparr> in
           if failures b' \<ge> threshold b' then b'\<lparr>state := Open\<rparr> else b')
      | Open \<Rightarrow> b)"

definition breaker_OnSuccess :: "CircuitBreaker \<Rightarrow> CircuitBreaker" where
  "breaker_OnSuccess b =
     (case state b of
        HalfOpen \<Rightarrow> b\<lparr>state := Closed, failures := 0\<rparr>
      | Closed \<Rightarrow> b\<lparr>failures := 0\<rparr>
      | Open \<Rightarrow> b)"

definition breaker_State :: "CircuitBreaker \<Rightarrow> State" where
  "breaker_State b = state b"

lemmas breaker_defs [breaker_simps] =
  breaker_New_def breaker_Allow_def breaker_OnFailure_def breaker_OnSuccess_def
  breaker_State_def Let_def

text \<open>The calls that goroutines make, in the order in which they get the mutex.\<close>

datatype breaker_event = EvAllow time | EvFailure time | EvSuccess

fun breaker_apply :: "breaker_event \<Rightarrow> CircuitBreaker \<Rightarrow> CircuitBreaker" where
  "breaker_apply (EvAllow now) b = snd (breaker_Allow now b)"
| "breaker_apply (EvFailure now) b = breaker_OnFailure now b"
| "breaker_apply EvSuccess b = breaker_OnSuccess b"

fun breaker_answers :: "breaker_event list \<Rightarrow> CircuitBreaker \<Rightarrow> bool list" where
  "breaker_answers [] b = []"
| "breaker_answers (EvAllow now # es) b =
     fst (breaker_Allow now b) # breaker_answers es (snd (breaker_Allow now b))"
| "breaker_answers (EvFailure now # es) b = breaker_answers es (breaker_OnFailure now b)"
| "breaker_answers (EvSuccess # es) b = breaker_answers es (breaker_OnSuccess b)"

section \<open>Invariant\<close>

text \<open>
  A closed breaker has seen fewer failures in a row than its threshold (none at all when the
  threshold is not positive); a breaker in any other state has seen at least the threshold.
\<close>

definition breaker_inv :: "CircuitBreaker \<Rightarrow> bool" where
  "breaker_inv b \<longleftrightarrow>
     (case state b of
        Closed \<Rightarrow> 0 \<le> failures b \<and> (failures b = 0 \<or> failures b < threshold b)
      | Open \<Rightarrow> threshold b \<le> failures b
      | HalfOpen \<Rightarrow> threshold b \<le> failures b)"

lemma breaker_config_fixed [simp]:
  "threshold (breaker_apply e b) = threshold b"
  "resetTimeout (breaker_apply e b) = resetTimeout b"
  by (cases e; auto simp: breaker_simps split: State.splits)+

lemma breaker_run_config_fixed [simp]:
  "threshold (fold breaker_apply es b) = threshold b"
  "resetTimeout (fold breaker_apply es b) = resetTimeout b"
  by (induction es arbitrary: b) simp_all

lemma breaker_inv_New: "breaker_inv (breaker_New thr rst)"
  by (simp add: breaker_inv_def breaker_simps)

lemma breaker_inv_apply: "breaker_inv b \<Longrightarrow> breaker_inv (breaker_apply e b)"
  by (cases e) (auto simp: breaker_inv_def breaker_simps split: State.splits)

interpretation breaker_machine:
  atomic_component breaker_apply "breaker_New thr rst" breaker_inv for thr rst
  by unfold_locales (simp_all add: breaker_inv_New breaker_inv_apply)

section \<open>The abstract machine\<close>

text \<open>
  What the breaker promises: it counts failures in a row, it opens when they reach the
  threshold, an open breaker lets one request through once the reset timeout has passed since
  the last failure, and that request opens a budget of further probes that lasts until an
  outcome is reported.  The budget the code grants is one probe on top of the request that
  ended the open state.
\<close>

datatype gate = Counting int | Blocked time | Probing nat

definition gate_allow :: "duration \<Rightarrow> time \<Rightarrow> gate \<Rightarrow> bool \<times> gate" where
  "gate_allow rst now g =
     (case g of
        Counting n \<Rightarrow> (True, Counting n)
      | Blocked t \<Rightarrow> if time_sub now t \<ge> rst then (True, Probing 1) else (False, Blocked t)
      | Probing 0 \<Rightarrow> (False, Probing 0)
      | Probing (Suc k) \<Rightarrow> (True, Probing k))"

definition gate_fail :: "int \<Rightarrow> time \<Rightarrow> gate \<Rightarrow> gate" where
  "gate_fail thr now g =
     (case g of
        Counting n \<Rightarrow> if n + 1 \<ge> thr then Blocked now else Counting (n + 1)
      | Blocked t \<Rightarrow> Blocked now
      | Probing k \<Rightarrow> Blocked now)"

definition gate_succeed :: "gate \<Rightarrow> gate" where
  "gate_succeed g =
     (case g of Counting n \<Rightarrow> Counting 0 | Blocked t \<Rightarrow> Blocked t | Probing k \<Rightarrow> Counting 0)"

definition breaker_gate :: "CircuitBreaker \<Rightarrow> gate" where
  "breaker_gate b =
     (case state b of
        Closed \<Rightarrow> Counting (failures b)
      | Open \<Rightarrow> Blocked (lastFailureAt b)
      | HalfOpen \<Rightarrow> Probing (if halfOpenTrial b then 0 else 1))"

lemma gate_allow_refined:
  "gate_allow (resetTimeout b) now (breaker_gate b) =
     map_prod id breaker_gate (breaker_Allow now b)"
  by (auto simp: gate_allow_def breaker_gate_def breaker_simps split: State.splits)

lemma gate_fail_refined:
  "gate_fail (threshold b) now (breaker_gate b) = breaker_gate (breaker_OnFailure now b)"
  by (auto simp: gate_fail_def breaker_gate_def breaker_simps split: State.splits)

lemma gate_succeed_refined:
  "gate_succeed (breaker_gate b) = breaker_gate (breaker_OnSuccess b)"
  by (auto simp: gate_succeed_def breaker_gate_def breaker_simps split: State.splits)

fun gate_apply :: "int \<Rightarrow> duration \<Rightarrow> breaker_event \<Rightarrow> gate \<Rightarrow> gate" where
  "gate_apply thr rst (EvAllow now) g = snd (gate_allow rst now g)"
| "gate_apply thr rst (EvFailure now) g = gate_fail thr now g"
| "gate_apply thr rst EvSuccess g = gate_succeed g"

fun gate_answers :: "int \<Rightarrow> duration \<Rightarrow> breaker_event list \<Rightarrow> gate \<Rightarrow> bool list" where
  "gate_answers thr rst [] g = []"
| "gate_answers thr rst (EvAllow now # es) g =
     fst (gate_allow rst now g) # gate_answers thr rst es (snd (gate_allow rst now g))"
| "gate_answers thr rst (EvFailure now # es) g = gate_answers thr rst es (gate_fail thr now g)"
| "gate_answers thr rst (EvSuccess # es) g = gate_answers thr rst es (gate_succeed g)"

lemmas gate_refined = gate_allow_refined gate_fail_refined gate_succeed_refined

lemma breaker_step_config [simp]:
  "threshold (snd (breaker_Allow now b)) = threshold b"
  "threshold (breaker_OnFailure now b) = threshold b"
  "threshold (breaker_OnSuccess b) = threshold b"
  "resetTimeout (snd (breaker_Allow now b)) = resetTimeout b"
  "resetTimeout (breaker_OnFailure now b) = resetTimeout b"
  "resetTimeout (breaker_OnSuccess b) = resetTimeout b"
  by (auto simp: breaker_simps split: State.splits)

lemma breaker_answers_refined:
  "breaker_answers es b = gate_answers (threshold b) (resetTimeout b) es (breaker_gate b)"
proof (induction es arbitrary: b)
  case Nil
  show ?case by simp
next
  case (Cons e es)
  then show ?case by (cases e) (simp_all add: gate_refined)
qed

lemma breaker_gate_run:
  "breaker_gate (fold breaker_apply es b) =
     fold (gate_apply (threshold b) (resetTimeout b)) es (breaker_gate b)"
proof (induction es arbitrary: b)
  case Nil
  show ?case by simp
next
  case (Cons e es)
  have "breaker_gate (breaker_apply e b) =
      gate_apply (threshold b) (resetTimeout b) e (breaker_gate b)"
    by (cases e) (simp_all add: gate_refined)
  then show ?case by (simp add: Cons.IH)
qed

section \<open>When the breaker opens\<close>

text \<open>The failures reported since the last success, in an event sequence.\<close>

fun failure_streak :: "int \<Rightarrow> breaker_event list \<Rightarrow> int" where
  "failure_streak n [] = n"
| "failure_streak n (EvAllow now # es) = failure_streak n es"
| "failure_streak n (EvFailure now # es) = failure_streak (n + 1) es"
| "failure_streak n (EvSuccess # es) = failure_streak 0 es"

lemma closed_failures_streak:
  assumes "state b = Closed \<longrightarrow> failures b = n"
    and "state (fold breaker_apply es b) = Closed"
  shows "failures (fold breaker_apply es b) = failure_streak n es"
  using assms
proof (induction es arbitrary: b n)
  case Nil
  then show ?case by simp
next
  case (Cons e es)
  let ?n' = "case e of EvAllow t \<Rightarrow> n | EvFailure t \<Rightarrow> n + 1 | EvSuccess \<Rightarrow> 0"
  have "state (breaker_apply e b) = Closed \<longrightarrow> failures (breaker_apply e b) = ?n'"
    using Cons.prems(1)
    by (cases e) (auto simp: breaker_simps split: State.splits if_splits)
  with Cons.IH [of "breaker_apply e b" ?n'] Cons.prems(2) show ?case
    by (cases e) simp_all
qed

section \<open>Open and half-open breakers\<close>

lemma open_step:
  assumes "state b = Open"
    and "(\<exists>t. e = EvAllow t \<and> time_sub t (lastFailureAt b) < resetTimeout b) \<or> e = EvSuccess"
  shows "breaker_apply e b = b"
  using assms by (auto simp: breaker_simps)

lemma wedged_step:
  assumes "state b = HalfOpen" and "halfOpenTrial b"
  shows "breaker_Allow now b = (False, b)"
  using assms by (simp add: breaker_simps)

lemma wedged_answers:
  assumes "state b = HalfOpen" and "halfOpenTrial b"
  shows "fold breaker_apply (map EvAllow ts) b = b"
    and "breaker_answers (map EvAllow ts) b = replicate (length ts) False"
  by (induction ts) (simp_all add: wedged_step [OF assms])

lemma breaker_Allow_from_open:
  assumes "state b = Open" and "resetTimeout b \<le> time_sub now (lastFailureAt b)"
  shows "breaker_Allow now b = (True, b\<lparr>state := HalfOpen, halfOpenTrial := False\<rparr>)"
  using assms by (simp add: breaker_simps)

lemma breaker_Allow_first_trial:
  assumes "state b = HalfOpen" and "\<not> halfOpenTrial b"
  shows "breaker_Allow now b = (True, b\<lparr>halfOpenTrial := True\<rparr>)"
  using assms by (simp add: breaker_simps)

section \<open>Properties\<close>

text \<open>
  C4. Refinement.  From a new breaker, every sequence of calls by any goroutines gets exactly
  the answers of the abstract gate, and leaves the breaker in a state that represents the
  gate's state.
\<close>

theorem breaker_refines_gate:
  "breaker_answers es (breaker_New thr rst) = gate_answers thr rst es (Counting 0) \<and>
   breaker_gate (fold breaker_apply es (breaker_New thr rst)) =
     fold (gate_apply thr rst) es (Counting 0)"
proof -
  have "breaker_gate (breaker_New thr rst) = Counting 0"
    and "threshold (breaker_New thr rst) = thr"
    and "resetTimeout (breaker_New thr rst) = rst"
    by (simp_all add: breaker_gate_def breaker_simps)
  then show ?thesis
    using breaker_answers_refined [of es "breaker_New thr rst"]
      breaker_gate_run [of es "breaker_New thr rst"]
    by simp
qed

text \<open>
  C24. Invariant.  Whatever the interleaving of calls, a closed breaker has counted fewer
  failures in a row than its threshold and an open or half-open one has counted the threshold.
\<close>

theorem breaker_reachable_inv: "breaker_inv (fold breaker_apply es (breaker_New thr rst))"
  by (rule breaker_machine.inv_run)

text \<open>
  The breaker opens on the threshold-th failure in a row and not before: while it is
  closed its counter is the number of failures reported since the last success, and the next
  failure opens it exactly when that number plus one reaches the threshold.
\<close>

theorem breaker_opens_at_threshold:
  assumes "state (fold breaker_apply es (breaker_New thr rst)) = Closed"
  shows "failures (fold breaker_apply es (breaker_New thr rst)) = failure_streak 0 es \<and>
     state (fold breaker_apply (es @ [EvFailure now]) (breaker_New thr rst)) =
       (if failure_streak 0 es + 1 \<ge> thr then Open else Closed)"
proof (rule conjI)
  let ?b = "fold breaker_apply es (breaker_New thr rst)"
  have "state (breaker_New thr rst) = Closed \<longrightarrow> failures (breaker_New thr rst) = 0"
    by (simp add: breaker_simps)
  from closed_failures_streak [OF this assms]
  show f: "failures ?b = failure_streak 0 es" .
  have "threshold ?b = thr" by (simp add: breaker_simps)
  with assms f
  show "state (fold breaker_apply (es @ [EvFailure now]) (breaker_New thr rst)) =
      (if failure_streak 0 es + 1 \<ge> thr then Open else Closed)"
    by (simp add: breaker_OnFailure_def Let_def)
qed

theorem breaker_opens_at_threshold_witness:
  "state (fold breaker_apply [EvFailure 5, EvAllow 6, EvFailure 7] (breaker_New 3 10)) = Closed \<and>
   state (fold breaker_apply ([EvFailure 5, EvAllow 6, EvFailure 7] @ [EvFailure 9])
     (breaker_New 3 10)) = Open"
proof -
  have h: "state (fold breaker_apply [EvFailure 5, EvAllow 6, EvFailure 7] (breaker_New 3 10))
      = Closed"
    by (simp add: breaker_simps)
  show ?thesis using h breaker_opens_at_threshold [OF h, of 9] by simp
qed

text \<open>
  Safety.  An open breaker denies every request until the reset timeout has passed since
  the last failure, and a success reported meanwhile by a late request does not close it.
\<close>

theorem breaker_open_denies:
  assumes "state b = Open"
    and "\<And>e. e \<in> set es \<Longrightarrow>
      (\<exists>t. e = EvAllow t \<and> time_sub t (lastFailureAt b) < resetTimeout b) \<or> e = EvSuccess"
  shows "fold breaker_apply es b = b \<and> True \<notin> set (breaker_answers es b)"
  using assms(2)
proof (induction es)
  case Nil
  show ?case by simp
next
  case (Cons e es)
  then have IH: "fold breaker_apply es b = b \<and> True \<notin> set (breaker_answers es b)" by simp
  from Cons.prems have e:
    "(\<exists>t. e = EvAllow t \<and> time_sub t (lastFailureAt b) < resetTimeout b) \<or> e = EvSuccess"
    by simp
  from open_step [OF assms(1) e] have "breaker_apply e b = b" .
  with IH e assms(1) show ?case by (auto simp: breaker_simps)
qed

theorem breaker_open_denies_witness:
  "breaker_answers [EvAllow 12, EvSuccess, EvAllow 14] (breaker_OnFailure 10 (breaker_New 1 5))
     = [False, False] \<and>
   fold breaker_apply [EvAllow 12, EvSuccess, EvAllow 14] (breaker_OnFailure 10 (breaker_New 1 5))
     = breaker_OnFailure 10 (breaker_New 1 5)"
proof -
  let ?b = "breaker_OnFailure 10 (breaker_New 1 5)"
  let ?es = "[EvAllow 12, EvSuccess, EvAllow 14]"
  have "fold breaker_apply ?es ?b = ?b \<and> True \<notin> set (breaker_answers ?es ?b)"
  proof (rule breaker_open_denies)
    show "state ?b = Open" by (simp add: breaker_simps)
    fix e assume "e \<in> set ?es"
    then show "(\<exists>t. e = EvAllow t \<and> time_sub t (lastFailureAt ?b) < resetTimeout ?b) \<or> e = EvSuccess"
      by (auto simp: breaker_simps time_sub_def)
  qed
  then show ?thesis by simp
qed

text \<open>
  Bound.  Once the reset timeout has passed, an open breaker admits two requests, and then
  none until an outcome is reported: the request that ends the open state, and one trial.
\<close>

theorem breaker_probe_budget:
  assumes "state b = Open"
    and "\<And>t. t \<in> set ts \<Longrightarrow> resetTimeout b \<le> time_sub t (lastFailureAt b)"
  shows "breaker_answers (map EvAllow ts) b =
           take (length ts) (True # True # replicate (length ts - 2) False)"
proof (cases ts)
  case Nil
  then show ?thesis by simp
next
  case (Cons t us)
  let ?b1 = "b\<lparr>state := HalfOpen, halfOpenTrial := False\<rparr>"
  let ?b2 = "?b1\<lparr>halfOpenTrial := True\<rparr>"
  have a1: "breaker_Allow t b = (True, ?b1)"
    using assms Cons by (intro breaker_Allow_from_open) auto
  show ?thesis
  proof (cases us)
    case Nil
    with Cons a1 show ?thesis by simp
  next
    case (Cons u vs)
    have a2: "breaker_Allow u ?b1 = (True, ?b2)"
      by (rule breaker_Allow_first_trial) simp_all
    have "breaker_answers (map EvAllow vs) ?b2 = replicate (length vs) False"
      by (rule wedged_answers) simp_all
    with \<open>ts = t # us\<close> Cons a1 a2 show ?thesis by simp
  qed
qed

theorem breaker_probe_budget_witness:
  "breaker_answers (map EvAllow [20, 21, 22, 1000]) (breaker_OnFailure 10 (breaker_New 1 5)) =
     [True, True, False, False]"
proof -
  let ?b = "breaker_OnFailure 10 (breaker_New 1 5)"
  have "breaker_answers (map EvAllow [20, 21, 22, 1000]) ?b =
      take (length [20, 21, 22, 1000 :: int])
        (True # True # replicate (length [20, 21, 22, 1000 :: int] - 2) False)"
    by (rule breaker_probe_budget) (auto simp: breaker_simps time_sub_def)
  then show ?thesis by (simp add: numeral_2_eq_2)
qed

text \<open>
  Recovery.  An open breaker whose reset timeout has passed admits a request; if a success
  is then reported the breaker is closed with a clean count, and if a failure is reported it
  is open again for a whole reset timeout counted from that failure.
\<close>

theorem breaker_recovers:
  assumes "state b = Open" and "resetTimeout b \<le> time_sub now (lastFailureAt b)"
  shows "fst (breaker_Allow now b) \<and>
     state (breaker_OnSuccess (snd (breaker_Allow now b))) = Closed \<and>
     failures (breaker_OnSuccess (snd (breaker_Allow now b))) = 0 \<and>
     state (breaker_OnFailure now' (snd (breaker_Allow now b))) = Open \<and>
     lastFailureAt (breaker_OnFailure now' (snd (breaker_Allow now b))) = now'"
  using breaker_Allow_from_open [OF assms]
  by (simp_all add: breaker_OnSuccess_def breaker_OnFailure_def)

theorem breaker_recovers_witness:
  "state (breaker_OnSuccess (snd (breaker_Allow 20 (breaker_OnFailure 10 (breaker_New 1 5)))))
     = Closed"
  using breaker_recovers [of "breaker_OnFailure 10 (breaker_New 1 5)" 20]
  by (simp add: breaker_simps time_sub_def)

text \<open>
  A half-open breaker whose trial has been handed out stays as it is and denies every
  request, at whatever time it comes, for as long as no outcome is reported: the reset timeout
  no longer applies to it.
\<close>

theorem breaker_half_open_has_no_timeout:
  assumes "state b = HalfOpen" and "halfOpenTrial b"
  shows "fold breaker_apply (map EvAllow ts) b = b \<and>
     breaker_answers (map EvAllow ts) b = replicate (length ts) False"
  using wedged_answers [OF assms] by simp

theorem breaker_half_open_has_no_timeout_witness:
  "breaker_answers (map EvAllow [30, 1000000000000])
     (fold breaker_apply [EvFailure 10, EvAllow 20, EvAllow 20] (breaker_New 1 5)) =
   [False, False]"
proof -
  let ?b = "fold breaker_apply [EvFailure 10, EvAllow 20, EvAllow 20] (breaker_New 1 5)"
  have "state ?b = HalfOpen" and "halfOpenTrial ?b"
    by (simp_all add: breaker_simps time_sub_def)
  from breaker_half_open_has_no_timeout [OF this, of "[30, 1000000000000]"]
  show ?thesis by (simp add: numeral_2_eq_2)
qed

end
