(* ===== verification/Upstream.thy ===== *)
theory Upstream
  imports Upstream_Request Upstream_Error Circuit_Breaker
begin

text \<open>
  The call of an upstream (\<^verbatim>\<open>upstream.go\<close>): one attempt (\<^verbatim>\<open>doCall\<close>), the retry loop with the
  circuit breaker in front of every attempt (\<^verbatim>\<open>callWithRetry\<close>), the report to the breaker and the
  response policy (\<^verbatim>\<open>call\<close>).  The network and the clock are the environment of an attempt: when
  the context is found cancelled, what the transport answers to a request, how the answer's
  body reads, how the wait between attempts ends.  A call returns the response, the changed
  upstream and the requests that went out, in their order.
\<close>

section \<open>State and environment\<close>

record HttpResponse =
  hr_status :: int
  hr_header :: Header
  hr_body :: body_stream

record httpUpstream =
  hu_cfg :: upstreamConfig
  hu_state :: upstreamState
  hu_breaker :: "CircuitBreaker option"

text \<open>
  \<open>at_ctxErr\<close> is \<^verbatim>\<open>ctx.Err()\<close> at the head of the loop, \<open>at_readCtxErr\<close> the one after a failed read
  of the body, \<open>at_backoff\<close> is \<open>None\<close> when the timer ends the wait and the context's error when
  the context does.
\<close>

record attempt_env =
  at_ctxErr :: "go_error option"
  at_now :: time
  at_transport :: "Request \<Rightarrow> go_error + HttpResponse"
  at_readCtxErr :: "go_error option"
  at_backoff :: "go_error option"

section \<open>Reading and classifying a response\<close>

definition readBody :: "int \<Rightarrow> go_error option \<Rightarrow> body_stream \<Rightarrow> upstreamError + bytes" where
  "readBody maxSize ctxErr body =
     (let reader = (if maxSize > 0 then LimitReader body (i64 (maxSize + 1)) else body);
          (data, err) = ReadAll reader
      in
      case err of
        Some e \<Rightarrow>
          (case ctxErr of
             Some c \<Rightarrow> Inl \<lparr>ue_kind = upstreamCanceled, ue_err = c\<rparr>
           | None \<Rightarrow> Inl \<lparr>ue_kind = upstreamReadError, ue_err = e\<rparr>)
      | None \<Rightarrow>
          if maxSize > 0 \<and> int (length data) > maxSize
          then Inl \<lparr>ue_kind = upstreamBodyTooLarge,
                    ue_err = ErrMsg (''response size exceeds limit of '' @ Itoa maxSize @ '' bytes'')\<rparr>
          else Inr data)"

definition filterHeaders :: "upstreamPolicy \<Rightarrow> Header \<Rightarrow> Header" where
  "filterHeaders pol headers =
     (if headerBlacklist pol = [] then headers
      else filter (\<lambda>(k, vs). k \<notin> set (headerBlacklist pol)) headers)"

definition classifyStatus :: "int \<Rightarrow> upstreamErrorKind option" where
  "classifyStatus status =
     (if status \<ge> StatusInternalServerError then Some upstreamBadStatus
      else if status \<ge> StatusBadRequest then Some upstreamClientError
      else if status \<ge> StatusMultipleChoices then Some upstreamRedirect
      else None)"

definition classifyDoError :: "go_error \<Rightarrow> upstreamErrorKind" where
  "classifyDoError err =
     (if errors_Is err ErrDeadlineExceeded then upstreamTimeout
      else if errors_Is err ErrCanceled then upstreamCanceled
      else upstreamConnection)"

section \<open>One attempt\<close>

text \<open>What \<^verbatim>\<open>doCall\<close> does once it has a host: the response and the requests sent.\<close>

definition exchange ::
  "externals \<Rightarrow> upstreamConfig \<Rightarrow> Context \<Rightarrow> Request \<Rightarrow> bytes \<Rightarrow> string \<Rightarrow> attempt_env \<Rightarrow>
     upstreamResponse \<times> Request list" where
  "exchange ext cfg ctx original originalBody host env =
     (case newRequest ext cfg ctx original originalBody host of
        Inl err \<Rightarrow> (failed_with upstreamInternal err, [])
      | Inr req0 \<Rightarrow>
          let req = req0\<lparr>req_Header := otel_Inject ext ctx (req_Header req0)\<rparr> in
          (case at_transport env req of
             Inl err \<Rightarrow> (failed_with (classifyDoError err) err, [req])
           | Inr httpResp \<Rightarrow>
               (case readBody (maxResponseBodySize (uc_policy cfg)) (at_readCtxErr env) (hr_body httpResp) of
                  Inl uerr \<Rightarrow>
                    (\<lparr>ur_status = hr_status httpResp, ur_headers = None, ur_body = [],
                      ur_err = Some uerr\<rparr>, [req])
                | Inr body \<Rightarrow>
                    (\<lparr>ur_status = hr_status httpResp,
                      ur_headers = Some (filterHeaders (uc_policy cfg) (hr_header httpResp)),
                      ur_body = body,
                      ur_err = (case classifyStatus (hr_status httpResp) of
                          None \<Rightarrow> None
                        | Some kind \<Rightarrow>
                            Some \<lparr>ue_kind = kind,
                              ue_err = ErrMsg (''upstream returned '' @ Itoa (hr_status httpResp))\<rparr>)\<rparr>,
                     [req]))))"

definition doCall ::
  "externals \<Rightarrow> Context \<Rightarrow> Request \<Rightarrow> bytes \<Rightarrow> attempt_env \<Rightarrow> httpUpstream \<Rightarrow>
     (upstreamResponse \<times> httpUpstream \<times> Request list) go" where
  "doCall ext ctx original originalBody env u =
     (case selectHost (hu_cfg u) (hu_state u) of
        None \<Rightarrow> None
      | Some (h, st) \<Rightarrow>
          let counted = (uc_lbMode (hu_cfg u) = lbModeLeastConns) in
          (case (if counted then conn_add h 1 st else Some st) of
             None \<Rightarrow> None
           | Some st1 \<Rightarrow>
               let (resp, sent) =
                 exchange ext (hu_cfg u) ctx original originalBody (uc_hosts (hu_cfg u) ! h) env in
               (case (if counted then conn_add h (- 1) st1 else Some st1) of
                  None \<Rightarrow> None
                | Some st2 \<Rightarrow> Some (resp, u\<lparr>hu_state := st2\<rparr>, sent))))"

section \<open>Retries\<close>

definition isIdempotent :: "string \<Rightarrow> bool" where
  "isIdempotent m \<longleftrightarrow>
     m \<in> {''GET'', ''HEAD'', ''OPTIONS'', ''TRACE'', ''PUT'', ''DELETE'', ''QUERY''}"

definition shouldRetry :: "string \<Rightarrow> upstreamResponse \<Rightarrow> retryPolicy \<Rightarrow> bool" where
  "shouldRetry method resp rp =
     (if \<not> isIdempotent method then False
      else
        case ur_err resp of
          None \<Rightarrow> ur_status resp \<in> set (retryOnStatuses rp)
        | Some e \<Rightarrow>
            (case kp_retry (kind_props (ue_kind e)) of
               retryAlways \<Rightarrow> True
             | retryByStatus \<Rightarrow> ur_status resp \<in> set (retryOnStatuses rp)
             | retryNever \<Rightarrow> False))"

text \<open>\<^verbatim>\<open>u.circuitBreaker != nil && !u.circuitBreaker.Allow()\<close>, as whether the attempt may go on.\<close>

definition breaker_admits :: "time \<Rightarrow> httpUpstream \<Rightarrow> bool \<times> httpUpstream" where
  "breaker_admits now u =
     (case hu_breaker u of
        None \<Rightarrow> (True, u)
      | Some b \<Rightarrow> let (ok, b') = breaker_Allow now b in (ok, u\<lparr>hu_breaker := Some b'\<rparr>))"

text \<open>
  The loop: the attempt, the last response (nil before the first attempt), and the requests sent
  so far.
\<close>

function retry_loop ::
  "externals \<Rightarrow> (nat \<Rightarrow> attempt_env) \<Rightarrow> retryPolicy \<Rightarrow> string \<Rightarrow> Context \<Rightarrow> Request \<Rightarrow> bytes \<Rightarrow>
     nat \<Rightarrow> upstreamResponse option \<Rightarrow> Request list \<Rightarrow> httpUpstream \<Rightarrow>
     (upstreamResponse option \<times> httpUpstream \<times> Request list) go" where
  "retry_loop ext env rp method ctx original body attempt resp sent u =
     (if int attempt > maxRetries rp then Some (resp, u, sent)
      else
        case at_ctxErr (env attempt) of
          Some err \<Rightarrow> Some (Some (failed_with upstreamCanceled err), u, sent)
        | None \<Rightarrow>
            let (allowed, u1) = breaker_admits (at_now (env attempt)) u in
            if \<not> allowed then
              Some (Some (failed_with upstreamCircuitOpen (ErrMsg ''upstream circuit breaker is open'')),
                    u1, sent)
            else
              (case doCall ext ctx original body (env attempt) u1 of
                 None \<Rightarrow> None
               | Some (r, u2, reqs) \<Rightarrow>
                   if int attempt = maxRetries rp \<or> \<not> shouldRetry method r rp
                   then Some (Some r, u2, sent @ reqs)
                   else
                     (case (if backoffDelay rp > 0 then at_backoff (env attempt) else None) of
                        Some err \<Rightarrow> Some (Some (failed_with upstreamCanceled err), u2, sent @ reqs)
                      | None \<Rightarrow>
                          retry_loop ext env rp method ctx original body (attempt + 1) (Some r)
                            (sent @ reqs) u2)))"
  by pat_completeness auto

termination retry_loop
  by (relation "measure (\<lambda>(ext, env, rp, m, ctx, orig, b, attempt, r, s, u). nat (maxRetries rp + 1 - int attempt))")
    auto

declare retry_loop.simps [simp del]

definition callWithRetry ::
  "externals \<Rightarrow> (nat \<Rightarrow> attempt_env) \<Rightarrow> Context \<Rightarrow> Request \<Rightarrow> bytes \<Rightarrow> httpUpstream \<Rightarrow>
     (upstreamResponse option \<times> httpUpstream \<times> Request list) go" where
  "callWithRetry ext env ctx original body u =
     retry_loop ext env (retry (uc_policy (hu_cfg u))) (effective_method (hu_cfg u) original)
       ctx original body 0 None [] u"

section \<open>After the last attempt\<close>

definition updateCircuitBreaker :: "time \<Rightarrow> upstreamResponse \<Rightarrow> httpUpstream \<Rightarrow> httpUpstream" where
  "updateCircuitBreaker now resp u =
     (case hu_breaker u of
        None \<Rightarrow> u
      | Some b \<Rightarrow>
          (case breakerOutcomeFor (ur_err resp) of
             breakerFailure \<Rightarrow> u\<lparr>hu_breaker := Some (breaker_OnFailure now b)\<rparr>
           | breakerSuccess \<Rightarrow> u\<lparr>hu_breaker := Some (breaker_OnSuccess b)\<rparr>
           | breakerNoSignal \<Rightarrow> u))"

definition applyPolicy :: "upstreamPolicy \<Rightarrow> upstreamResponse \<Rightarrow> upstreamResponse" where
  "applyPolicy pol resp =
     (if (case ur_err resp of None \<Rightarrow> False | Some e \<Rightarrow> \<not> isStatusFailure (ue_kind e)) then resp
      else
        let errs = (if requireBody pol \<and> length (ur_body resp) = 0
                    then [ErrMsg ''empty body not allowed by upstream policy''] else [])
        in
        if length errs = 0 then resp
        else
          let combined = ErrJoin errs in
          (case ur_err resp of
             None \<Rightarrow> resp\<lparr>ur_err := Some \<lparr>ue_kind = upstreamPolicyViolation, ue_err = combined\<rparr>\<rparr>
           | Some e \<Rightarrow>
               if ue_kind e = upstreamClientError \<or> ue_kind e = upstreamRedirect
               then resp\<lparr>ur_err := Some \<lparr>ue_kind = upstreamPolicyViolation,
                                         ue_err = ErrJoin [ue_err e, combined]\<rparr>\<rparr>
               else resp\<lparr>ur_err := Some (e\<lparr>ue_err := ErrJoin [ue_err e, combined]\<rparr>)\<rparr>))"

text \<open>A nil response (no attempt was made) is dereferenced on both ways through the breaker update.\<close>

definition upstream_call ::
  "externals \<Rightarrow> (nat \<Rightarrow> attempt_env) \<Rightarrow> time \<Rightarrow> Context \<Rightarrow> Request \<Rightarrow> bytes \<Rightarrow> httpUpstream \<Rightarrow>
     (upstreamResponse \<times> httpUpstream \<times> Request list) go" where
  "upstream_call ext env now ctx original body u =
     (case callWithRetry ext env ctx original body u of
        None \<Rightarrow> None
      | Some (None, u1, sent) \<Rightarrow> None
      | Some (Some resp, u1, sent) \<Rightarrow>
          let u2 = updateCircuitBreaker now resp u1 in
          Some (applyPolicy (uc_policy (hu_cfg u2)) resp, u2, sent))"

section \<open>Lemmas: one attempt\<close>

text \<open>An upstream the builder makes: a host to call, and a counter per host where they are used.\<close>

definition upstream_wf :: "httpUpstream \<Rightarrow> bool" where
  "upstream_wf u \<longleftrightarrow>
     uc_hosts (hu_cfg u) \<noteq> [] \<and>
     (uc_lbMode (hu_cfg u) = lbModeLeastConns \<longrightarrow>
        length (activeConnections (hu_state u)) = length (uc_hosts (hu_cfg u)))"

lemma selectHost_total:
  assumes "uc_hosts cfg \<noteq> []"
    and "uc_lbMode cfg = lbModeLeastConns \<Longrightarrow> length (activeConnections st) = length (uc_hosts cfg)"
  shows "\<exists>h st'. selectHost cfg st = Some (h, st') \<and> h < length (uc_hosts cfg) \<and>
    activeConnections st' = activeConnections st"
proof -
  have "\<exists>h. least_loop (activeConnections st) [0..<length (uc_hosts cfg)] max_i64 0 = Some h \<and>
      h < length (uc_hosts cfg)" if "uc_lbMode cfg = lbModeLeastConns"
    using least_loop_min [of "[0..<length (uc_hosts cfg)]" "activeConnections st" max_i64 0]
      assms(1) assms(2) [OF that] by fastforce
  then have "\<exists>h st'. selectHost cfg st = Some (h, st') \<and> activeConnections st' = activeConnections st"
    using assms(1) by (cases "uc_lbMode cfg") (force simp: selectHost_def Let_def)+
  with selectHost_in_range show ?thesis by blast
qed

lemma exchange_sent: "length (snd (exchange ext cfg ctx original body host env)) \<le> 1"
  by (auto simp: exchange_def Let_def split: sum.splits)

lemma doCall_frame:
  assumes "doCall ext ctx original body env u = Some (r, u', reqs)"
  shows "hu_cfg u' = hu_cfg u" "hu_breaker u' = hu_breaker u" "length reqs \<le> 1"
    "\<exists>host. r = fst (exchange ext (hu_cfg u) ctx original body host env)"
proof -
  have "\<exists>h st. exchange ext (hu_cfg u) ctx original body (uc_hosts (hu_cfg u) ! h) env = (r, reqs) \<and>
      u' = u\<lparr>hu_state := st\<rparr>"
    using assms by (auto simp: doCall_def Let_def split: option.splits if_splits prod.splits)
  then obtain h st where
    ex: "exchange ext (hu_cfg u) ctx original body (uc_hosts (hu_cfg u) ! h) env = (r, reqs)"
    and u': "u' = u\<lparr>hu_state := st\<rparr>" by blast
  then show "hu_cfg u' = hu_cfg u" "hu_breaker u' = hu_breaker u" by simp_all
  show "length reqs \<le> 1" using exchange_sent ex by (metis snd_conv)
  show "\<exists>host. r = fst (exchange ext (hu_cfg u) ctx original body host env)" using ex by (metis fst_conv)
qed

text \<open>The counter that an attempt raises is lowered again when it ends.\<close>

lemma conn_add_back:
  assumes "h < length (activeConnections st)"
    and "\<forall>c \<in> set (activeConnections st). min_i64 \<le> c \<and> c \<le> max_i64"
  shows "Option.bind (conn_add h 1 st) (conn_add h (- 1)) = Some st"
proof -
  have "i64 (i64 (activeConnections st ! h + 1) - 1) = activeConnections st ! h"
    using assms by (simp add: i64_pred)
  with assms(1) show ?thesis by (simp add: conn_add_def)
qed

lemma doCall_total:
  assumes "upstream_wf u"
    and "\<forall>c \<in> set (activeConnections (hu_state u)). min_i64 \<le> c \<and> c \<le> max_i64"
  shows "\<exists>r u' reqs. doCall ext ctx original body env u = Some (r, u', reqs) \<and>
    activeConnections (hu_state u') = activeConnections (hu_state u)"
proof -
  let ?cfg = "hu_cfg u"
  obtain h st where h: "selectHost ?cfg (hu_state u) = Some (h, st)" "h < length (uc_hosts ?cfg)"
    "activeConnections st = activeConnections (hu_state u)"
    using selectHost_total [of ?cfg "hu_state u"] assms(1) by (auto simp: upstream_wf_def)
  show ?thesis
  proof (cases "uc_lbMode ?cfg = lbModeLeastConns")
    case True
    then have "h < length (activeConnections st)" using assms(1) h by (simp add: upstream_wf_def)
    from conn_add_back [OF this] assms(2) h(3)
    obtain st1 where "conn_add h 1 st = Some st1" "conn_add h (- 1) st1 = Some st"
      by (auto simp: bind_eq_Some_conv)
    with True h show ?thesis by (auto simp: doCall_def split: prod.splits)
  next
    case False
    with h show ?thesis by (auto simp: doCall_def split: prod.splits)
  qed
qed

lemma breaker_admits_frame:
  "breaker_admits now u = (ok, u1) \<Longrightarrow> hu_cfg u1 = hu_cfg u \<and> hu_state u1 = hu_state u"
  by (auto simp: breaker_admits_def split: option.splits prod.splits)

section \<open>Lemmas: the retry loop\<close>

text \<open>
  A rule for the loop: an assertion \<open>I\<close> that holds before every attempt, and a conclusion \<open>Q\<close> that
  it gives at each of the five ways out.
\<close>

lemma retry_loop_rule:
  assumes "retry_loop ext env rp method ctx original body n resp sent u = Some out"
    and "I n resp sent u"
    and exhausted: "\<And>n resp sent u. I n resp sent u \<Longrightarrow> int n > maxRetries rp \<Longrightarrow> Q (resp, u, sent)"
    and canceled: "\<And>n resp sent u err. I n resp sent u \<Longrightarrow> int n \<le> maxRetries rp \<Longrightarrow>
      Q (Some (failed_with upstreamCanceled err), u, sent)"
    and denied: "\<And>n resp sent u now u1. I n resp sent u \<Longrightarrow> int n \<le> maxRetries rp \<Longrightarrow>
      breaker_admits now u = (False, u1) \<Longrightarrow>
      Q (Some (failed_with upstreamCircuitOpen (ErrMsg ''upstream circuit breaker is open'')), u1, sent)"
    and finished: "\<And>n resp sent u u1 r u2 reqs. I n resp sent u \<Longrightarrow> int n \<le> maxRetries rp \<Longrightarrow>
      breaker_admits (at_now (env n)) u = (True, u1) \<Longrightarrow>
      doCall ext ctx original body (env n) u1 = Some (r, u2, reqs) \<Longrightarrow>
      int n = maxRetries rp \<or> \<not> shouldRetry method r rp \<Longrightarrow> Q (Some r, u2, sent @ reqs)"
    and backoff: "\<And>n resp sent u u1 r u2 reqs err. I n resp sent u \<Longrightarrow> int n < maxRetries rp \<Longrightarrow>
      breaker_admits (at_now (env n)) u = (True, u1) \<Longrightarrow>
      doCall ext ctx original body (env n) u1 = Some (r, u2, reqs) \<Longrightarrow> shouldRetry method r rp \<Longrightarrow>
      Q (Some (failed_with upstreamCanceled err), u2, sent @ reqs)"
    and again: "\<And>n resp sent u u1 r u2 reqs. I n resp sent u \<Longrightarrow> int n < maxRetries rp \<Longrightarrow>
      breaker_admits (at_now (env n)) u = (True, u1) \<Longrightarrow>
      doCall ext ctx original body (env n) u1 = Some (r, u2, reqs) \<Longrightarrow> shouldRetry method r rp \<Longrightarrow>
      I (n + 1) (Some r) (sent @ reqs) u2"
  shows "Q out"
  using assms(1,2)
proof (induction "nat (maxRetries rp + 1 - int n)" arbitrary: n resp sent u)
  case 0
  then have "int n > maxRetries rp" by simp
  with 0 exhausted [of n resp sent u] show ?case
    by (auto simp: retry_loop.simps [of _ _ _ _ _ _ _ n])
next
  case (Suc k)
  then have le: "int n \<le> maxRetries rp" by simp
  note unfold = Suc.prems(1) [unfolded retry_loop.simps [of ext env rp "method" "ctx" original body n resp sent u]]
  show ?case
  proof (cases "at_ctxErr (env n)")
    case (Some err)
    with unfold le canceled [OF Suc.prems(2) le, of err] show ?thesis by auto
  next
    case None
    obtain ok u1 where adm: "breaker_admits (at_now (env n)) u = (ok, u1)" by force
    show ?thesis
    proof (cases ok)
      case False
      with adm denied [OF Suc.prems(2) le, of "at_now (env n)" u1] unfold None le show ?thesis by auto
    next
      case True
      with unfold None le adm obtain r u2 reqs
        where call: "doCall ext ctx original body (env n) u1 = Some (r, u2, reqs)"
        by (auto split: option.splits)
      note adm = adm [unfolded True [THEN eqTrueI]]
      show ?thesis
      proof (cases "int n = maxRetries rp \<or> \<not> shouldRetry method r rp")
        case True
        with unfold None le adm call finished [OF Suc.prems(2) le adm call] show ?thesis by auto
      next
        case False
        then have lt: "int n < maxRetries rp" and sr: "shouldRetry method r rp" using le by auto
        show ?thesis
        proof (cases "if backoffDelay rp > 0 then at_backoff (env n) else None")
          case (Some err)
          with unfold None le adm call False backoff [OF Suc.prems(2) lt adm call sr, of err] show ?thesis
            by auto
        next
          case None2: None
          have "k = nat (maxRetries rp + 1 - int (n + 1))" using Suc.hyps(2) by simp
          moreover have "retry_loop ext env rp method ctx original body (n + 1) (Some r) (sent @ reqs) u2 = Some out"
            using unfold None le adm call False None2 by simp
          ultimately show ?thesis
            using again [OF Suc.prems(2) lt adm call sr] by (rule Suc.hyps(1))
        qed
      qed
    qed
  qed
qed

lemma retry_loop_frame:
  assumes "retry_loop ext env rp method ctx original body n resp sent u = Some (resp', u', sent')"
  shows "hu_cfg u' = hu_cfg u"
proof -
  have "(\<lambda>(r, v, s). hu_cfg v = hu_cfg u) (resp', u', sent')"
    by (rule retry_loop_rule [OF assms, where I = "\<lambda>n r s v. hu_cfg v = hu_cfg u"])
      (auto dest!: breaker_admits_frame doCall_frame(1))
  then show ?thesis by simp
qed

lemma retry_loop_sent:
  assumes "retry_loop ext env rp method ctx original body 0 None [] u = Some (resp', u', sent')"
  shows "int (length sent') \<le> max 0 (maxRetries rp + 1)"
proof -
  have "(\<lambda>(r, v, s). int (length s) \<le> max 0 (maxRetries rp + 1)) (resp', u', sent')"
    by (rule retry_loop_rule [OF assms, where
          I = "\<lambda>n r s v. length s \<le> n \<and> int n \<le> max 0 (maxRetries rp + 1)"])
      (force dest: doCall_frame(3))+
  then show ?thesis by simp
qed

lemma retry_loop_once:
  assumes "retry_loop ext env rp method ctx original body 0 None [] u = Some (resp', u', sent')"
    and "\<not> isIdempotent method"
  shows "length sent' \<le> 1"
proof -
  have "(\<lambda>(r, v, s). length s \<le> 1) (resp', u', sent')"
    by (rule retry_loop_rule [OF assms(1), where I = "\<lambda>n r s v. s = []"])
      (use assms(2) in \<open>auto dest: doCall_frame(3) simp: shouldRetry_def\<close>)
  then show ?thesis by simp
qed

lemma retry_loop_total:
  assumes "upstream_wf u"
    and "\<forall>c \<in> set (activeConnections (hu_state u)). min_i64 \<le> c \<and> c \<le> max_i64"
    and "resp = None \<longrightarrow> n = 0"
  shows "\<exists>resp' u' sent'. retry_loop ext env rp method ctx original body n resp sent u = Some (resp', u', sent') \<and>
    (resp' = None \<longleftrightarrow> resp = None \<and> maxRetries rp < 0) \<and>
    activeConnections (hu_state u') = activeConnections (hu_state u)"
  using assms
proof (induction "nat (maxRetries rp + 1 - int n)" arbitrary: n resp sent u)
  case 0
  then show ?case by (subst retry_loop.simps) auto
next
  case (Suc k)
  then have le: "int n \<le> maxRetries rp" by simp
  obtain ok u1 where adm: "breaker_admits (at_now (env n)) u = (ok, u1)" by force
  then have u1: "hu_cfg u1 = hu_cfg u" "hu_state u1 = hu_state u"
    using breaker_admits_frame by blast+
  have "upstream_wf u1" using Suc.prems(1) u1 by (simp add: upstream_wf_def)
  then obtain r u2 reqs where call: "doCall ext ctx original body (env n) u1 = Some (r, u2, reqs)"
    and conns: "activeConnections (hu_state u2) = activeConnections (hu_state u)"
    using doCall_total [of u1 ext ctx original body "env n"] Suc.prems(2) u1 by auto
  have "upstream_wf u2"
    using Suc.prems(1) conns doCall_frame(1) [OF call] u1 by (simp add: upstream_wf_def)
  moreover have "k = nat (maxRetries rp + 1 - int (n + 1))" using Suc.hyps(2) by simp
  ultimately obtain resp' u' sent' where
    rest: "retry_loop ext env rp method ctx original body (n + 1) (Some r) (sent @ reqs) u2 = Some (resp', u', sent')"
      "resp' \<noteq> None" "activeConnections (hu_state u') = activeConnections (hu_state u)"
    using Suc.hyps(1) [of "n + 1" u2 "Some r" "sent @ reqs"] Suc.prems(2) conns by auto
  show ?case
    using le adm call rest conns u1 Suc.prems(3)
    by (subst retry_loop.simps) (auto split: option.splits)
qed

section \<open>Lemmas: what a response says\<close>

text \<open>A response without an error is a success the policy allows.\<close>

definition honest_response :: "upstreamConfig \<Rightarrow> upstreamResponse \<Rightarrow> bool" where
  "honest_response cfg r \<longleftrightarrow>
     (ur_err r = None \<longrightarrow> ur_status r < StatusMultipleChoices) \<and>
     (\<forall>h k. ur_headers r = Some h \<longrightarrow> k \<in> set (headerBlacklist (uc_policy cfg)) \<longrightarrow> k \<notin> fst ` set h)"

lemma filterHeaders_blacklist:
  "k \<in> set (headerBlacklist pol) \<Longrightarrow> k \<notin> fst ` set (filterHeaders pol h)"
  by (auto simp: filterHeaders_def)

lemma exchange_honest: "honest_response cfg (fst (exchange ext cfg ctx original body host env))"
proof -
  have "\<forall>h k. Some (filterHeaders (uc_policy cfg) g) = Some h \<longrightarrow>
      k \<in> set (headerBlacklist (uc_policy cfg)) \<longrightarrow> k \<notin> fst ` set h" for g
    using filterHeaders_blacklist by blast
  then show ?thesis
    by (auto simp: exchange_def honest_response_def Let_def failed_with_def classifyStatus_def
        split: sum.splits if_splits)
qed

lemma failed_with_honest [simp]: "honest_response cfg (failed_with k e)"
  by (simp add: honest_response_def failed_with_def)

lemma doCall_honest:
  "doCall ext ctx original body env u = Some (r, u', reqs) \<Longrightarrow>
     honest_response (hu_cfg u) r \<and> hu_cfg u' = hu_cfg u"
  by (metis doCall_frame(1,4) exchange_honest)

lemma retry_loop_honest:
  assumes "retry_loop ext env rp method ctx original body 0 None [] u = Some (Some r, u', sent')"
  shows "honest_response (hu_cfg u) r"
proof -
  have "(\<lambda>(r, v, s). \<forall>x. r = Some x \<longrightarrow> honest_response (hu_cfg u) x) (Some r, u', sent')"
    by (rule retry_loop_rule [OF assms, where
          I = "\<lambda>n r s v. hu_cfg v = hu_cfg u \<and> (\<forall>x. r = Some x \<longrightarrow> honest_response (hu_cfg u) x)"])
      (auto dest!: breaker_admits_frame doCall_honest)
  then show ?thesis by simp
qed

section \<open>Lemmas: the call\<close>

lemma upstream_call_cases:
  assumes "upstream_call ext env now ctx original body u = Some (resp, u', sent)"
  obtains r u1 where "callWithRetry ext env ctx original body u = Some (Some r, u1, sent)"
    "resp = applyPolicy (uc_policy (hu_cfg u)) r" "u' = updateCircuitBreaker now r u1"
    "hu_cfg u1 = hu_cfg u"
proof -
  obtain ro u1 s where "callWithRetry ext env ctx original body u = Some (ro, u1, s)"
    using assms by (cases "callWithRetry ext env ctx original body u") (auto simp: upstream_call_def)
  moreover from this assms obtain r where "ro = Some r"
    by (cases ro) (simp_all add: upstream_call_def)
  ultimately have cwr: "callWithRetry ext env ctx original body u = Some (Some r, u1, sent)"
    and res: "resp = applyPolicy (uc_policy (hu_cfg (updateCircuitBreaker now r u1))) r"
      "u' = updateCircuitBreaker now r u1"
    using assms by (auto simp: upstream_call_def Let_def)
  from cwr have "hu_cfg u1 = hu_cfg u" unfolding callWithRetry_def by (rule retry_loop_frame)
  moreover have "hu_cfg (updateCircuitBreaker now r u1) = hu_cfg u1"
    by (auto simp: updateCircuitBreaker_def split: option.splits breakerOutcome.splits)
  ultimately show thesis using that [OF cwr] res by simp
qed

lemma applyPolicy_err_None:
  "ur_err (applyPolicy pol r) = None \<Longrightarrow>
     ur_err r = None \<and> applyPolicy pol r = r \<and> (requireBody pol \<longrightarrow> ur_body r \<noteq> [])"
  by (auto simp: applyPolicy_def Let_def split: option.splits if_splits)

lemma applyPolicy_headers [simp]:
  "ur_headers (applyPolicy pol r) = ur_headers r" "ur_body (applyPolicy pol r) = ur_body r"
  "ur_status (applyPolicy pol r) = ur_status r"
  by (auto simp: applyPolicy_def Let_def split: option.splits)

lemma updateCircuitBreaker_state [simp]: "hu_state (updateCircuitBreaker now r u) = hu_state u"
  by (auto simp: updateCircuitBreaker_def split: option.splits breakerOutcome.splits)

lemma upstream_call_total:
  assumes "upstream_wf u"
    and "\<forall>c \<in> set (activeConnections (hu_state u)). min_i64 \<le> c \<and> c \<le> max_i64"
    and "0 \<le> maxRetries (retry (uc_policy (hu_cfg u)))"
  shows "\<exists>resp u' sent. upstream_call ext env now ctx original body u = Some (resp, u', sent) \<and>
    activeConnections (hu_state u') = activeConnections (hu_state u)"
proof -
  obtain ro u1 sent where cwr: "callWithRetry ext env ctx original body u = Some (ro, u1, sent)"
    and ro: "ro = None \<longleftrightarrow> maxRetries (retry (uc_policy (hu_cfg u))) < 0"
    and conns: "activeConnections (hu_state u1) = activeConnections (hu_state u)"
    unfolding callWithRetry_def using retry_loop_total [OF assms(1,2), of None 0] by blast
  from ro assms(3) obtain resp where "ro = Some resp" by (cases ro) auto
  with cwr conns show ?thesis by (simp add: upstream_call_def Let_def)
qed

text \<open>An attempt that ends in a transport error other than a cancellation.\<close>

definition unreachable :: "attempt_env \<Rightarrow> bool" where
  "unreachable env \<longleftrightarrow>
     (\<forall>req. \<exists>err. at_transport env req = Inl err \<and> classifyDoError err \<noteq> upstreamCanceled)"

lemma doCall_unreachable:
  assumes "upstream_wf u"
    and "\<forall>c \<in> set (activeConnections (hu_state u)). min_i64 \<le> c \<and> c \<le> max_i64"
    and "\<And>host. \<exists>t. newRequest ext (hu_cfg u) ctx original body host = Inr t"
    and "unreachable env" "isIdempotent method"
  shows "\<exists>r u' reqs. doCall ext ctx original body env u = Some (r, u', reqs) \<and>
    length reqs = 1 \<and> shouldRetry method r rp \<and> hu_breaker u' = hu_breaker u \<and>
    hu_cfg u' = hu_cfg u \<and> activeConnections (hu_state u') = activeConnections (hu_state u)"
proof -
  obtain r u' reqs where call: "doCall ext ctx original body env u = Some (r, u', reqs)"
    and conns: "activeConnections (hu_state u') = activeConnections (hu_state u)"
    using doCall_total [OF assms(1,2)] by blast
  have ex: "length (snd (exchange ext (hu_cfg u) ctx original body host env)) = 1 \<and>
      shouldRetry method (fst (exchange ext (hu_cfg u) ctx original body host env)) rp" for host
  proof -
    obtain t where t: "newRequest ext (hu_cfg u) ctx original body host = Inr t" using assms(3) by blast
    obtain err where "at_transport env (t\<lparr>req_Header := otel_Inject ext ctx (req_Header t)\<rparr>) = Inl err"
      "classifyDoError err \<noteq> upstreamCanceled"
      using assms(4) by (meson unreachable_def)
    then show ?thesis
      using t assms(5)
      by (auto simp: exchange_def shouldRetry_def classifyDoError_def kind_simps split: if_splits)
  qed
  obtain h st where "exchange ext (hu_cfg u) ctx original body (uc_hosts (hu_cfg u) ! h) env = (r, reqs)"
    using call by (auto simp: doCall_def Let_def split: option.splits if_splits prod.splits)
  with ex [of "uc_hosts (hu_cfg u) ! h"] call conns doCall_frame(1,2) [OF call] show ?thesis by auto
qed

section \<open>Properties\<close>

text \<open>
  C2. A call sends at most one request more than the configured retries, and at most one at all
  when the effective method is not idempotent.
\<close>

theorem call_sends_bounded:
  assumes "upstream_call ext env now ctx original body u = Some (resp, u', sent)"
  shows "int (length sent) \<le> maxRetries (retry (uc_policy (hu_cfg u))) + 1 \<and>
    (\<not> isIdempotent (effective_method (hu_cfg u) original) \<longrightarrow> length sent \<le> 1)"
proof -
  obtain r u1 where cwr: "callWithRetry ext env ctx original body u = Some (Some r, u1, sent)"
    using assms by (rule upstream_call_cases)
  let ?rp = "retry (uc_policy (hu_cfg u))"
  have "0 \<le> maxRetries ?rp"
  proof (rule ccontr)
    assume "\<not> 0 \<le> maxRetries ?rp"
    with cwr show False by (simp add: callWithRetry_def retry_loop.simps)
  qed
  with retry_loop_sent [OF cwr [unfolded callWithRetry_def]]
    retry_loop_once [OF cwr [unfolded callWithRetry_def]]
  show ?thesis by auto
qed

definition refused :: attempt_env where
  "refused = \<lparr>at_ctxErr = None, at_now = 100, at_transport = (\<lambda>r. Inl (ErrMsg ''connection refused'')),
     at_readCtxErr = None, at_backoff = None\<rparr>"

definition answering :: "int \<Rightarrow> bytes \<Rightarrow> attempt_env" where
  "answering st b = \<lparr>at_ctxErr = None, at_now = 100,
     at_transport = (\<lambda>r. Inr \<lparr>hr_status = st, hr_header = [(''Set-Cookie'', [''s'']), (''Etag'', [''1''])],
       hr_body = body_of b\<rparr>),
     at_readCtxErr = None, at_backoff = None\<rparr>"

definition sample_upstream :: httpUpstream where
  "sample_upstream = \<lparr>hu_cfg = sample_upstream_config,
     hu_state = \<lparr>currentHostIdx = 0, activeConnections = []\<rparr>, hu_breaker = None\<rparr>"

lemma sample_call_returns:
  "\<exists>resp u' sent. upstream_call sample_externals env now ctx original body sample_upstream =
     Some (resp, u', sent)"
  using upstream_call_total [of sample_upstream sample_externals env now ctx original body]
  by (auto simp: upstream_wf_def sample_upstream_def sample_upstream_config_def)

theorem call_sends_bounded_witness:
  "\<exists>resp u' sent. upstream_call sample_externals (\<lambda>n. refused) 100 empty_context
     (sample_request\<lparr>req_Method := ''POST''\<rparr>) ''x'' sample_upstream = Some (resp, u', sent) \<and>
     length sent \<le> 1"
proof -
  obtain resp u' sent where c: "upstream_call sample_externals (\<lambda>n. refused) 100 empty_context
     (sample_request\<lparr>req_Method := ''POST''\<rparr>) ''x'' sample_upstream = Some (resp, u', sent)"
    using sample_call_returns by blast
  have "\<not> isIdempotent (effective_method (hu_cfg sample_upstream) (sample_request\<lparr>req_Method := ''POST''\<rparr>))"
    by (simp add: isIdempotent_def effective_method_def sample_upstream_def sample_upstream_config_def)
  with call_sends_bounded [OF c] c show ?thesis by blast
qed

text \<open>
  C26. A well-formed upstream always answers, and leaves its connection counters as it found them,
  exactly when the number of retries is not negative; a negative number is a nil dereference.
\<close>

theorem call_returns_iff_retries_nonneg:
  assumes "upstream_wf u"
    and "\<forall>c \<in> set (activeConnections (hu_state u)). min_i64 \<le> c \<and> c \<le> max_i64"
  shows "(\<exists>resp u' sent. upstream_call ext env now ctx original body u = Some (resp, u', sent) \<and>
      activeConnections (hu_state u') = activeConnections (hu_state u)) \<longleftrightarrow>
    0 \<le> maxRetries (retry (uc_policy (hu_cfg u)))"
proof -
  obtain resp u1 sent where
    cwr: "callWithRetry ext env ctx original body u = Some (resp, u1, sent)"
    "resp = None \<longleftrightarrow> maxRetries (retry (uc_policy (hu_cfg u))) < 0"
    "activeConnections (hu_state u1) = activeConnections (hu_state u)"
    unfolding callWithRetry_def using retry_loop_total [OF assms, of None 0] by blast
  moreover have "hu_state (updateCircuitBreaker now r u1) = hu_state u1" for r
    by (auto simp: updateCircuitBreaker_def split: option.splits breakerOutcome.splits)
  ultimately show ?thesis
    by (cases resp) (auto simp: upstream_call_def Let_def)
qed

theorem call_returns_iff_retries_nonneg_witness:
  "(\<exists>resp u' sent. upstream_call sample_externals (\<lambda>n. refused) 100 empty_context sample_request []
      sample_upstream = Some (resp, u', sent) \<and> activeConnections (hu_state u') = []) \<and>
   upstream_call sample_externals (\<lambda>n. refused) 100 empty_context sample_request []
      (sample_upstream\<lparr>hu_cfg := sample_upstream_config\<lparr>uc_policy := (uc_policy sample_upstream_config)
         \<lparr>retry := \<lparr>maxRetries = -1, retryOnStatuses = [], backoffDelay = 0\<rparr>\<rparr>\<rparr>\<rparr>) = None"
proof -
  let ?neg = "sample_upstream\<lparr>hu_cfg := sample_upstream_config\<lparr>uc_policy := (uc_policy sample_upstream_config)
         \<lparr>retry := \<lparr>maxRetries = -1, retryOnStatuses = [], backoffDelay = 0\<rparr>\<rparr>\<rparr>\<rparr>"
  have wf: "upstream_wf sample_upstream"
    by (simp add: upstream_wf_def sample_upstream_def sample_upstream_config_def)
  have "upstream_call sample_externals (\<lambda>n. refused) 100 empty_context sample_request [] ?neg = None"
    by (simp add: upstream_call_def callWithRetry_def retry_loop.simps)
  moreover have "activeConnections (hu_state sample_upstream) = []"
    "0 \<le> maxRetries (retry (uc_policy (hu_cfg sample_upstream)))"
    by (simp_all add: sample_upstream_def sample_upstream_config_def)
  ultimately show ?thesis
    using call_returns_iff_retries_nonneg [OF wf, of sample_externals "\<lambda>n. refused" 100 empty_context
        sample_request "[]"]
    by simp
qed

text \<open>
  C27. A response without an error is one: its status is below 300, its headers hold none of the
  blacklisted names, and it has a body where the policy requires one.  The blacklist also holds
  on responses with an error.
\<close>

theorem call_success_is_honest:
  assumes "upstream_call ext env now ctx original body u = Some (resp, u', sent)"
  shows "(ur_err resp = None \<longrightarrow> ur_status resp < 300 \<and>
      (requireBody (uc_policy (hu_cfg u)) \<longrightarrow> ur_body resp \<noteq> [])) \<and>
    (\<forall>h k. ur_headers resp = Some h \<and> k \<in> set (headerBlacklist (uc_policy (hu_cfg u))) \<longrightarrow>
      k \<notin> fst ` set h)"
proof -
  obtain r u1 where cwr: "callWithRetry ext env ctx original body u = Some (Some r, u1, sent)"
    and resp: "resp = applyPolicy (uc_policy (hu_cfg u)) r"
    using assms by (rule upstream_call_cases)
  have "honest_response (hu_cfg u) r"
    using cwr unfolding callWithRetry_def by (rule retry_loop_honest)
  then show ?thesis
    using applyPolicy_err_None [of "uc_policy (hu_cfg u)" r]
    by (auto simp: honest_response_def resp)
qed

theorem call_success_is_honest_witness:
  "\<exists>resp u' sent. upstream_call sample_externals (\<lambda>n. answering 200 ''ok'') 100 empty_context
     sample_request [] sample_upstream = Some (resp, u', sent) \<and>
     (\<forall>h. ur_headers resp = Some h \<longrightarrow> ''Set-Cookie'' \<notin> fst ` set h)"
proof -
  obtain resp u' sent where c: "upstream_call sample_externals (\<lambda>n. answering 200 ''ok'') 100
     empty_context sample_request [] sample_upstream = Some (resp, u', sent)"
    using sample_call_returns by blast
  have "''Set-Cookie'' \<in> set (headerBlacklist (uc_policy (hu_cfg sample_upstream)))"
    by (simp add: sample_upstream_def sample_upstream_config_def)
  with call_success_is_honest [OF c] c show ?thesis by blast
qed

text \<open>
  The body limit: with a positive limit below the largest 64-bit number, a body is accepted
  only whole and only within the limit, and it is refused as too large exactly when more bytes
  than the limit arrive.
\<close>

theorem body_limit_exact:
  assumes "0 < limit" "limit < max_i64"
  shows "(\<forall>data. readBody limit ctxErr body = Inr data \<longrightarrow>
      ReadAll body = (data, None) \<and> int (length data) \<le> limit) \<and>
    ((\<exists>e. readBody limit ctxErr body = Inl e \<and> ue_kind e = upstreamBodyTooLarge) \<longleftrightarrow>
      int (length (fst (ReadAll (LimitReader body (limit + 1))))) = limit + 1 \<and>
      snd (ReadAll (LimitReader body (limit + 1))) = None)"
proof -
  obtain data err where ra: "ReadAll (LimitReader body (limit + 1)) = (data, err)" by force
  have le: "int (length data) \<le> limit + 1"
    using ReadAll_LimitReader_le [of "limit + 1" body] assms ra by simp
  have whole: "ReadAll body = (data, err)" if "int (length data) \<le> limit"
    using ReadAll_LimitReader_short [of body "limit + 1"] ra that by simp
  show ?thesis
    using assms ra le whole
    by (auto simp: readBody_def Let_def split: option.splits if_splits)
qed

theorem body_limit_exact_witness:
  "readBody 3 None (body_of ''abc'') = Inr ''abc'' \<and>
   (\<exists>e. readBody 3 None (body_of ''abcd'') = Inl e \<and> ue_kind e = upstreamBodyTooLarge)"
proof -
  have "readBody 3 None (body_of ''abc'') = Inr ''abc''" by (simp add: readBody_def body_of_def)
  moreover have "\<exists>e. readBody 3 None (body_of ''abcd'') = Inl e \<and> ue_kind e = upstreamBodyTooLarge"
    using body_limit_exact [of 3 None "body_of ''abcd''"] by (simp add: body_of_def)
  ultimately show ?thesis by blast
qed

text \<open>
  At the largest 64-bit number the limit wraps around: every body is accepted, as empty.
\<close>

theorem body_limit_wraps: "readBody max_i64 ctxErr body = Inr []"
proof -
  have "i64 (max_i64 + 1) = min_i64" by (simp add: i64_def)
  moreover have "LimitReader body min_i64 = []" by (cases body) auto
  ultimately show ?thesis by (simp add: readBody_def)
qed

text \<open>
  C25. Retries exhaust the probes of a recovering breaker: a call that finds the breaker open and
  the reset timeout passed, with at least two retries of an idempotent request to an upstream
  that does not answer, sends two requests, is then refused by the breaker itself, and so
  reports nothing to it.  The breaker is left half-open with its trial taken, in which state it
  admits no request at any later time.
\<close>

theorem retries_wedge_half_open_breaker:
  assumes "hu_breaker u = Some b" "state b = Open"
    and "time_sub (at_now (env 0)) (lastFailureAt b) \<ge> resetTimeout b"
    and "2 \<le> maxRetries (retry (uc_policy (hu_cfg u)))"
    and "isIdempotent (effective_method (hu_cfg u) original)"
    and "upstream_wf u"
    and "\<forall>c \<in> set (activeConnections (hu_state u)). min_i64 \<le> c \<and> c \<le> max_i64"
    and "\<And>host. \<exists>t. newRequest ext (hu_cfg u) ctx original body host = Inr t"
    and "\<And>n. unreachable (env n)" "\<And>n. at_ctxErr (env n) = None" "\<And>n. at_backoff (env n) = None"
  shows "\<exists>resp u' sent b'. upstream_call ext env now ctx original body u = Some (resp, u', sent) \<and>
    map_option ue_kind (ur_err resp) = Some upstreamCircuitOpen \<and> length sent = 2 \<and>
    hu_breaker u' = Some b' \<and> state b' = HalfOpen \<and> (\<forall>t. breaker_Allow t b' = (False, b'))"
proof -
  let ?rp = "retry (uc_policy (hu_cfg u))" and ?m = "effective_method (hu_cfg u) original"
  define b1 where "b1 = b\<lparr>state := HalfOpen, halfOpenTrial := False\<rparr>"
  define b2 where "b2 = b1\<lparr>halfOpenTrial := True\<rparr>"
  have allow0: "breaker_Allow (at_now (env 0)) b = (True, b1)"
    using assms(2,3) by (simp add: breaker_simps b1_def)
  have allow1: "breaker_Allow t b1 = (True, b2)" and allow2: "breaker_Allow t b2 = (False, b2)" for t
    by (simp_all add: breaker_simps b1_def b2_def)
  have call: "\<exists>r v' reqs. doCall ext ctx original body (env n) v = Some (r, v', reqs) \<and>
      length reqs = 1 \<and> shouldRetry ?m r ?rp \<and> hu_breaker v' = hu_breaker v \<and>
      hu_cfg v' = hu_cfg u \<and> activeConnections (hu_state v') = activeConnections (hu_state u)"
    if "hu_cfg v = hu_cfg u" "activeConnections (hu_state v) = activeConnections (hu_state u)" for v n
    using doCall_unreachable [of v ext ctx original body "env n" ?m ?rp] assms(5-9) that
    by (simp add: upstream_wf_def)
  obtain r1 u1 s1 where c1: "doCall ext ctx original body (env 0) (u\<lparr>hu_breaker := Some b1\<rparr>) = Some (r1, u1, s1)"
    "length s1 = 1" "shouldRetry ?m r1 ?rp" "hu_breaker u1 = Some b1" "hu_cfg u1 = hu_cfg u"
    "activeConnections (hu_state u1) = activeConnections (hu_state u)"
    using call [of "u\<lparr>hu_breaker := Some b1\<rparr>" 0] by auto
  obtain r2 u2 s2 where c2: "doCall ext ctx original body (env 1) (u1\<lparr>hu_breaker := Some b2\<rparr>) = Some (r2, u2, s2)"
    "length s2 = 1" "shouldRetry ?m r2 ?rp" "hu_breaker u2 = Some b2"
    using call [of "u1\<lparr>hu_breaker := Some b2\<rparr>" 1] c1 by auto
  have third: "retry_loop ext env ?rp ?m ctx original body 2 (Some r2) (s1 @ s2) u2 =
      Some (Some (failed_with upstreamCircuitOpen (ErrMsg ''upstream circuit breaker is open'')),
        u2\<lparr>hu_breaker := Some b2\<rparr>, s1 @ s2)"
    using assms(4,10) c2 by (subst retry_loop.simps) (simp add: breaker_admits_def allow2)
  have second: "retry_loop ext env ?rp ?m ctx original body 1 (Some r1) s1 u1 =
      retry_loop ext env ?rp ?m ctx original body 2 (Some r2) (s1 @ s2) u2"
    using assms(4,10,11) c1 c2
    by (subst retry_loop.simps) (simp add: breaker_admits_def allow1 numeral_2_eq_2)
  have "callWithRetry ext env ctx original body u =
      retry_loop ext env ?rp ?m ctx original body 1 (Some r1) s1 u1"
    unfolding callWithRetry_def using assms(1,4,10,11) c1
    by (subst retry_loop.simps) (simp add: breaker_admits_def allow0)
  with second third have "callWithRetry ext env ctx original body u =
      Some (Some (failed_with upstreamCircuitOpen (ErrMsg ''upstream circuit breaker is open'')),
        u2\<lparr>hu_breaker := Some b2\<rparr>, s1 @ s2)" by simp
  moreover have "state b2 = HalfOpen" by (simp add: b2_def b1_def)
  ultimately show ?thesis
    using c1(2) c2(2) allow2
    by (simp add: upstream_call_def updateCircuitBreaker_def applyPolicy_def kind_simps)
qed

theorem retries_wedge_half_open_breaker_witness:
  "\<exists>resp u' sent b'. upstream_call sample_externals (\<lambda>n. refused) 100 empty_context sample_request []
      (sample_upstream\<lparr>hu_breaker := Some (breaker_OnFailure 0 (breaker_New 1 50))\<rparr>) =
      Some (resp, u', sent) \<and>
    map_option ue_kind (ur_err resp) = Some upstreamCircuitOpen \<and> length sent = 2 \<and>
    hu_breaker u' = Some b' \<and> state b' = HalfOpen \<and> (\<forall>t. breaker_Allow t b' = (False, b'))"
proof (rule retries_wedge_half_open_breaker)
  let ?b = "breaker_OnFailure 0 (breaker_New 1 50)"
  let ?u = "sample_upstream\<lparr>hu_breaker := Some ?b\<rparr>"
  show "hu_breaker ?u = Some ?b" by simp
  show "state ?b = Open" "resetTimeout ?b \<le> time_sub (at_now refused) (lastFailureAt ?b)"
    by (simp_all add: breaker_simps refused_def time_sub_def)
  show "2 \<le> maxRetries (retry (uc_policy (hu_cfg ?u)))"
    "isIdempotent (effective_method (hu_cfg ?u) sample_request)" "upstream_wf ?u"
    "\<forall>c \<in> set (activeConnections (hu_state ?u)). min_i64 \<le> c \<and> c \<le> max_i64"
    by (simp_all add: sample_upstream_def sample_upstream_config_def sample_request_def
        isIdempotent_def effective_method_def upstream_wf_def)
  have "validMethod ''GET''" by code_simp
  then show "\<exists>t. newRequest sample_externals (hu_cfg ?u) empty_context sample_request [] host = Inr t" for host
    by (simp add: newRequest_def http_NewRequest_def Let_def sample_externals_def effective_method_def
        sample_upstream_def sample_upstream_config_def sample_request_def)
  show "unreachable refused" "at_ctxErr refused = None" "at_backoff refused = None"
    by (simp_all add: unreachable_def refused_def classifyDoError_def)
qed

end
