(* ===== verification/Aggregator.thy ===== *)
theory Aggregator
  imports Upstream_Error "HOL-Library.Char_ord" "HOL-Library.List_Lexorder"
begin

text \<open>
  \<^verbatim>\<open>aggregator.go\<close> and the aggregation settings of \<^verbatim>\<open>flow.go\<close>: how the responses of several
  upstreams become one.  The JSON library (\<^verbatim>\<open>github.com/goccy/go-json\<close>) is the parameter
  \<open>codec\<close>: what it decodes an object body to, and what it encodes the three results to.  The
  only facts about it that a theorem uses are stated as its hypotheses.
\<close>

section \<open>Settings\<close>

text \<open>Both settings are \<^verbatim>\<open>uint8\<close> types; the last constructor is any value without a name.\<close>

datatype aggregationStrategy =
  strategyMerge | strategyArray | strategyNamespace | strategyOther nat

fun aggregationStrategy_String :: "aggregationStrategy \<Rightarrow> string" where
  "aggregationStrategy_String strategyArray = ''array''"
| "aggregationStrategy_String strategyMerge = ''merge''"
| "aggregationStrategy_String strategyNamespace = ''namespace''"
| "aggregationStrategy_String (strategyOther n) = ''unknown''"

datatype conflictPolicy =
  conflictPolicyOverwrite | conflictPolicyError | conflictPolicyFirst | conflictPolicyPrefer |
  conflictPolicyOther nat

fun conflictPolicy_String :: "conflictPolicy \<Rightarrow> string" where
  "conflictPolicy_String conflictPolicyOverwrite = ''overwrite''"
| "conflictPolicy_String conflictPolicyError = ''error''"
| "conflictPolicy_String conflictPolicyFirst = ''first''"
| "conflictPolicy_String conflictPolicyPrefer = ''prefer''"
| "conflictPolicy_String (conflictPolicyOther n) = ''unknown''"

record aggregation =
  bestEffort :: bool
  strategy :: aggregationStrategy
  conflict_policy :: conflictPolicy
  preferredUpstream :: int

section \<open>Results\<close>

text \<open>A nil \<^verbatim>\<open>json.RawMessage\<close> is the empty byte string; a nil header map is \<open>None\<close>.\<close>

record aggregatedResponse =
  ar_data :: bytes
  ar_headers :: "Header option"
  ar_errors :: "ClientError list"
  ar_status :: int
  ar_partial :: bool

definition zero_aggregated :: aggregatedResponse where
  "zero_aggregated = \<lparr>ar_data = [], ar_headers = None, ar_errors = [], ar_status = 0,
     ar_partial = False\<rparr>"

definition respInternalError :: aggregatedResponse where
  "respInternalError = zero_aggregated\<lparr>ar_errors := [ClientErrInternal]\<rparr>"

definition respUpstreamMalformedError :: aggregatedResponse where
  "respUpstreamMalformedError = zero_aggregated\<lparr>ar_errors := [ClientErrUpstreamMalformed]\<rparr>"

text \<open>
  The JSON library.  \<open>'j\<close> is the type of decoded values.  An empty list given to
  \<open>marshal_array\<close> is the nil slice, which the library encodes as \<^verbatim>\<open>null\<close>.
\<close>

record 'j json_codec =
  unmarshal_object :: "bytes \<Rightarrow> go_error + (string, 'j) gomap"
  marshal_object :: "(string, 'j) gomap \<Rightarrow> go_error + bytes"
  marshal_array :: "bytes list \<Rightarrow> go_error + bytes"
  marshal_raw_object :: "(string, bytes) gomap \<Rightarrow> go_error + bytes"

section \<open>Helpers\<close>

fun collectErrors :: "upstreamResponse list \<Rightarrow> ClientError list" where
  "collectErrors [] = []"
| "collectErrors (r # rs) =
     (if ur_err r \<noteq> None then mapUpstreamError (ur_err r) # collectErrors rs
      else collectErrors rs)"

fun dedupe_loop :: "ClientError list \<Rightarrow> ClientError list \<Rightarrow> ClientError list \<Rightarrow> ClientError list" where
  "dedupe_loop seen out [] = out"
| "dedupe_loop seen out (e # es) =
     (if e \<notin> set seen then dedupe_loop (e # seen) (out @ [e]) es else dedupe_loop seen out es)"

definition dedupeErrors :: "ClientError list \<Rightarrow> ClientError list" where
  "dedupeErrors errs = (if length errs \<le> 1 then errs else dedupe_loop [] [] errs)"

fun shared_status_loop :: "int \<Rightarrow> upstreamResponse list \<Rightarrow> int" where
  "shared_status_loop status [] = status"
| "shared_status_loop status (r # rs) =
     (case ur_err r of
        None \<Rightarrow> shared_status_loop status rs
      | Some e \<Rightarrow>
          if ue_kind e \<noteq> upstreamClientError then 0
          else if status = 0 then shared_status_loop (ur_status r) rs
          else if status \<noteq> ur_status r then 0
          else shared_status_loop status rs)"

definition sharedFailureStatus :: "upstreamResponse list \<Rightarrow> int" where
  "sharedFailureStatus responses = shared_status_loop 0 responses"

fun put_all :: "('k, 'v) gomap \<Rightarrow> ('k, 'v) gomap \<Rightarrow> ('k, 'v) gomap" where
  "put_all [] m = m"
| "put_all ((k, v) # kvs) m = put_all kvs (AList.update k v m)"

fun merge_headers_loop :: "upstreamResponse list \<Rightarrow> Header \<Rightarrow> Header" where
  "merge_headers_loop [] merged = merged"
| "merge_headers_loop (r # rs) merged =
     (if ur_err r \<noteq> None then merge_headers_loop rs merged
      else merge_headers_loop rs
        (put_all (case ur_headers r of None \<Rightarrow> [] | Some h \<Rightarrow> h) merged))"

definition mergeSuccessfulHeaders :: "upstreamResponse list \<Rightarrow> Header" where
  "mergeSuccessfulHeaders responses = merge_headers_loop responses []"

section \<open>Merge\<close>

record 'j field =
  fld_value :: 'j
  fld_owner :: int

definition applyConflictPolicy ::
  "(string, 'j field) gomap \<Rightarrow> string \<Rightarrow> 'j field \<Rightarrow> aggregation \<Rightarrow>
     aggregatedResponse + (string, 'j field) gomap" where
  "applyConflictPolicy flds k incoming agg =
     (case map_of flds k of
        None \<Rightarrow> Inr (AList.update k incoming flds)
      | Some current \<Rightarrow>
          (case conflict_policy agg of
             conflictPolicyOverwrite \<Rightarrow> Inr (AList.update k incoming flds)
           | conflictPolicyFirst \<Rightarrow> Inr flds
           | conflictPolicyError \<Rightarrow> Inl (zero_aggregated\<lparr>ar_errors := [ClientErrValueConflict]\<rparr>)
           | conflictPolicyPrefer \<Rightarrow>
               if fld_owner current \<noteq> preferredUpstream agg \<and>
                  fld_owner incoming = preferredUpstream agg
               then Inr (AList.update k incoming flds)
               else Inr flds
           | conflictPolicyOther n \<Rightarrow> Inr flds))"

text \<open>The loop over the keys of one decoded object.\<close>

fun apply_object ::
  "aggregation \<Rightarrow> int \<Rightarrow> (string, 'j) gomap \<Rightarrow> (string, 'j field) gomap \<Rightarrow>
     aggregatedResponse + (string, 'j field) gomap" where
  "apply_object agg idx [] flds = Inr flds"
| "apply_object agg idx ((k, v) # obj) flds =
     (case applyConflictPolicy flds k \<lparr>fld_value = v, fld_owner = idx\<rparr> agg of
        Inl r \<Rightarrow> Inl r
      | Inr flds' \<Rightarrow> apply_object agg idx obj flds')"

text \<open>
  The loop over the responses: an early result, or the merged fields with the errors met and
  whether some response was successful.
\<close>

fun collect_loop ::
  "'j json_codec \<Rightarrow> aggregation \<Rightarrow> upstreamResponse list \<Rightarrow> int \<Rightarrow> upstreamResponse list \<Rightarrow>
     (string, 'j field) gomap \<Rightarrow> ClientError list \<Rightarrow> bool \<Rightarrow>
     aggregatedResponse + (string, 'j field) gomap \<times> ClientError list \<times> bool" where
  "collect_loop codec agg responses idx [] flds aggErrors hasSuccessful =
     Inr (flds, aggErrors, hasSuccessful)"
| "collect_loop codec agg responses idx (resp # rest) flds aggErrors hasSuccessful =
     (if ur_err resp \<noteq> None then
        if \<not> bestEffort agg then
          Inl (zero_aggregated\<lparr>ar_errors := dedupeErrors (collectErrors responses),
                 ar_status := sharedFailureStatus responses\<rparr>)
        else collect_loop codec agg responses (idx + 1) rest flds
               (aggErrors @ [mapUpstreamError (ur_err resp)]) hasSuccessful
      else if ur_body resp = [] then
        collect_loop codec agg responses (idx + 1) rest flds aggErrors True
      else
        case unmarshal_object codec (ur_body resp) of
          Inl err \<Rightarrow>
            if \<not> bestEffort agg then Inl respUpstreamMalformedError
            else collect_loop codec agg responses (idx + 1) rest flds
                   (aggErrors @ [ClientErrUpstreamMalformed]) True
        | Inr obj \<Rightarrow>
            (case apply_object agg idx obj flds of
               Inl r \<Rightarrow> Inl r
             | Inr flds' \<Rightarrow>
                 collect_loop codec agg responses (idx + 1) rest flds' aggErrors True))"

definition collectFields ::
  "'j json_codec \<Rightarrow> upstreamResponse list \<Rightarrow> aggregation \<Rightarrow>
     aggregatedResponse + (string, 'j field) gomap \<times> ClientError list \<times> bool" where
  "collectFields codec responses agg = collect_loop codec agg responses 0 responses [] [] False"

definition merged ::
  "'j json_codec \<Rightarrow> upstreamResponse list \<Rightarrow> aggregation \<Rightarrow> aggregatedResponse" where
  "merged codec responses agg =
     (case collectFields codec responses agg of
        Inl early \<Rightarrow> early
      | Inr (flds, aggErrors, hasSuccessful) \<Rightarrow>
          (case marshal_object codec (map (\<lambda>(k, f). (k, fld_value f)) flds) of
             Inl err \<Rightarrow> respInternalError
           | Inr data \<Rightarrow>
               \<lparr>ar_data = data, ar_headers = Some (mergeSuccessfulHeaders responses),
                ar_errors = dedupeErrors aggErrors, ar_status = 0,
                ar_partial = (length aggErrors > 0 \<and> hasSuccessful)\<rparr>))"

section \<open>Array\<close>

fun array_loop ::
  "aggregation \<Rightarrow> upstreamResponse list \<Rightarrow> upstreamResponse list \<Rightarrow> bytes list \<Rightarrow>
     ClientError list \<Rightarrow> bool \<Rightarrow> aggregatedResponse + bytes list \<times> ClientError list \<times> bool" where
  "array_loop agg responses [] arr aggErrors hasSuccessful = Inr (arr, aggErrors, hasSuccessful)"
| "array_loop agg responses (resp # rest) arr aggErrors hasSuccessful =
     (if ur_err resp \<noteq> None then
        if \<not> bestEffort agg then
          Inl (zero_aggregated\<lparr>ar_errors := dedupeErrors (collectErrors responses),
                 ar_status := sharedFailureStatus responses\<rparr>)
        else array_loop agg responses rest arr
               (aggErrors @ [mapUpstreamError (ur_err resp)]) hasSuccessful
      else array_loop agg responses rest
             (if length (ur_body resp) > 0 then arr @ [ur_body resp] else arr) aggErrors True)"

definition arrayed ::
  "'j json_codec \<Rightarrow> upstreamResponse list \<Rightarrow> aggregation \<Rightarrow> aggregatedResponse" where
  "arrayed codec responses agg =
     (case array_loop agg responses responses [] [] False of
        Inl early \<Rightarrow> early
      | Inr (arr, aggErrors, hasSuccessful) \<Rightarrow>
          (case marshal_array codec arr of
             Inl err \<Rightarrow> respUpstreamMalformedError
           | Inr data \<Rightarrow>
               \<lparr>ar_data = data, ar_headers = Some (mergeSuccessfulHeaders responses),
                ar_errors = dedupeErrors aggErrors, ar_status = 0,
                ar_partial = (length aggErrors > 0 \<and> hasSuccessful)\<rparr>))"

section \<open>Namespace\<close>

text \<open>
  The upstreams enter with their names only; asking for the name of an upstream that does not
  exist is an index panic.
\<close>

fun namespace_loop ::
  "aggregation \<Rightarrow> upstreamResponse list \<Rightarrow> string list \<Rightarrow> upstreamResponse list \<Rightarrow>
     (string, bytes) gomap \<Rightarrow> ClientError list \<Rightarrow> bool \<Rightarrow>
     (aggregatedResponse + (string, bytes) gomap \<times> ClientError list \<times> bool) go" where
  "namespace_loop agg responses names [] result aggErrors hasSuccessful =
     Some (Inr (result, aggErrors, hasSuccessful))"
| "namespace_loop agg responses [] (resp # rest) result aggErrors hasSuccessful = None"
| "namespace_loop agg responses (name # names) (resp # rest) result aggErrors hasSuccessful =
     (if ur_err resp \<noteq> None then
        if \<not> bestEffort agg then
          Some (Inl (zero_aggregated\<lparr>ar_errors := [mapUpstreamError (ur_err resp)],
                       ar_status := sharedFailureStatus responses\<rparr>))
        else namespace_loop agg responses names rest result
               (aggErrors @ [mapUpstreamError (ur_err resp)]) hasSuccessful
      else namespace_loop agg responses names rest
             (AList.update name (if length (ur_body resp) = 0 then ''null'' else ur_body resp) result)
             aggErrors True)"

definition namespaced ::
  "'j json_codec \<Rightarrow> string list \<Rightarrow> upstreamResponse list \<Rightarrow> aggregation \<Rightarrow>
     aggregatedResponse go" where
  "namespaced codec names responses agg =
     (case namespace_loop agg responses names responses [] [] False of
        None \<Rightarrow> None
      | Some (Inl early) \<Rightarrow> Some early
      | Some (Inr (result, aggErrors, hasSuccessful)) \<Rightarrow>
          Some (case marshal_raw_object codec result of
             Inl err \<Rightarrow> respInternalError
           | Inr data \<Rightarrow>
               \<lparr>ar_data = data, ar_headers = Some (mergeSuccessfulHeaders responses),
                ar_errors = dedupeErrors aggErrors, ar_status = 0,
                ar_partial = (length aggErrors > 0 \<and> hasSuccessful)\<rparr>))"

section \<open>The entry point\<close>

definition aggregate ::
  "'j json_codec \<Rightarrow> string list \<Rightarrow> upstreamResponse list \<Rightarrow> aggregation \<Rightarrow>
     aggregatedResponse go" where
  "aggregate codec names responses agg =
     (case strategy agg of
        strategyMerge \<Rightarrow> Some (merged codec responses agg)
      | strategyArray \<Rightarrow> Some (arrayed codec responses agg)
      | strategyNamespace \<Rightarrow> namespaced codec names responses agg
      | strategyOther n \<Rightarrow> Some zero_aggregated)"

section \<open>Lemmas: errors and statuses\<close>

lemma dedupe_loop_append:
  "dedupe_loop seen out es = out @ dedupe_loop seen [] es"
proof (induction es arbitrary: seen out)
  case Nil
  show ?case by simp
next
  case (Cons e es)
  show ?case
    using Cons [of "e # seen" "out @ [e]"] Cons [of "e # seen" "[e]"] Cons [of seen out]
    by simp
qed

lemma dedupe_loop_filter:
  "dedupe_loop seen [] es = filter (\<lambda>e. e \<notin> set seen) (dedupe_loop [] [] es)"
proof (induction es arbitrary: seen)
  case Nil
  show ?case by simp
next
  case (Cons e es)
  show ?case
    using Cons [of "e # seen"] Cons [of "[e]"] Cons [of seen]
    by (auto simp: dedupe_loop_append [of _ "[e]"] intro: filter_cong)
qed

lemma dedupe_loop_Cons:
  "dedupe_loop [] [] (e # es) = e # filter (\<lambda>x. x \<noteq> e) (dedupe_loop [] [] es)"
  by (simp add: dedupe_loop_append [of _ "[e]"] dedupe_loop_filter [of "[e]"])

lemma dedupeErrors_eq: "dedupeErrors es = dedupe_loop [] [] es"
  by (cases es) (auto simp: dedupeErrors_def)

lemma remdups_snoc: "remdups (xs @ [x]) = filter (\<lambda>y. y \<noteq> x) (remdups xs) @ [x]"
  by (induction xs) auto

lemma dedupeErrors_remdups: "dedupeErrors es = rev (remdups (rev es))"
proof (induction es)
  case Nil
  show ?case by (simp add: dedupeErrors_def)
next
  case (Cons e es)
  then show ?case
    by (simp del: dedupe_loop.simps add: dedupeErrors_eq dedupe_loop_Cons remdups_snoc rev_filter)
qed

lemma set_dedupeErrors [simp]: "set (dedupeErrors es) = set es"
  by (simp add: dedupeErrors_remdups)

lemma dedupeErrors_Nil_iff [simp]: "dedupeErrors es = [] \<longleftrightarrow> es = []"
  by (simp add: dedupeErrors_remdups)

lemma collectErrors_Nil_iff: "collectErrors rs = [] \<longleftrightarrow> (\<forall>r \<in> set rs. ur_err r = None)"
  by (induction rs) auto

text \<open>A response that failed, if at all, with the given client error status.\<close>

definition fails_only_with :: "int \<Rightarrow> upstreamResponse \<Rightarrow> bool" where
  "fails_only_with st r \<longleftrightarrow>
     (case ur_err r of
        None \<Rightarrow> True
      | Some e \<Rightarrow> ue_kind e = upstreamClientError \<and> ur_status r = st)"

lemma shared_status_loop_eq:
  assumes "st \<noteq> 0"
  shows "shared_status_loop st rs = (if list_all (fails_only_with st) rs then st else 0)"
  using assms
  by (induction rs) (auto simp: fails_only_with_def split: option.splits)

lemma sharedFailureStatus_iff:
  assumes "st \<noteq> 0"
    and "\<And>r. r \<in> set rs \<Longrightarrow> ur_err r \<noteq> None \<Longrightarrow> ur_status r \<noteq> 0"
  shows "sharedFailureStatus rs = st \<longleftrightarrow>
    list_all (fails_only_with st) rs \<and> (\<exists>r \<in> set rs. ur_err r \<noteq> None)"
  unfolding sharedFailureStatus_def
  using assms(2)
proof (induction rs)
  case Nil
  with assms(1) show ?case by simp
next
  case (Cons r rs)
  show ?case
  proof (cases "ur_err r")
    case None
    with Cons show ?thesis by (simp add: fails_only_with_def)
  next
    case (Some e)
    with Cons.prems have "ur_status r \<noteq> 0" by simp
    with Some assms(1) show ?thesis
      by (auto simp: shared_status_loop_eq fails_only_with_def [of _ r])
  qed
qed

section \<open>Lemmas: merge\<close>

text \<open>What one key holds after a value came in for it.\<close>

definition resolve :: "aggregation \<Rightarrow> 'j field option \<Rightarrow> 'j field \<Rightarrow> 'j field" where
  "resolve agg cur inc =
     (case cur of
        None \<Rightarrow> inc
      | Some c \<Rightarrow>
          (case conflict_policy agg of
             conflictPolicyOverwrite \<Rightarrow> inc
           | conflictPolicyPrefer \<Rightarrow>
               if fld_owner c \<noteq> preferredUpstream agg \<and> fld_owner inc = preferredUpstream agg
               then inc else c
           | _ \<Rightarrow> c))"

definition conflict_response :: aggregatedResponse where
  "conflict_response = zero_aggregated\<lparr>ar_errors := [ClientErrValueConflict]\<rparr>"

lemma applyConflictPolicy_Inr:
  "applyConflictPolicy flds k inc agg = Inr flds' \<Longrightarrow>
     map_of flds' = (map_of flds)(k \<mapsto> resolve agg (map_of flds k) inc)"
  by (auto simp: applyConflictPolicy_def resolve_def update_conv' fun_eq_iff
      split: option.splits conflictPolicy.splits if_splits)

lemma applyConflictPolicy_Inl:
  "applyConflictPolicy flds k inc agg = Inl r \<longleftrightarrow>
     conflict_policy agg = conflictPolicyError \<and> map_of flds k \<noteq> None \<and> r = conflict_response"
  by (auto simp: applyConflictPolicy_def conflict_response_def
      split: option.splits conflictPolicy.splits if_splits)

lemma applyConflictPolicy_distinct:
  "applyConflictPolicy flds k inc agg = Inr flds' \<Longrightarrow> distinct (map fst flds) \<Longrightarrow>
     distinct (map fst flds')"
  by (auto simp: applyConflictPolicy_def distinct_update
      split: option.splits conflictPolicy.splits if_splits)

lemma apply_object_Inr:
  assumes "distinct (map fst obj)" and "apply_object agg idx obj flds = Inr flds'"
  shows "map_of flds' k =
    (case map_of obj k of
       None \<Rightarrow> map_of flds k
     | Some v \<Rightarrow> Some (resolve agg (map_of flds k) \<lparr>fld_value = v, fld_owner = idx\<rparr>))"
  using assms
proof (induction agg idx obj flds rule: apply_object.induct)
  case (1 agg idx flds)
  then show ?case by simp
next
  case (2 agg idx k' v obj flds)
  then obtain g where g: "applyConflictPolicy flds k' \<lparr>fld_value = v, fld_owner = idx\<rparr> agg = Inr g"
    by (auto split: sum.splits)
  have "map_of obj k' = None" using 2(2) by (auto simp: map_of_eq_None_iff)
  with 2(1) [OF g] 2(2,3) g applyConflictPolicy_Inr [OF g] show ?case
    by (auto split: option.splits)
qed

lemma apply_object_distinct:
  "apply_object agg idx obj flds = Inr flds' \<Longrightarrow> distinct (map fst flds) \<Longrightarrow>
     distinct (map fst flds')"
  by (induction agg idx obj flds rule: apply_object.induct)
    (auto split: sum.splits dest: applyConflictPolicy_distinct)

lemma apply_object_Inl:
  assumes "distinct (map fst obj)"
  shows "apply_object agg idx obj flds = Inl r \<longleftrightarrow>
    conflict_policy agg = conflictPolicyError \<and> r = conflict_response \<and>
    (\<exists>k. map_of obj k \<noteq> None \<and> map_of flds k \<noteq> None)"
  using assms
proof (induction agg idx obj flds rule: apply_object.induct)
  case (1 agg idx flds)
  then show ?case by simp
next
  case (2 agg idx k' v obj flds)
  have none: "map_of obj k' = None" using 2(2) by (auto simp: map_of_eq_None_iff)
  show ?case
  proof (cases "applyConflictPolicy flds k' \<lparr>fld_value = v, fld_owner = idx\<rparr> agg")
    case (Inl r')
    then have "conflict_policy agg = conflictPolicyError" "map_of flds k' \<noteq> None"
      "r' = conflict_response"
      unfolding applyConflictPolicy_Inl by simp_all
    with Inl show ?thesis by auto
  next
    case (Inr g)
    then have "conflict_policy agg = conflictPolicyError \<Longrightarrow> map_of flds k' = None"
      using applyConflictPolicy_Inl [of flds k' "\<lparr>fld_value = v, fld_owner = idx\<rparr>" agg]
      by fastforce
    with 2(1) [OF Inr] 2(2) Inr none applyConflictPolicy_Inr [OF Inr] show ?thesis
      by auto
  qed
qed

text \<open>The values that the successful responses give a key, in the order of the upstreams.\<close>

fun contributions :: "'j json_codec \<Rightarrow> int \<Rightarrow> upstreamResponse list \<Rightarrow> string \<Rightarrow> 'j field list" where
  "contributions codec idx [] k = []"
| "contributions codec idx (r # rs) k =
     (if ur_err r \<noteq> None \<or> ur_body r = [] then []
      else case unmarshal_object codec (ur_body r) of
        Inl err \<Rightarrow> []
      | Inr obj \<Rightarrow>
          (case map_of obj k of None \<Rightarrow> [] | Some v \<Rightarrow> [\<lparr>fld_value = v, fld_owner = idx\<rparr>]))
     @ contributions codec (idx + 1) rs k"

text \<open>The documented meaning of the policies: which contribution a key ends up with.\<close>

definition policy_choice :: "aggregation \<Rightarrow> 'j field list \<Rightarrow> 'j field option" where
  "policy_choice agg cs =
     (if cs = [] then None
      else case conflict_policy agg of
        conflictPolicyOverwrite \<Rightarrow> Some (last cs)
      | conflictPolicyPrefer \<Rightarrow>
          (case find (\<lambda>c. fld_owner c = preferredUpstream agg) cs of
             Some c \<Rightarrow> Some c | None \<Rightarrow> Some (hd cs))
      | _ \<Rightarrow> Some (hd cs))"

definition decodes_maps :: "'j json_codec \<Rightarrow> bool" where
  "decodes_maps codec \<longleftrightarrow>
     (\<forall>b obj. unmarshal_object codec b = Inr obj \<longrightarrow> distinct (map fst obj))"

definition resolve_all :: "aggregation \<Rightarrow> 'j field option \<Rightarrow> 'j field list \<Rightarrow> 'j field option" where
  "resolve_all agg cur cs = foldl (\<lambda>acc inc. Some (resolve agg acc inc)) cur cs"

lemma resolve_all_simps [simp]:
  "resolve_all agg cur [] = cur"
  "resolve_all agg cur (c # cs) = resolve_all agg (Some (resolve agg cur c)) cs"
  "resolve_all agg cur (cs @ ds) = resolve_all agg (resolve_all agg cur cs) ds"
  by (simp_all add: resolve_all_def)

lemma resolve_all_overwrite:
  "conflict_policy agg = conflictPolicyOverwrite \<Longrightarrow>
     resolve_all agg cur cs = (if cs = [] then cur else Some (last cs))"
  by (induction cs arbitrary: cur) (auto simp: resolve_def split: option.splits)

lemma resolve_all_prefer:
  "conflict_policy agg = conflictPolicyPrefer \<Longrightarrow>
     resolve_all agg (Some c) cs =
       (case find (\<lambda>c. fld_owner c = preferredUpstream agg) (c # cs) of
          Some d \<Rightarrow> Some d | None \<Rightarrow> Some c)"
  by (induction cs arbitrary: c) (auto simp: resolve_def split: option.splits)

lemma resolve_all_keep:
  "conflict_policy agg \<notin> {conflictPolicyOverwrite, conflictPolicyPrefer} \<Longrightarrow>
     resolve_all agg (Some c) cs = Some c"
  by (induction cs) (auto simp: resolve_def split: conflictPolicy.splits)

lemma resolve_all_choice: "resolve_all agg None cs = policy_choice agg cs"
proof (cases cs)
  case Nil
  then show ?thesis by (simp add: policy_choice_def)
next
  case (Cons c ds)
  have r: "resolve agg None c = c" by (simp add: resolve_def)
  show ?thesis
  proof (cases "conflict_policy agg \<in> {conflictPolicyOverwrite, conflictPolicyPrefer}")
    case True
    with Cons r show ?thesis
      by (auto simp: policy_choice_def resolve_all_overwrite resolve_all_prefer
          split: option.splits)
  next
    case False
    then have "resolve_all agg None cs = Some c"
      using Cons r by (simp add: resolve_all_keep)
    with False Cons show ?thesis
      by (auto simp: policy_choice_def split: conflictPolicy.splits)
  qed
qed

lemma collect_loop_fields:
  assumes "decodes_maps codec"
    and "collect_loop codec agg all idx rs flds es s = Inr (flds', es', s')"
  shows "map_of flds' k = resolve_all agg (map_of flds k) (contributions codec idx rs k)"
  using assms(2)
proof (induction rs arbitrary: idx flds es s)
  case Nil
  then show ?case by simp
next
  case (Cons r rs)
  show ?case
  proof (cases "ur_err r \<noteq> None \<or> ur_body r = []")
    case True
    with Cons show ?thesis by (auto split: if_splits)
  next
    case False
    show ?thesis
    proof (cases "unmarshal_object codec (ur_body r)")
      case (Inl err)
      with Cons False show ?thesis by (auto split: if_splits)
    next
      case (Inr obj)
      with Cons.prems False obtain g where g: "apply_object agg idx obj flds = Inr g"
        and rest: "collect_loop codec agg all (idx + 1) rs g es True = Inr (flds', es', s')"
        by (auto split: sum.splits)
      have "distinct (map fst obj)" using assms(1) Inr by (auto simp: decodes_maps_def)
      from apply_object_Inr [OF this g] Cons.IH [OF rest] False Inr show ?thesis
        by (auto split: option.splits)
    qed
  qed
qed

text \<open>Under the \<^verbatim>\<open>error\<close> policy an early result of a best-effort merge is a repeated key.\<close>

definition seen :: "('k, 'v) gomap \<Rightarrow> 'k \<Rightarrow> nat" where
  "seen m k = (if map_of m k = None then 0 else 1)"

lemma collect_loop_conflict:
  assumes "decodes_maps codec" and "bestEffort agg"
    and "conflict_policy agg = conflictPolicyError"
  shows "(\<exists>r. collect_loop codec agg all idx rs flds es s = Inl r) \<longleftrightarrow>
    (\<exists>k. 2 \<le> seen flds k + length (contributions codec idx rs k))"
proof (induction rs arbitrary: idx flds es s)
  case Nil
  show ?case by (auto simp: seen_def)
next
  case (Cons r rs)
  show ?case
  proof (cases "ur_err r \<noteq> None \<or> ur_body r = []")
    case True
    with Cons assms(2) show ?thesis by auto
  next
    case False
    show ?thesis
    proof (cases "unmarshal_object codec (ur_body r)")
      case (Inl err)
      with False Cons assms(2) show ?thesis by auto
    next
      case obj: (Inr obj)
      have d: "distinct (map fst obj)" using assms(1) obj by (auto simp: decodes_maps_def)
      show ?thesis
      proof (cases "apply_object agg idx obj flds")
        case (Inl e)
        then obtain k v where "map_of obj k = Some v" "map_of flds k \<noteq> None"
          using apply_object_Inl [OF d] by auto
        with False obj Inl show ?thesis
          by (auto simp: seen_def intro!: exI [of _ k])
      next
        case (Inr g)
        then have fresh: "map_of obj k = None \<or> map_of flds k = None" for k
          using apply_object_Inl [OF d, of agg idx flds conflict_response] assms(3) by auto
        have "seen g k + length (contributions codec (idx + 1) rs k) =
            seen flds k + length (contributions codec idx (r # rs) k)" for k
          using fresh [of k] False obj apply_object_Inr [OF d Inr, of k]
          by (auto simp: seen_def split: option.splits)
        with False obj Inr Cons show ?thesis by (simp add: add.assoc)
      qed
    qed
  qed
qed

text \<open>The error a response adds to a best-effort merge.\<close>

definition merge_error :: "'j json_codec \<Rightarrow> upstreamResponse \<Rightarrow> ClientError list" where
  "merge_error codec r =
     (if ur_err r \<noteq> None then [mapUpstreamError (ur_err r)]
      else if ur_body r = [] then []
      else case unmarshal_object codec (ur_body r) of
        Inl err \<Rightarrow> [ClientErrUpstreamMalformed] | Inr obj \<Rightarrow> [])"

lemma collect_step_best_effort:
  assumes "decodes_maps codec" and "bestEffort agg"
    and "conflict_policy agg \<noteq> conflictPolicyError"
  shows "\<exists>g. collect_loop codec agg all idx (r # rs) flds es s =
    collect_loop codec agg all (idx + 1) rs g (es @ merge_error codec r) (s \<or> ur_err r = None)"
proof (cases "ur_err r = None \<and> ur_body r \<noteq> []")
  case True
  show ?thesis
  proof (cases "unmarshal_object codec (ur_body r)")
    case (Inl err)
    with True assms(2) show ?thesis by (auto simp: merge_error_def)
  next
    case (Inr obj)
    then have "distinct (map fst obj)" using assms(1) by (auto simp: decodes_maps_def)
    from apply_object_Inl [OF this, of agg idx flds] assms(3)
    obtain g where "apply_object agg idx obj flds = Inr g"
      by (cases "apply_object agg idx obj flds") auto
    with True Inr show ?thesis by (auto simp: merge_error_def)
  qed
next
  case False
  with assms(2) show ?thesis by (auto simp: merge_error_def)
qed

lemma collect_loop_best_effort:
  assumes "decodes_maps codec" and "bestEffort agg"
    and "conflict_policy agg \<noteq> conflictPolicyError"
  shows "\<exists>flds'. collect_loop codec agg all idx rs flds es s =
    Inr (flds', es @ concat (map (merge_error codec) rs), s \<or> (\<exists>r \<in> set rs. ur_err r = None))"
proof (induction rs arbitrary: idx flds es s)
  case Nil
  show ?case by simp
next
  case (Cons r rs)
  obtain g where "collect_loop codec agg all idx (r # rs) flds es s =
      collect_loop codec agg all (idx + 1) rs g (es @ merge_error codec r) (s \<or> ur_err r = None)"
    using collect_step_best_effort [OF assms] by blast
  with Cons [of "idx + 1" g "es @ merge_error codec r" "s \<or> ur_err r = None"] show ?case
    by (simp del: collect_loop.simps)
qed

lemma collect_loop_strict:
  assumes "\<not> bestEffort agg" and "\<exists>r \<in> set rs. ur_err r \<noteq> None"
    and "set rs \<subseteq> set all"
  shows "\<exists>a. collect_loop codec agg all idx rs flds es s = Inl a \<and>
    ar_data a = [] \<and> ar_errors a \<noteq> [] \<and> \<not> ar_partial a"
  using assms(2,3)
proof (induction rs arbitrary: idx flds es s)
  case Nil
  then show ?case by simp
next
  case (Cons r rs)
  show ?case
  proof (cases "ur_err r")
    case (Some e)
    with Cons.prems have "collectErrors all \<noteq> []" by (auto simp: collectErrors_Nil_iff)
    with Some assms(1) show ?thesis by (simp add: zero_aggregated_def)
  next
    case None
    with Cons.prems have rest: "\<exists>r \<in> set rs. ur_err r \<noteq> None" "set rs \<subseteq> set all" by auto
    have conflict: "apply_object agg idx obj flds = Inl a \<Longrightarrow>
        ar_data a = [] \<and> ar_errors a \<noteq> [] \<and> \<not> ar_partial a" for a obj
      by (induction agg idx obj flds rule: apply_object.induct)
        (auto simp: applyConflictPolicy_Inl conflict_response_def zero_aggregated_def
          split: sum.splits)
    from None assms(1) Cons.IH [OF rest] conflict show ?thesis
      by (auto simp: respUpstreamMalformedError_def zero_aggregated_def split: sum.splits)
  qed
qed

section \<open>Lemmas: array and namespace\<close>

definition array_bodies :: "upstreamResponse list \<Rightarrow> bytes list" where
  "array_bodies rs = map ur_body (filter (\<lambda>r. ur_err r = None \<and> ur_body r \<noteq> []) rs)"

lemma array_loop_lenient:
  assumes "bestEffort agg \<or> collectErrors rs = []"
  shows "array_loop agg all rs arr es s =
    Inr (arr @ array_bodies rs, es @ collectErrors rs, s \<or> (\<exists>r \<in> set rs. ur_err r = None))"
  using assms
  by (induction rs arbitrary: arr es s) (auto simp: array_bodies_def)

lemma array_loop_strict:
  assumes "\<not> bestEffort agg" and "collectErrors rs \<noteq> []"
  shows "array_loop agg all rs arr es s =
    Inl (zero_aggregated\<lparr>ar_errors := dedupeErrors (collectErrors all),
           ar_status := sharedFailureStatus all\<rparr>)"
  using assms by (induction rs arbitrary: arr es s) auto

text \<open>The entries of a namespace result, in the order of the upstreams.\<close>

fun ns_entries :: "string list \<Rightarrow> upstreamResponse list \<Rightarrow> (string, bytes) gomap" where
  "ns_entries (n # ns) (r # rs) =
     (if ur_err r = None then [(n, if ur_body r = [] then ''null'' else ur_body r)] else [])
     @ ns_entries ns rs"
| "ns_entries _ _ = []"

lemma put_all_append: "put_all (xs @ ys) m = put_all ys (put_all xs m)"
  by (induction xs m rule: put_all.induct) auto

lemma map_of_put_all: "distinct (map fst xs) \<Longrightarrow> map_of (put_all xs m) = map_of m ++ map_of xs"
proof (induction xs m rule: put_all.induct)
  case (1 m)
  show ?case by simp
next
  case (2 k v kvs m)
  then have "map_of kvs k = None" by (auto simp: map_of_eq_None_iff)
  with 2 show ?case by (auto simp: update_conv' map_add_def fun_eq_iff split: option.splits)
qed

lemma namespace_loop_lenient:
  assumes "bestEffort agg \<or> collectErrors rs = []" and "length rs \<le> length names"
  shows "namespace_loop agg all names rs result es s =
    Some (Inr (put_all (ns_entries names rs) result, es @ collectErrors rs,
               s \<or> (\<exists>r \<in> set rs. ur_err r = None)))"
  using assms
proof (induction agg all names rs result es s rule: namespace_loop.induct)
  case (3 agg all name names r rs result es s)
  then show ?case by (auto split: if_splits)
qed auto

text \<open>The first failure in the order of the upstreams.\<close>

lemma namespace_loop_strict:
  assumes "\<not> bestEffort agg" and "collectErrors rs \<noteq> []" and "length rs \<le> length names"
  shows "namespace_loop agg all names rs result es s =
    Some (Inl (zero_aggregated\<lparr>ar_errors := [hd (collectErrors rs)],
                 ar_status := sharedFailureStatus all\<rparr>))"
  using assms
proof (induction agg all names rs result es s rule: namespace_loop.induct)
  case (3 agg all name names r rs result es s)
  then show ?case by (auto split: if_splits)
qed auto

lemma merge_headers_loop_eq:
  assumes "\<And>r h. r \<in> set rs \<Longrightarrow> ur_headers r = Some h \<Longrightarrow> distinct (map fst h)"
  shows "map_of (merge_headers_loop rs m) k =
    foldl (\<lambda>cur r. case Option.bind (ur_headers r) (\<lambda>h. map_of h k) of None \<Rightarrow> cur | Some v \<Rightarrow> Some v)
      (map_of m k) (filter (\<lambda>r. ur_err r = None) rs)"
  using assms
proof (induction rs arbitrary: m)
  case (Cons r rs)
  have IH: "map_of (merge_headers_loop rs m) k =
    foldl (\<lambda>cur r. case Option.bind (ur_headers r) (\<lambda>h. map_of h k) of None \<Rightarrow> cur | Some v \<Rightarrow> Some v)
      (map_of m k) (filter (\<lambda>r. ur_err r = None) rs)" for m
    using Cons.IH Cons.prems by (metis list.set_intros(2))
  show ?case
    using Cons.prems [of r]
    by (cases "ur_headers r") (auto simp: IH map_of_put_all map_add_def split: option.splits)
qed simp

lemma foldl_last_Some:
  "foldl (\<lambda>cur x. case f x of None \<Rightarrow> cur | Some v \<Rightarrow> Some v) a xs =
     (case filter (\<lambda>x. f x \<noteq> None) xs of [] \<Rightarrow> a | y # ys \<Rightarrow> f (last (y # ys)))"
  by (induction xs arbitrary: a) (auto split: option.splits list.splits)

text \<open>The errors one response adds to a best-effort result of the given strategy.\<close>

definition response_errors :: "'j json_codec \<Rightarrow> aggregation \<Rightarrow> upstreamResponse \<Rightarrow> ClientError list" where
  "response_errors codec agg r =
     (if strategy agg = strategyMerge then merge_error codec r else collectErrors [r])"

lemma collectErrors_concat: "collectErrors rs = concat (map (\<lambda>r. collectErrors [r]) rs)"
  by (induction rs) auto

definition never_fails :: "'j json_codec \<Rightarrow> bool" where
  "never_fails codec \<longleftrightarrow>
     (\<forall>m. \<exists>b. marshal_object codec m = Inr b) \<and> (\<forall>m. \<exists>b. marshal_array codec m = Inr b) \<and>
     (\<forall>m. \<exists>b. marshal_raw_object codec m = Inr b)"

section \<open>Lemmas: iteration order\<close>

text \<open>
  Two decoders that agree up to the order in which a \<^verbatim>\<open>range\<close> loop visits the keys of an
  object, and an encoder whose output depends on the map and not on that order: the documented
  behaviour of the library, which sorts the keys of a map.
\<close>

definition same_objects :: "'j json_codec \<Rightarrow> 'j json_codec \<Rightarrow> bool" where
  "same_objects c c' \<longleftrightarrow>
     (\<forall>b. rel_sum (=) (\<lambda>o1 o2. map_of o1 = map_of o2)
        (unmarshal_object c b) (unmarshal_object c' b))"

definition sorts_keys :: "'j json_codec \<Rightarrow> 'j json_codec \<Rightarrow> bool" where
  "sorts_keys c c' \<longleftrightarrow>
     (\<forall>m m'. distinct (map fst m) \<longrightarrow> distinct (map fst m') \<longrightarrow> map_of m = map_of m' \<longrightarrow>
        marshal_object c m = marshal_object c' m')"

definition same_fields ::
  "(string, 'j field) gomap \<times> ClientError list \<times> bool \<Rightarrow>
   (string, 'j field) gomap \<times> ClientError list \<times> bool \<Rightarrow> bool" where
  "same_fields p q \<longleftrightarrow>
     map_of (fst p) = map_of (fst q) \<and> snd p = snd q \<and>
     distinct (map fst (fst p)) \<and> distinct (map fst (fst q))"

lemma apply_object_order:
  assumes "distinct (map fst o1)" "distinct (map fst o2)" "map_of o1 = map_of o2"
    and "map_of f1 = map_of f2" "distinct (map fst f1)" "distinct (map fst f2)"
  shows "rel_sum (=) (\<lambda>g1 g2. map_of g1 = map_of g2 \<and> distinct (map fst g1) \<and> distinct (map fst g2))
    (apply_object agg idx o1 f1) (apply_object agg idx o2 f2)"
proof (cases "apply_object agg idx o1 f1")
  case (Inl r)
  then have "apply_object agg idx o2 f2 = Inl r"
    using assms apply_object_Inl [OF assms(1)] apply_object_Inl [OF assms(2)] by simp
  with Inl show ?thesis by simp
next
  case (Inr g1)
  then have "\<nexists>r. apply_object agg idx o2 f2 = Inl r"
    using assms apply_object_Inl [OF assms(1), of agg idx f1]
      apply_object_Inl [OF assms(2), of agg idx f2] by auto
  then obtain g2 where g2: "apply_object agg idx o2 f2 = Inr g2"
    by (cases "apply_object agg idx o2 f2") auto
  have "map_of g1 = map_of g2"
  proof
    show "map_of g1 k = map_of g2 k" for k
      by (cases "map_of o2 k")
        (simp_all add: apply_object_Inr [OF assms(1) Inr] apply_object_Inr [OF assms(2) g2]
          assms(3,4))
  qed
  with Inr g2 assms(5,6) show ?thesis by (auto intro: apply_object_distinct)
qed

lemma collect_loop_order:
  assumes "decodes_maps c" "decodes_maps c'" "same_objects c c'"
    and "map_of f1 = map_of f2" "distinct (map fst f1)" "distinct (map fst f2)"
  shows "rel_sum (=) same_fields
    (collect_loop c agg all idx rs f1 es s) (collect_loop c' agg all idx rs f2 es s)"
  using assms(4-6)
proof (induction rs arbitrary: idx f1 f2 es s)
  case Nil
  then show ?case by (simp add: same_fields_def)
next
  case (Cons r rs)
  have dec: "rel_sum (=) (\<lambda>o1 o2. map_of o1 = map_of o2)
      (unmarshal_object c (ur_body r)) (unmarshal_object c' (ur_body r))"
    using assms(3) by (simp add: same_objects_def)
  show ?case
  proof (cases "unmarshal_object c (ur_body r)")
    case (Inl e)
    with dec Cons show ?thesis by (auto elim!: rel_sum.cases)
  next
    case (Inr o1)
    with dec obtain o2 where o2: "unmarshal_object c' (ur_body r) = Inr o2"
      and eq: "map_of o1 = map_of o2" by (auto elim!: rel_sum.cases)
    have d: "distinct (map fst o1)" "distinct (map fst o2)"
      using Inr o2 assms(1,2) by (auto simp: decodes_maps_def)
    note ob = apply_object_order [OF d eq Cons.prems, of agg idx]
    show ?thesis
      using ob Inr o2 Cons by (auto elim!: rel_sum.cases)
  qed
qed

section \<open>A concrete codec\<close>

text \<open>
  An instance of the JSON library for closed examples: three bodies it can decode, an encoder
  that writes a map in the order of its keys, and encoders of arrays and namespaces.
\<close>

definition sample_decode :: "bytes \<Rightarrow> go_error + (string, string) gomap" where
  "sample_decode b =
     (if b = ''A'' then Inr [(''id'', ''1''), (''name'', ''ada'')]
      else if b = ''B'' then Inr [(''id'', ''2'')]
      else if b = ''C'' then Inr [(''total'', ''9'')]
      else Inl (ErrMsg ''invalid character''))"

definition sample_encode :: "(string, string) gomap \<Rightarrow> go_error + bytes" where
  "sample_encode m =
     Inr (concat (map (\<lambda>k. k @ '':'' @ the (map_of m k) @ '';'') (sorted_list_of_set (fst ` set m))))"

definition sample_codec :: "string json_codec" where
  "sample_codec = \<lparr>unmarshal_object = sample_decode, marshal_object = sample_encode,
     marshal_array = (\<lambda>xs. Inr (''['' @ Join xs '','' @ '']'')),
     marshal_raw_object = sample_encode\<rparr>"

definition reversed_codec :: "string json_codec" where
  "reversed_codec = sample_codec\<lparr>unmarshal_object := (\<lambda>b. map_sum id rev (sample_decode b))\<rparr>"

lemma decodes_maps_sample: "decodes_maps sample_codec" "decodes_maps reversed_codec"
  by (auto simp: decodes_maps_def sample_codec_def reversed_codec_def sample_decode_def
      split: if_splits)

lemma same_objects_sample: "same_objects sample_codec reversed_codec"
proof -
  have "map_of (rev m) = map_of m" if "distinct (map fst m)" for m :: "(string, string) gomap"
    using that by (intro map_of_inject_set [THEN iffD2]) (simp_all flip: rev_map)
  moreover have "distinct (map fst m)" if "sample_decode b = Inr m" for b m
    using that decodes_maps_sample(1) by (auto simp: decodes_maps_def sample_codec_def)
  ultimately have "rel_sum (=) (\<lambda>o1 o2. map_of o1 = map_of o2)
      (sample_decode b) (map_sum id rev (sample_decode b))" for b
    by (cases "sample_decode b") auto
  then show ?thesis by (simp add: same_objects_def sample_codec_def reversed_codec_def)
qed

lemma sorts_keys_sample: "sorts_keys sample_codec reversed_codec"
proof -
  have enc: "sample_encode m = sample_encode m'" if "map_of m = map_of m'"
    for m m' :: "(string \<times> string) list"
  proof -
    have "fst ` set m = fst ` set m'"
      using that by (simp flip: dom_map_of_conv_image_fst)
    with that show ?thesis by (simp add: sample_encode_def)
  qed
  have "marshal_object sample_codec = sample_encode" "marshal_object reversed_codec = sample_encode"
    by (simp_all add: sample_codec_def reversed_codec_def)
  then show ?thesis
    unfolding sorts_keys_def by (metis enc)
qed

definition ok_response :: "bytes \<Rightarrow> upstreamResponse" where
  "ok_response b = \<lparr>ur_status = 200, ur_headers = Some [], ur_body = b, ur_err = None\<rparr>"

definition status_response :: "int \<Rightarrow> upstreamErrorKind \<Rightarrow> upstreamResponse" where
  "status_response st k = \<lparr>ur_status = st, ur_headers = Some [], ur_body = [],
     ur_err = Some \<lparr>ue_kind = k, ue_err = ErrMsg ''upstream returned''\<rparr>\<rparr>"

lemmas sample_defs = sample_codec_def sample_decode_def sample_encode_def ok_response_def
  status_response_def

section \<open>Properties\<close>

text \<open>
  C5. A merge that produces fields gives every key the value the conflict policy names:
  the last contribution under \<^verbatim>\<open>overwrite\<close>, the one of the preferred upstream (or else the
  first) under \<^verbatim>\<open>prefer\<close>, the first under \<^verbatim>\<open>first\<close> and \<^verbatim>\<open>error\<close>; a key no successful response
  contributes is absent.
\<close>

theorem merge_follows_policy:
  assumes "decodes_maps codec" and "collectFields codec rs agg = Inr (flds, es, s)"
  shows "map_of flds k = policy_choice agg (contributions codec 0 rs k)"
  using collect_loop_fields [OF assms(1) assms(2) [unfolded collectFields_def], of k]
  by (simp add: resolve_all_choice)

theorem merge_follows_policy_witness:
  "(case collectFields sample_codec [ok_response ''A'', ok_response ''B'']
      \<lparr>bestEffort = False, strategy = strategyMerge, conflict_policy = conflictPolicyPrefer,
       preferredUpstream = 1\<rparr> of
      Inr (flds, es, s) \<Rightarrow> map_of flds ''id'' = Some \<lparr>fld_value = ''2'', fld_owner = 1\<rparr>
    | Inl e \<Rightarrow> False)"
proof -
  let ?agg = "\<lparr>bestEffort = False, strategy = strategyMerge, conflict_policy = conflictPolicyPrefer,
       preferredUpstream = 1\<rparr>"
  let ?rs = "[ok_response ''A'', ok_response ''B'']"
  have c: "collectFields sample_codec ?rs ?agg =
      Inr ([(''id'', \<lparr>fld_value = ''2'', fld_owner = 1\<rparr>),
            (''name'', \<lparr>fld_value = ''ada'', fld_owner = 0\<rparr>)], [], True)"
    by (simp add: collectFields_def sample_defs applyConflictPolicy_def)
  have "policy_choice ?agg (contributions sample_codec 0 ?rs ''id'') =
      Some \<lparr>fld_value = ''2'', fld_owner = 1\<rparr>"
    by (simp add: policy_choice_def sample_defs)
  with c merge_follows_policy [OF decodes_maps_sample(1) c, of "''id''"] show ?thesis by simp
qed

text \<open>
  C17. The response of a merge does not depend on the order in which Go's \<^verbatim>\<open>range\<close> visits the
  keys of the decoded objects.
\<close>

theorem merge_ignores_map_order:
  assumes "decodes_maps c" "decodes_maps c'" "same_objects c c'" "sorts_keys c c'"
  shows "merged c rs agg = merged c' rs agg"
proof -
  have r: "rel_sum (=) same_fields (collectFields c rs agg) (collectFields c' rs agg)"
    unfolding collectFields_def using assms(1-3) by (rule collect_loop_order) simp_all
  show ?thesis
  proof (cases "collectFields c rs agg")
    case (Inl a)
    with r show ?thesis by (auto simp: merged_def elim!: rel_sum.cases)
  next
    case (Inr p)
    obtain f es s where p: "p = (f, es, s)" by (cases p)
    with r Inr obtain f' where f': "collectFields c' rs agg = Inr (f', es, s)"
      and same: "map_of f = map_of f'" "distinct (map fst f)" "distinct (map fst f')"
      by (auto simp: same_fields_def elim!: rel_sum.cases)
    let ?v = "\<lambda>(k, f). (k, fld_value f)"
    have "map_of (map ?v f) = map_of (map ?v f')"
      using same(1) by (simp add: map_of_map)
    moreover have "map fst (map ?v g) = map fst g" for g :: "(string \<times> 'a field) list"
      by (induction g) auto
    ultimately have "marshal_object c (map ?v f) = marshal_object c' (map ?v f')"
      using assms(4) same(2,3) unfolding sorts_keys_def by metis
    with Inr p f' show ?thesis by (simp add: merged_def)
  qed
qed

theorem merge_ignores_map_order_witness:
  "merged sample_codec [ok_response ''A'', ok_response ''B'']
     \<lparr>bestEffort = False, strategy = strategyMerge, conflict_policy = conflictPolicyOverwrite,
      preferredUpstream = -1\<rparr> =
   merged reversed_codec [ok_response ''A'', ok_response ''B'']
     \<lparr>bestEffort = False, strategy = strategyMerge, conflict_policy = conflictPolicyOverwrite,
      preferredUpstream = -1\<rparr>"
  by (rule merge_ignores_map_order [OF decodes_maps_sample same_objects_sample sorts_keys_sample])

text \<open>
  Under the \<^verbatim>\<open>error\<close> policy a best-effort merge is refused exactly when two successful
  responses contribute the same key, whether or not their values differ; the refusal is the
  value-conflict error and nothing else.
\<close>

theorem merge_conflict_iff_repeated_key:
  assumes "decodes_maps codec" and "bestEffort agg"
    and "conflict_policy agg = conflictPolicyError"
  shows "(\<exists>a. collectFields codec rs agg = Inl a) \<longleftrightarrow>
    (\<exists>k. 2 \<le> length (contributions codec 0 rs k))"
  using collect_loop_conflict [OF assms, of rs 0 rs "[]" "[]" False]
  by (simp add: collectFields_def seen_def)

theorem merge_conflict_iff_repeated_key_witness:
  "\<exists>a. collectFields sample_codec [ok_response ''B'', ok_response ''B'']
     \<lparr>bestEffort = True, strategy = strategyMerge, conflict_policy = conflictPolicyError,
      preferredUpstream = -1\<rparr> = Inl a"
proof -
  let ?agg = "\<lparr>bestEffort = True, strategy = strategyMerge, conflict_policy = conflictPolicyError,
      preferredUpstream = -1\<rparr>"
  have "\<exists>k. 2 \<le> length (contributions sample_codec 0 [ok_response ''B'', ok_response ''B''] k)"
    by (rule exI [of _ "''id''"]) (simp add: sample_defs)
  then show ?thesis
    by (rule merge_conflict_iff_repeated_key [OF decodes_maps_sample(1), of ?agg, THEN iffD2,
          rotated -1]) simp_all
qed

text \<open>
  C16. Without best effort, one failed upstream is enough to make the whole result a failure: no
  data, at least one error, and never a partial result, whatever the strategy.
\<close>

theorem strict_is_all_or_nothing:
  assumes "\<not> bestEffort agg" and "\<exists>r \<in> set rs. ur_err r \<noteq> None"
    and "strategy agg \<in> {strategyMerge, strategyArray, strategyNamespace}"
    and "length rs \<le> length names"
  shows "\<exists>a. aggregate codec names rs agg = Some a \<and>
    ar_data a = [] \<and> ar_errors a \<noteq> [] \<and> \<not> ar_partial a"
proof -
  have errs: "collectErrors rs \<noteq> []" using assms(2) by (auto simp: collectErrors_Nil_iff)
  obtain m where "collectFields codec rs agg = Inl m"
    "ar_data m = []" "ar_errors m \<noteq> []" "\<not> ar_partial m"
    using collect_loop_strict [OF assms(1,2) order.refl] unfolding collectFields_def by blast
  then show ?thesis
    using assms(3) array_loop_strict [OF assms(1) errs] errs
      namespace_loop_strict [OF assms(1) errs assms(4)]
    by (auto simp: aggregate_def merged_def arrayed_def namespaced_def zero_aggregated_def)
qed

theorem strict_is_all_or_nothing_witness:
  "\<exists>a. aggregate sample_codec [''users'', ''orders'']
     [ok_response ''A'', status_response 503 upstreamBadStatus]
     \<lparr>bestEffort = False, strategy = strategyNamespace, conflict_policy = conflictPolicyFirst,
      preferredUpstream = -1\<rparr> = Some a \<and> ar_data a = [] \<and> ar_errors a \<noteq> [] \<and> \<not> ar_partial a"
  by (rule strict_is_all_or_nothing) (simp_all add: sample_defs)



text \<open>
  The namespace strategy without best effort names only the first failure in the order of
  the upstreams, while the array strategy lists every distinct one; both carry the shared status.
\<close>

theorem strict_failure_report:
  assumes "\<not> bestEffort agg" and "collectErrors rs \<noteq> []" and "length rs \<le> length names"
  shows "arrayed codec rs agg = zero_aggregated\<lparr>ar_errors := dedupeErrors (collectErrors rs),
           ar_status := sharedFailureStatus rs\<rparr> \<and>
    namespaced codec names rs agg = Some (zero_aggregated\<lparr>ar_errors := [hd (collectErrors rs)],
           ar_status := sharedFailureStatus rs\<rparr>)"
  using array_loop_strict [OF assms(1,2)] namespace_loop_strict [OF assms]
  by (simp add: arrayed_def namespaced_def)

theorem strict_failure_report_witness:
  "ar_errors (arrayed sample_codec [status_response 503 upstreamBadStatus, status_response 404 upstreamClientError]
     \<lparr>bestEffort = False, strategy = strategyArray, conflict_policy = conflictPolicyFirst,
      preferredUpstream = -1\<rparr>) = [ClientErrUpstreamError, ClientErrUpstreamClientError] \<and>
   map_option ar_errors (namespaced sample_codec [''a'', ''b''] [status_response 503 upstreamBadStatus, status_response 404 upstreamClientError]
     \<lparr>bestEffort = False, strategy = strategyArray, conflict_policy = conflictPolicyFirst,
      preferredUpstream = -1\<rparr>) = Some [ClientErrUpstreamError]"
proof -
  let ?rs = "[status_response 503 upstreamBadStatus, status_response 404 upstreamClientError]"
  have ce: "collectErrors ?rs = [ClientErrUpstreamError, ClientErrUpstreamClientError]"
    by (simp add: sample_defs mapUpstreamError_def kind_simps)
  show ?thesis
    using strict_failure_report [of "\<lparr>bestEffort = False, strategy = strategyArray,
        conflict_policy = conflictPolicyFirst, preferredUpstream = -1\<rparr>" ?rs "[''a'', ''b'']" sample_codec]
    unfolding ce by (simp add: dedupeErrors_def)
qed

text \<open>
  The status carried over from the upstreams: a failed request keeps the client-error status
  \<open>st\<close> exactly when at least one upstream failed and every failed one answered with \<open>st\<close> as a
  client error.
\<close>

theorem shared_status_is_unanimous:
  assumes "st \<noteq> 0"
    and "\<And>r. r \<in> set rs \<Longrightarrow> ur_err r \<noteq> None \<Longrightarrow> ur_status r \<noteq> 0"
  shows "sharedFailureStatus rs = st \<longleftrightarrow>
    (\<exists>r \<in> set rs. ur_err r \<noteq> None) \<and>
    (\<forall>r \<in> set rs. \<forall>e. ur_err r = Some e \<longrightarrow> ue_kind e = upstreamClientError \<and> ur_status r = st)"
  using sharedFailureStatus_iff [OF assms]
  by (auto simp: fails_only_with_def list_all_iff split: option.splits)

theorem shared_status_is_unanimous_witness:
  "sharedFailureStatus [ok_response ''A'', status_response 404 upstreamClientError,
     status_response 404 upstreamClientError] = 404"
  by (subst shared_status_is_unanimous) (auto simp: sample_defs)

text \<open>
  The headers of an aggregated response: for every key, the value of the last successful
  upstream (in configuration order) that sent it; failed upstreams contribute nothing.
\<close>

theorem merged_headers_last_wins:
  assumes "\<And>r h. r \<in> set rs \<Longrightarrow> ur_headers r = Some h \<Longrightarrow> distinct (map fst h)"
  shows "map_of (mergeSuccessfulHeaders rs) k =
    (let value = (\<lambda>r. Option.bind (ur_headers r) (\<lambda>h. map_of h k));
         senders = filter (\<lambda>r. ur_err r = None \<and> value r \<noteq> None) rs
     in if senders = [] then None else value (last senders))"
proof -
  have "filter (\<lambda>r. ur_err r = None \<and> Option.bind (ur_headers r) (\<lambda>h. map_of h k) \<noteq> None) rs =
      filter (\<lambda>r. Option.bind (ur_headers r) (\<lambda>h. map_of h k) \<noteq> None) (filter (\<lambda>r. ur_err r = None) rs)"
    by (simp add: conj_commute)
  with merge_headers_loop_eq [of rs "[]" k, OF assms] show ?thesis
    unfolding mergeSuccessfulHeaders_def Let_def foldl_last_Some by (auto split: list.splits)
qed

theorem merged_headers_last_wins_witness:
  "map_of (mergeSuccessfulHeaders
     [(ok_response ''A'')\<lparr>ur_headers := Some [(''Etag'', [''1''])]\<rparr>,
      (ok_response ''B'')\<lparr>ur_headers := Some [(''Etag'', [''2''])]\<rparr>,
      (status_response 503 upstreamBadStatus)\<lparr>ur_headers := Some [(''Etag'', [''3''])]\<rparr>]) ''Etag'' =
   Some [''2'']"
  by (subst merged_headers_last_wins) (auto simp: sample_defs)

end
