(* ===== verification/Scatter.thy ===== *)
theory Scatter
  imports Upstream Aggregator
begin

text \<open>
  \<^verbatim>\<open>scatter.go\<close>: reading the client's body once, and calling the upstreams of a flow, all of them
  concurrently or the only one directly.  Every goroutine of a scatter works on an upstream and
  a slot of the result of its own, so a scatter is a run of the calls in some order; the locale
  \<open>fan_out\<close> says what such a run gives when a call always returns.
\<close>

section \<open>Flows\<close>

text \<open>
  A flow as far as dispatching looks at it (\<^verbatim>\<open>flow.go\<close>).  Plugins and middlewares belong to the
  router's handler.
\<close>

record flow =
  fl_path :: string
  fl_method :: string
  fl_aggregation :: aggregation
  fl_upstreams :: "httpUpstream list"
  fl_streaming :: bool

text \<open>The environment of one upstream call: its attempts, and the clock after the last of them.\<close>

record call_env =
  ce_attempts :: "nat \<Rightarrow> attempt_env"
  ce_now :: time

section \<open>Reading the body\<close>

definition maxBodySize :: int where
  "maxBodySize = 5 * 2 ^ 20"

definition scatter_readBody :: "body_stream \<Rightarrow> bytes option" where
  "scatter_readBody body =
     (let (data, err) = ReadAll (LimitReader body (maxBodySize + 1)) in
      if err \<noteq> None then None
      else if int (length data) > maxBodySize then None
      else Some data)"

section \<open>Calling the upstreams\<close>

definition callUpstream ::
  "externals \<Rightarrow> call_env \<Rightarrow> Request \<Rightarrow> bytes \<Rightarrow> httpUpstream \<Rightarrow>
     (upstreamResponse \<times> httpUpstream \<times> Request list) go" where
  "callUpstream ext env original body u =
     upstream_call ext (ce_attempts env) (ce_now env) (req_Context original) original body u"

definition zero_response :: upstreamResponse where
  "zero_response = \<lparr>ur_status = 0, ur_headers = None, ur_body = [], ur_err = None\<rparr>"

text \<open>
  The goroutines of a scatter in the order in which they finish: each writes its slot.  The log
  keeps, per upstream, the requests that were sent.
\<close>

fun scatter_steps ::
  "externals \<Rightarrow> (nat \<Rightarrow> call_env) \<Rightarrow> Request \<Rightarrow> bytes \<Rightarrow> nat list \<Rightarrow>
     (upstreamResponse \<times> httpUpstream \<times> Request list) list \<Rightarrow>
     (upstreamResponse \<times> httpUpstream \<times> Request list) list go" where
  "scatter_steps ext envs original body [] slots = Some slots"
| "scatter_steps ext envs original body (i # order) slots =
     (case callUpstream ext (envs i) original body (fst (snd (slots ! i))) of
        None \<Rightarrow> None
      | Some result \<Rightarrow> scatter_steps ext envs original body order (slots[i := result]))"

text \<open>
  \<^verbatim>\<open>scatter\<close>: \<open>Inl\<close> is the nil result for a body that cannot be read or is too large; \<open>Inr\<close> holds the
  responses, the changed upstreams and the requests sent, in the order of the upstreams.
\<close>

definition scatter ::
  "externals \<Rightarrow> (nat \<Rightarrow> call_env) \<Rightarrow> nat list \<Rightarrow> flow \<Rightarrow> Request \<Rightarrow>
     (unit + (upstreamResponse \<times> httpUpstream \<times> Request list) list) go" where
  "scatter ext envs order f original =
     (case scatter_readBody (req_Body original) of
        None \<Rightarrow> Some (Inl ())
      | Some body \<Rightarrow>
          map_option Inr
            (scatter_steps ext envs original body order
               (map (\<lambda>u. (zero_response, u, [])) (fl_upstreams f))))"

text \<open>\<^verbatim>\<open>call\<close>: the only upstream of a flow; a flow without upstreams is an index panic.\<close>

definition scatter_call ::
  "externals \<Rightarrow> call_env \<Rightarrow> flow \<Rightarrow> Request \<Rightarrow>
     (unit + upstreamResponse \<times> httpUpstream \<times> Request list) go" where
  "scatter_call ext env f original =
     (case scatter_readBody (req_Body original) of
        None \<Rightarrow> Some (Inl ())
      | Some body \<Rightarrow>
          (case fl_upstreams f of
             [] \<Rightarrow> None
           | u # us \<Rightarrow> map_option Inr (callUpstream ext env original body u)))"

section \<open>Fan-out\<close>

text \<open>
  Calls on a family of objects, each of which keeps an invariant of its object and returns.  A
  run of the calls over distinct indices, in whatever order, gives every index the result of
  its own call.
\<close>

locale fan_out =
  fixes call :: "nat \<Rightarrow> 'u \<Rightarrow> ('r \<times> 'u \<times> 'l) option"
    and inv :: "'u \<Rightarrow> bool"
  assumes call_returns: "inv u \<Longrightarrow> \<exists>r u' l. call i u = Some (r, u', l) \<and> inv u'"
begin

lemma run_pointwise:
  assumes "distinct order" "set order \<subseteq> {..<length slots}"
    and "\<And>s. s \<in> set slots \<Longrightarrow> inv (fst (snd s))"
    and "steps [] = Some"
    and "\<And>i is slots. steps (i # is) slots =
      Option.bind (call i (fst (snd (slots ! i)))) (\<lambda>r. steps is (slots[i := r]))"
  shows "steps order slots =
    Some (map (\<lambda>i. if i \<in> set order then the (call i (fst (snd (slots ! i)))) else slots ! i)
      [0..<length slots])"
  using assms(1-3)
proof (induction order arbitrary: slots)
  case Nil
  then show ?case by (simp add: assms(4) map_nth)
next
  case (Cons i "is")
  have i: "i < length slots" using Cons.prems by simp
  then have "inv (fst (snd (slots ! i)))" using Cons.prems(3) by simp
  then obtain r u' l where c: "call i (fst (snd (slots ! i))) = Some (r, u', l)" "inv u'"
    using call_returns by blast
  let ?slots = "slots[i := (r, u', l)]"
  have "s \<in> set ?slots \<Longrightarrow> inv (fst (snd s))" for s
    using Cons.prems(3) c(2) set_update_subset_insert [of slots i "(r, u', l)"] by fastforce
  then have "steps is ?slots =
      Some (map (\<lambda>j. if j \<in> set is then the (call j (fst (snd (?slots ! j)))) else ?slots ! j)
        [0..<length ?slots])"
    using Cons.prems by (intro Cons.IH) auto
  moreover have "(if j \<in> set is then the (call j (fst (snd (?slots ! j)))) else ?slots ! j) =
      (if j \<in> set (i # is) then the (call j (fst (snd (slots ! j)))) else slots ! j)"
    if "j < length slots" for j
    using Cons.prems(1) that i c(1) by (auto simp: nth_list_update)
  ultimately show ?case
    by (simp add: assms(5) c(1))
qed

end

text \<open>An upstream whose calls return: well-formed, with counters in range and a sane retry count.\<close>

definition callable :: "httpUpstream \<Rightarrow> bool" where
  "callable u \<longleftrightarrow>
     upstream_wf u \<and> 0 \<le> maxRetries (retry (uc_policy (hu_cfg u))) \<and>
     (\<forall>c \<in> set (activeConnections (hu_state u)). min_i64 \<le> c \<and> c \<le> max_i64)"

lemma callUpstream_callable:
  assumes "callable u"
  shows "\<exists>r u' l. callUpstream ext env original body u = Some (r, u', l) \<and> callable u'"
proof -
  obtain r u' l where c: "callUpstream ext env original body u = Some (r, u', l)"
    and conns: "activeConnections (hu_state u') = activeConnections (hu_state u)"
    using upstream_call_total [of u] assms unfolding callUpstream_def callable_def by blast
  have "hu_cfg u' = hu_cfg u"
  proof -
    from c obtain r' u1 where "u' = updateCircuitBreaker (ce_now env) r' u1" "hu_cfg u1 = hu_cfg u"
      unfolding callUpstream_def by (rule upstream_call_cases)
    then show ?thesis
      by (auto simp: updateCircuitBreaker_def split: option.splits breakerOutcome.splits)
  qed
  with conns assms have "callable u'" by (simp add: callable_def upstream_wf_def)
  with c show ?thesis by blast
qed

interpretation upstream_calls:
  fan_out "\<lambda>i. callUpstream ext (envs i) original body" callable for ext envs original body
  by unfold_locales (rule callUpstream_callable)

lemma scatter_steps_pointwise:
  assumes "distinct order" "set order = {..<length us}" "\<And>u. u \<in> set us \<Longrightarrow> callable u"
  shows "scatter_steps ext envs original body order (map (\<lambda>u. (zero_response, u, [])) us) =
    Some (map (\<lambda>i. the (callUpstream ext (envs i) original body (us ! i))) [0..<length us])"
proof -
  let ?slots = "map (\<lambda>u. (zero_response, u, [] :: Request list)) us"
  have steps: "scatter_steps ext envs original body (i # is) slots =
      Option.bind (callUpstream ext (envs i) original body (fst (snd (slots ! i))))
        (\<lambda>r. scatter_steps ext envs original body is (slots[i := r]))" for i "is" slots
    by (cases "callUpstream ext (envs i) original body (fst (snd (slots ! i)))") simp_all
  have nil: "scatter_steps ext envs original body [] = Some" by (simp add: fun_eq_iff)
  have sub: "set order \<subseteq> {..<length ?slots}" using assms(2) by simp
  have ok: "\<And>s. s \<in> set ?slots \<Longrightarrow> callable (fst (snd s))" using assms(3) by auto
  from upstream_calls.run_pointwise [where steps = "scatter_steps ext envs original body",
      OF assms(1) sub ok nil steps]
  have "scatter_steps ext envs original body order ?slots =
    Some (map (\<lambda>i. if i \<in> set order
        then the (callUpstream ext (envs i) original body (fst (snd (?slots ! i)))) else ?slots ! i)
      [0..<length ?slots])" .
  moreover have "map (\<lambda>i. if i \<in> set order
        then the (callUpstream ext (envs i) original body (fst (snd (?slots ! i)))) else ?slots ! i)
      [0..<length ?slots] =
    map (\<lambda>i. the (callUpstream ext (envs i) original body (us ! i))) [0..<length us]"
    using assms(2) by (intro map_cong) auto
  ultimately show ?thesis by simp
qed

section \<open>Properties\<close>

text \<open>
  C8. The order in which the goroutines of a scatter finish does not matter: for upstreams that
  answer, every order gives every upstream's slot the response of its own call, the upstreams
  the same new states, and no call is lost or made twice.
\<close>

theorem scatter_order_irrelevant:
  assumes "distinct order" "set order = {..<length (fl_upstreams f)}"
    and "\<And>u. u \<in> set (fl_upstreams f) \<Longrightarrow> callable u"
    and "scatter_readBody (req_Body original) = Some body"
  shows "scatter ext envs order f original =
    Some (Inr (map (\<lambda>i. the (callUpstream ext (envs i) original body (fl_upstreams f ! i)))
      [0..<length (fl_upstreams f)]))"
  using scatter_steps_pointwise [OF assms(1,2)] assms(3,4) by (simp add: scatter_def)

definition sample_flow :: flow where
  "sample_flow = \<lparr>fl_path = ''/users/{id}'', fl_method = ''GET'',
     fl_aggregation = \<lparr>bestEffort = True, strategy = strategyArray, conflict_policy = conflictPolicyOverwrite,
       preferredUpstream = -1\<rparr>,
     fl_upstreams = [sample_upstream, sample_upstream], fl_streaming = False\<rparr>"

definition sample_envs :: "nat \<Rightarrow> call_env" where
  "sample_envs i = \<lparr>ce_attempts = (\<lambda>n. if i = 0 then answering 200 ''ok'' else refused), ce_now = 100\<rparr>"

lemma callable_sample: "callable sample_upstream"
  by (simp add: callable_def upstream_wf_def sample_upstream_def sample_upstream_config_def)

theorem scatter_order_irrelevant_witness:
  "scatter sample_externals sample_envs [1, 0] sample_flow sample_request =
   scatter sample_externals sample_envs [0, 1] sample_flow sample_request"
proof -
  have body: "scatter_readBody (req_Body sample_request) = Some []"
    by (simp add: scatter_readBody_def sample_request_def maxBodySize_def)
  have n: "length (fl_upstreams sample_flow) = 2" by (simp add: sample_flow_def)
  have cal: "u \<in> set (fl_upstreams sample_flow) \<Longrightarrow> callable u" for u
    using callable_sample by (auto simp: sample_flow_def)
  have two: "{..<2 :: nat} = {0, 1}" by auto
  have "scatter sample_externals sample_envs order sample_flow sample_request =
      Some (Inr (map (\<lambda>i. the (callUpstream sample_externals (sample_envs i) sample_request []
        (fl_upstreams sample_flow ! i))) [0..<length (fl_upstreams sample_flow)]))"
    if "distinct order" "set order = {0, 1}" for order
    by (rule scatter_order_irrelevant) (use that n two cal body in auto)
  from this [of "[1, 0]"] this [of "[0, 1]"] show ?thesis by (simp add: insert_commute)
qed

text \<open>
  The client's body is read whole or refused: it is accepted exactly when the reader delivers
  it without an error within five mebibytes, and then it is passed on as it came.
\<close>

theorem request_body_limit:
  "scatter_readBody b = Some data \<longleftrightarrow> ReadAll b = (data, None) \<and> length data \<le> 5242880"
proof -
  obtain d e where ra: "ReadAll (LimitReader b (maxBodySize + 1)) = (d, e)" by force
  have max: "maxBodySize = 5242880" by (simp add: maxBodySize_def)
  have accept: "scatter_readBody b = Some data \<longleftrightarrow> e = None \<and> d = data \<and> int (length d) \<le> maxBodySize"
    using ra by (auto simp: scatter_readBody_def)
  show ?thesis
  proof
    assume "scatter_readBody b = Some data"
    with accept have d: "e = None" "d = data" "int (length d) \<le> maxBodySize" by blast+
    then have "ReadAll b = (d, e)"
      using ReadAll_LimitReader_short [of b "maxBodySize + 1"] ra by simp
    with d max show "ReadAll b = (data, None) \<and> length data \<le> 5242880" by simp
  next
    assume all: "ReadAll b = (data, None) \<and> length data \<le> 5242880"
    then have "(d, e) = (data, None)"
      using ReadAll_LimitReader_whole [of b "maxBodySize + 1"] ra max by simp
    with all max show "scatter_readBody b = Some data" unfolding accept by simp
  qed
qed

end
