(* ===== verification/Response_Builder.thy ===== *)
theory Response_Builder
  imports Scatter
begin

text \<open>
  How \<^verbatim>\<open>router.go\<close> makes the client's response out of what the upstreams answered: the response of
  a single-upstream flow (\<^verbatim>\<open>buildProxyResponse\<close>), of an aggregating flow (\<^verbatim>\<open>buildResponse\<close>), the status
  and problem document for a set of errors, the fingerprint of a request, and the copy of the
  response to the client (\<^verbatim>\<open>copyResponse\<close>).  The JSON encoder and the hash function
  \<^verbatim>\<open>sha256.Sum256\<close> are parameters.
\<close>

section \<open>Tables\<close>

definition hopByHopHeaders :: "string list" where
  "hopByHopHeaders =
     [''Content-Length'', ''Transfer-Encoding'', ''Connection'', ''Trailer'', ''Keep-Alive'',
      ''Proxy-Authenticate'', ''Proxy-Authorization'', ''Te'', ''Upgrade'']"

definition fingerprintIgnoredHeaders :: "string list" where
  "fingerprintIgnoredHeaders =
     [''User-Agent'', ''Cookie'', ''Authorization'', ''X-Request-Id'', ''X-Forwarded-For'',
      ''X-Forwarded-Proto'', ''X-Forwarded-Host'', ''X-Forwarded-Port'', ''X-Real-Ip'',
      ''Forwarded'', ''Host'', ''Accept-Encoding'', ''Accept-Language'']"

section \<open>Errors to statuses\<close>

fun errorPriority :: "ClientError \<Rightarrow> int" where
  "errorPriority ClientErrRateLimitExceeded = 100"
| "errorPriority ClientErrUnauthorized = 95"
| "errorPriority ClientErrPayloadTooLarge = 90"
| "errorPriority ClientErrUpstreamBodyTooLarge = 90"
| "errorPriority ClientErrValueConflict = 80"
| "errorPriority ClientErrUpstreamUnavailable = 50"
| "errorPriority ClientErrUpstreamError = 50"
| "errorPriority ClientErrUpstreamMalformed = 50"
| "errorPriority ClientErrAborted = 50"
| "errorPriority ClientErrUpstreamClientError = 50"
| "errorPriority ClientErrUpstreamRedirect = 50"
| "errorPriority ClientErrInternal = 10"
| "errorPriority (OtherClientErr s) = 0"

fun primary_loop :: "int \<Rightarrow> ClientError \<Rightarrow> ClientError list \<Rightarrow> ClientError" where
  "primary_loop maxPriority selected [] = selected"
| "primary_loop maxPriority selected (e # es) =
     (if errorPriority e > maxPriority then primary_loop (errorPriority e) e es
      else primary_loop maxPriority selected es)"

definition selectPrimaryError :: "ClientError list \<Rightarrow> ClientError" where
  "selectPrimaryError errors = primary_loop (- 1) (OtherClientErr []) errors"

fun statusForError :: "ClientError \<Rightarrow> int" where
  "statusForError ClientErrRateLimitExceeded = StatusTooManyRequests"
| "statusForError ClientErrPayloadTooLarge = StatusRequestEntityTooLarge"
| "statusForError ClientErrUpstreamBodyTooLarge = StatusBadGateway"
| "statusForError ClientErrUpstreamUnavailable = StatusBadGateway"
| "statusForError ClientErrUpstreamError = StatusBadGateway"
| "statusForError ClientErrUpstreamMalformed = StatusBadGateway"
| "statusForError ClientErrUpstreamClientError = StatusBadGateway"
| "statusForError ClientErrUpstreamRedirect = StatusBadGateway"
| "statusForError ClientErrValueConflict = StatusConflict"
| "statusForError ClientErrAborted = StatusServiceUnavailable"
| "statusForError ClientErrInternal = StatusInternalServerError"
| "statusForError ClientErrUnauthorized = StatusUnauthorized"
| "statusForError (OtherClientErr s) = StatusInternalServerError"

definition statusFromErrors :: "ClientError list \<Rightarrow> bool \<Rightarrow> int" where
  "statusFromErrors errors partial =
     (if partial then StatusPartialContent
      else if length errors = 0 then StatusOK
      else statusForError (selectPrimaryError errors))"

definition resolveStatus :: "aggregatedResponse \<Rightarrow> int" where
  "resolveStatus agg =
     (if ar_partial agg then StatusPartialContent
      else if ar_status agg \<noteq> 0 then ar_status agg
      else statusFromErrors (ar_errors agg) False)"

section \<open>Problem documents\<close>

definition problemForErrors :: "ClientError list \<Rightarrow> int \<Rightarrow> ProblemDetails" where
  "problemForErrors errors status =
     \<lparr>pd_type = problemTypeBlank, pd_title = problemTitle (selectPrimaryError errors),
      pd_status = status, pd_detail = [], pd_errors = errors\<rparr>"

definition marshal_fallback :: bytes where
  "marshal_fallback =
     (let q = [CHR 0x22] in
      ''{'' @ q @ ''type'' @ q @ '':'' @ q @ ''about:blank'' @ q @ '','' @ q @ ''title'' @ q @ '':'' @ q @
      ''Internal gateway error'' @ q @ '','' @ q @ ''status'' @ q @ '':500,'' @ q @ ''errors'' @ q @
      '':['' @ q @ ''INTERNAL'' @ q @ '']}'')"

definition mustMarshal :: "problem_encoder \<Rightarrow> ProblemDetails \<Rightarrow> bytes" where
  "mustMarshal enc v = (case enc v of Inl err \<Rightarrow> marshal_fallback | Inr b \<Rightarrow> b)"

section \<open>Responses\<close>

text \<open>\<^verbatim>\<open>http.Response\<close> as the handler uses it; a nil body is \<open>None\<close>.\<close>

record http_resp =
  rs_Status :: string
  rs_StatusCode :: int
  rs_ContentLength :: int
  rs_Body :: "body_stream option"
  rs_Header :: Header

definition make_response :: "int \<Rightarrow> bytes \<Rightarrow> Header \<Rightarrow> http_resp" where
  "make_response status body headers =
     \<lparr>rs_Status = Itoa status @ '' '' @ StatusText status, rs_StatusCode = status,
      rs_ContentLength = int (length body), rs_Body = Some (body_of body), rs_Header = headers\<rparr>"

definition buildProxyResponse :: "problem_encoder \<Rightarrow> Context \<Rightarrow> upstreamResponse \<Rightarrow> http_resp" where
  "buildProxyResponse enc ctx resp =
     (let h0 = (case ur_headers resp of None \<Rightarrow> [] | Some h \<Rightarrow> h);
          h1 = hdr_Set ''X-Request-ID'' (requestIDFromContext ctx) h0;
          h2 = hdr_Set ''X-Request-Fingerprint'' (fingerprintFromContext ctx) h1
      in
      if (case ur_err resp of None \<Rightarrow> True | Some e \<Rightarrow> isPropagatable (ue_kind e)) then
        let h3 = (if hdr_Get h2 ''Content-Type'' = []
                  then hdr_Set ''Content-Type'' ''application/json; charset=utf-8'' h2 else h2)
        in make_response (ur_status resp) (ur_body resp) h3
      else
        let clientErr = mapUpstreamError (ur_err resp);
            status = statusFromErrors [clientErr] False;
            h3 = hdr_Set ''Content-Type'' ''application/problem+json'' h2;
            body = mustMarshal enc (problemForErrors [clientErr] status)
        in make_response status body h3)"

text \<open>The body with the headers it sets: one value of \<^verbatim>\<open>X-Partial-Errors\<close> per error.\<close>

definition buildResponseBody ::
  "problem_encoder \<Rightarrow> Header \<Rightarrow> aggregatedResponse \<Rightarrow> int \<Rightarrow> bytes \<times> Header" where
  "buildResponseBody enc headers agg status =
     (if status = StatusNoContent \<or> status = StatusNotModified then ([], headers)
      else if length (ar_errors agg) > 0 \<and> \<not> ar_partial agg then
        (mustMarshal enc (problemForErrors (ar_errors agg) status),
         hdr_Set ''Content-Type'' ''application/problem+json'' headers)
      else
        let h1 = hdr_Set ''Content-Type'' ''application/json; charset=utf-8'' headers;
            h2 = (if ar_partial agg
                  then fold (\<lambda>e h. hdr_Add ''X-Partial-Errors'' (ClientError_String e) h) (ar_errors agg) h1
                  else h1)
        in (ar_data agg, h2))"

definition buildResponse ::
  "'j json_codec \<Rightarrow> problem_encoder \<Rightarrow> Context \<Rightarrow> upstreamResponse list \<Rightarrow> flow \<Rightarrow> http_resp go" where
  "buildResponse codec enc ctx responses f =
     map_option
       (\<lambda>aggregated.
         let h0 = (case ar_headers aggregated of None \<Rightarrow> [] | Some h \<Rightarrow> h);
             h1 = hdr_Set ''X-Request-ID'' (requestIDFromContext ctx) h0;
             h2 = hdr_Set ''X-Request-Fingerprint'' (fingerprintFromContext ctx) h1;
             status = resolveStatus aggregated;
             (body, h3) = buildResponseBody enc h2 aggregated status
         in make_response status body h3)
       (aggregate codec (map (\<lambda>u. uc_name (hu_cfg u)) (fl_upstreams f)) responses (fl_aggregation f))"

section \<open>Copying to the client\<close>

fun copy_headers :: "Header \<Rightarrow> Header \<Rightarrow> Header" where
  "copy_headers [] target = target"
| "copy_headers ((k, vv) # src) target =
     copy_headers src (if k \<in> set hopByHopHeaders then target else hdr_AddAll k vv target)"

text \<open>\<^verbatim>\<open>io.Copy\<close> of a body that is read in one piece; its result is ignored.\<close>

definition copyResponse :: "ResponseWriter \<Rightarrow> http_resp \<Rightarrow> ResponseWriter go" where
  "copyResponse w resp =
     map_option
       (\<lambda>w1. case rs_Body resp of
          None \<Rightarrow> w1
        | Some body \<Rightarrow>
            (case fst (ReadAll body) of [] \<Rightarrow> w1 | d # ds \<Rightarrow> snd (rw_Write (d # ds) w1)))
       (rw_WriteHeader (rs_StatusCode resp) (rw_edit (copy_headers (rs_Header resp)) w))"

section \<open>Fingerprints\<close>

definition fingerprint_text :: "Request \<Rightarrow> string \<Rightarrow> string" where
  "fingerprint_text r flowPath =
     (let headers = sort (filter (\<lambda>n. n \<notin> set fingerprintIgnoredHeaders) (map fst (req_Header r)));
          raw = url_RawQuery (req_URL r)
      in req_Method r @ ''|'' @ flowPath @ ''|'' @ Join headers '','' @ ''|'' @
         (if raw \<noteq> [] then Join (sort (map fst (ParseQuery raw))) '','' else []))"

definition hex_bytes :: "bytes \<Rightarrow> string" where
  "hex_bytes b = concat (map (\<lambda>c. let n = of_char c :: nat in
       [(''0123456789abcdef'') ! (n div 16), (''0123456789abcdef'') ! (n mod 16)]) b)"

definition computeFingerprint :: "(bytes \<Rightarrow> bytes) \<Rightarrow> Request \<Rightarrow> string \<Rightarrow> string" where
  "computeFingerprint sha256 r flowPath = hex_bytes (take 8 (sha256 (fingerprint_text r flowPath)))"

section \<open>Lemmas\<close>

lemma primary_loop_max:
  "primary_loop m s es = s \<and> (\<forall>e \<in> set es. errorPriority e \<le> m) \<or>
   primary_loop m s es \<in> set es \<and> m < errorPriority (primary_loop m s es) \<and>
     (\<forall>e \<in> set es. errorPriority e \<le> errorPriority (primary_loop m s es))"
proof (induction es arbitrary: m s)
  case (Cons e es)
  show ?case
  proof (cases "errorPriority e > m")
    case True
    with Cons [of "errorPriority e" e] show ?thesis by auto
  next
    case False
    with Cons [of m s] show ?thesis by auto
  qed
qed simp

lemma errorPriority_nonneg: "0 \<le> errorPriority e"
  by (cases e) simp_all

lemma selectPrimaryError_max:
  assumes "es \<noteq> []"
  shows "selectPrimaryError es \<in> set es \<and>
    (\<forall>e \<in> set es. errorPriority e \<le> errorPriority (selectPrimaryError es))"
proof -
  have "\<not> (\<forall>e \<in> set es. errorPriority e \<le> - 1)"
    using assms errorPriority_nonneg [of "hd es"] hd_in_set [of es] by (metis neg_0_le_iff_le not_one_le_zero order_trans)
  with primary_loop_max [of "- 1" "OtherClientErr []" es] show ?thesis
    unfolding selectPrimaryError_def by blast
qed

lemma statusForError_final: "final_status (statusForError e)" "400 \<le> statusForError e"
  by (cases e; simp add: final_status_def)+

lemma copy_headers_values:
  assumes "distinct (map fst src)" "\<And>k. k \<in> fst ` set src \<Longrightarrow> canon k = k"
  shows "hdr_values (copy_headers src target) k =
    hdr_values target k @ (if k \<in> set hopByHopHeaders then [] else hdr_values src k)"
  using assms
proof (induction src arbitrary: target)
  case (Cons kv src)
  obtain k0 vv where kv: "kv = (k0, vv)" by force
  have c: "canon k0 = k0" and d: "k0 \<notin> fst ` set src" using Cons.prems kv by auto
  have IH: "hdr_values (copy_headers src t) k =
      hdr_values t k @ (if k \<in> set hopByHopHeaders then [] else hdr_values src k)" for t
    using Cons.prems by (intro Cons.IH) (auto simp: kv)
  have "hdr_values src k0 = []"
    using d by (simp add: hdr_values_def map_of_eq_None_iff [THEN iffD2])
  with IH c show ?case
    by (auto simp: kv header_simps hdr_values_def [of "(k0, vv) # src"]) (simp add: hdr_values_def)
qed (simp add: hdr_values_def)

lemma partial_errors_values:
  "hdr_values (fold (\<lambda>e h. hdr_Add ''X-Partial-Errors'' (ClientError_String e) h) es h) k =
     hdr_values h k @ (if k = ''X-Partial-Errors'' then map ClientError_String es else [])"
  by (induction es arbitrary: h) (auto simp: header_simps)

lemma header_ids [simp]:
  "hdr_values (hdr_Set ''X-Request-Fingerprint'' fp (hdr_Set ''X-Request-ID'' i h)) ''X-Request-Id'' = [i]"
  "hdr_values (hdr_Set ''X-Request-Fingerprint'' fp (hdr_Set ''X-Request-ID'' i h)) ''X-Request-Fingerprint'' = [fp]"
  by (simp_all add: header_simps)

section \<open>Properties\<close>

text \<open>
  A failed aggregation tells the client one story: the status line, the status and the title
  of the problem document all come from the error of the highest priority (unless the upstreams
  agreed on a client-error status, which then is the status), the document lists every error, and
  the response is marked as a problem document.
\<close>

theorem failure_response_coherent:
  assumes "aggregate codec (map (\<lambda>u. uc_name (hu_cfg u)) (fl_upstreams f)) rs (fl_aggregation f) = Some agg"
    and "ar_errors agg \<noteq> []" "\<not> ar_partial agg" "ar_status agg \<notin> {204, 304}"
  shows "\<exists>r p. buildResponse codec enc ctx rs f = Some r \<and>
    p \<in> set (ar_errors agg) \<and> (\<forall>e \<in> set (ar_errors agg). errorPriority e \<le> errorPriority p) \<and>
    rs_StatusCode r = (if ar_status agg \<noteq> 0 then ar_status agg else statusForError p) \<and>
    rs_Body r = Some (body_of (mustMarshal enc
      \<lparr>pd_type = ''about:blank'', pd_title = problemTitle p, pd_status = rs_StatusCode r,
       pd_detail = [], pd_errors = ar_errors agg\<rparr>)) \<and>
    hdr_values (rs_Header r) ''Content-Type'' = [''application/problem+json'']"
proof -
  let ?p = "selectPrimaryError (ar_errors agg)"
  have p: "?p \<in> set (ar_errors agg)" "\<forall>e \<in> set (ar_errors agg). errorPriority e \<le> errorPriority ?p"
    using selectPrimaryError_max [OF assms(2)] by simp_all
  have st: "resolveStatus agg = (if ar_status agg \<noteq> 0 then ar_status agg else statusForError ?p)"
    using assms(2,3) by (simp add: resolveStatus_def statusFromErrors_def)
  have "statusForError ?p \<noteq> 204" "statusForError ?p \<noteq> 304"
    using statusForError_final(2) [of ?p] by auto
  with st assms(4) have ok: "resolveStatus agg \<noteq> 204" "resolveStatus agg \<noteq> 304" by (auto split: if_splits)
  define h where "h = hdr_Set ''X-Request-Fingerprint'' (fingerprintFromContext ctx)
      (hdr_Set ''X-Request-ID'' (requestIDFromContext ctx) (case ar_headers agg of None \<Rightarrow> [] | Some h \<Rightarrow> h))"
  define r where "r = make_response (resolveStatus agg)
      (mustMarshal enc (problemForErrors (ar_errors agg) (resolveStatus agg)))
      (hdr_Set ''Content-Type'' ''application/problem+json'' h)"
  have "buildResponse codec enc ctx rs f = Some r" unfolding r_def
    using assms(1-3) ok by (simp add: buildResponse_def buildResponseBody_def h_def Let_def)
  moreover have "rs_StatusCode r = (if ar_status agg \<noteq> 0 then ar_status agg else statusForError ?p)"
    using st by (simp add: r_def make_response_def)
  moreover have "rs_Body r = Some (body_of (mustMarshal enc
      \<lparr>pd_type = ''about:blank'', pd_title = problemTitle ?p, pd_status = rs_StatusCode r,
       pd_detail = [], pd_errors = ar_errors agg\<rparr>))"
    "hdr_values (rs_Header r) ''Content-Type'' = [''application/problem+json'']"
    by (simp_all add: r_def make_response_def problemForErrors_def problemTypeBlank_def header_simps)
  ultimately show ?thesis using p by blast
qed

theorem failure_response_coherent_witness:
  "\<exists>r. buildResponse sample_codec (\<lambda>p. Inr (pd_title p)) empty_context
     [status_response 503 upstreamBadStatus, status_response 503 upstreamBadStatus]
     (sample_flow\<lparr>fl_aggregation := \<lparr>bestEffort = False, strategy = strategyArray,
        conflict_policy = conflictPolicyOverwrite, preferredUpstream = -1\<rparr>\<rparr>) = Some r \<and>
     rs_StatusCode r = 502"
proof -
  let ?agg = "\<lparr>bestEffort = False, strategy = strategyArray,
        conflict_policy = conflictPolicyOverwrite, preferredUpstream = -1\<rparr>"
  let ?f = "sample_flow\<lparr>fl_aggregation := ?agg\<rparr>"
  let ?rs = "[status_response 503 upstreamBadStatus, status_response 503 upstreamBadStatus]"
  let ?a = "zero_aggregated\<lparr>ar_errors := [ClientErrUpstreamError]\<rparr>"
  have "aggregate sample_codec (map (\<lambda>u. uc_name (hu_cfg u)) (fl_upstreams ?f)) ?rs (fl_aggregation ?f) = Some ?a"
    by (simp add: aggregate_def arrayed_def sample_flow_def status_response_def mapUpstreamError_def
        kind_simps dedupeErrors_def sharedFailureStatus_def zero_aggregated_def)
  from failure_response_coherent [OF this, of "\<lambda>p. Inr (pd_title p)" empty_context]
  show ?thesis by (auto simp: zero_aggregated_def)
qed

text \<open>
  A response with data is the data: on a full or partial success the body is the aggregated
  payload byte for byte, in the same shape either way; a partial success has status 206 and names
  each error in a header of its own.
\<close>

theorem data_response_unwrapped:
  assumes "aggregate codec (map (\<lambda>u. uc_name (hu_cfg u)) (fl_upstreams f)) rs (fl_aggregation f) = Some agg"
    and "ar_errors agg = [] \<or> ar_partial agg" "ar_status agg = 0"
  shows "\<exists>r. buildResponse codec enc ctx rs f = Some r \<and>
    rs_Body r = Some (body_of (ar_data agg)) \<and> rs_ContentLength r = int (length (ar_data agg)) \<and>
    rs_StatusCode r = (if ar_partial agg then 206 else 200) \<and>
    hdr_values (rs_Header r) ''Content-Type'' = [''application/json; charset=utf-8''] \<and>
    hdr_values (rs_Header r) ''X-Partial-Errors'' =
      (case ar_headers agg of None \<Rightarrow> [] | Some h \<Rightarrow> hdr_values h ''X-Partial-Errors'') @
      (if ar_partial agg then map ClientError_String (ar_errors agg) else [])"
proof -
  have st: "resolveStatus agg = (if ar_partial agg then 206 else 200)"
    using assms(2,3) by (auto simp: resolveStatus_def statusFromErrors_def)
  then have ok: "resolveStatus agg \<noteq> 204" "resolveStatus agg \<noteq> 304" by auto
  show ?thesis
    using assms st ok
    by (auto simp: buildResponse_def buildResponseBody_def make_response_def Let_def header_simps
        partial_errors_values split: option.splits)
qed

theorem data_response_unwrapped_witness:
  "\<exists>r. buildResponse sample_codec (\<lambda>p. Inr []) empty_context
     [ok_response ''A'', status_response 503 upstreamBadStatus] sample_flow = Some r \<and>
     rs_StatusCode r = 206 \<and> rs_Body r = Some (body_of ''[A]'') \<and>
     hdr_values (rs_Header r) ''X-Partial-Errors'' = [''UPSTREAM_ERROR'']"
proof -
  let ?rs = "[ok_response ''A'', status_response 503 upstreamBadStatus]"
  let ?a = "\<lparr>ar_data = ''[A]'', ar_headers = Some [], ar_errors = [ClientErrUpstreamError],
     ar_status = 0, ar_partial = True\<rparr>"
  have "aggregate sample_codec (map (\<lambda>u. uc_name (hu_cfg u)) (fl_upstreams sample_flow)) ?rs
      (fl_aggregation sample_flow) = Some ?a"
    by (simp add: aggregate_def arrayed_def sample_flow_def sample_defs mapUpstreamError_def
        kind_simps dedupeErrors_def mergeSuccessfulHeaders_def)
  from data_response_unwrapped [OF this, of "\<lambda>p. Inr []" empty_context] show ?thesis by auto
qed



text \<open>
  What reaches the client's connection: for a response whose headers have canonical names,
  no hop-by-hop header of it is passed on and every other header is passed on with all its
  values, behind those the writer already had.
\<close>

theorem hop_by_hop_headers_dropped:
  assumes "distinct (map fst (rs_Header r))" "\<And>k. k \<in> fst ` set (rs_Header r) \<Longrightarrow> canon k = k"
    and "copyResponse w r = Some w'" "rw_sent w = None" "final_status (rs_StatusCode r)"
  shows "\<exists>h. rw_sent w' = Some (rs_StatusCode r, h) \<and>
    (\<forall>k. hdr_values h k = hdr_values (rw_header w) k @
      (if k \<in> set hopByHopHeaders then [] else hdr_values (rs_Header r) k))"
proof -
  have "rw_WriteHeader (rs_StatusCode r) (rw_edit (copy_headers (rs_Header r)) w) =
      Some ((rw_edit (copy_headers (rs_Header r)) w)
        \<lparr>rw_sent := Some (rs_StatusCode r, copy_headers (rs_Header r) (rw_header w))\<rparr>)"
    using assms(4,5) by (subst rw_WriteHeader_fresh) simp_all
  then have "rw_sent w' = Some (rs_StatusCode r, copy_headers (rs_Header r) (rw_header w))"
    using assms(3) rw_Write_keeps_sent by (auto simp: copyResponse_def split: option.splits list.splits)
  then show ?thesis using copy_headers_values [OF assms(1,2)] by auto
qed

theorem hop_by_hop_headers_dropped_witness:
  "\<exists>w' h. copyResponse (new_writer\<lparr>rw_header := [(''Content-Length'', [''2''])]\<rparr>)
     (make_response 200 ''ok'' [(''Connection'', [''close'']), (''Etag'', [''1'']), (''Content-Length'', [''7''])]) = Some w' \<and>
     rw_sent w' = Some (200, h) \<and> hdr_values h ''Connection'' = [] \<and> hdr_values h ''Etag'' = [''1''] \<and>
     hdr_values h ''Content-Length'' = [''2'']"
proof -
  let ?w = "new_writer\<lparr>rw_header := [(''Content-Length'', [''2''])]\<rparr>"
  let ?h = "[(''Connection'', [''close'']), (''Etag'', [''1'']), (''Content-Length'', [''7''])]"
  let ?r = "make_response 200 ''ok'' ?h"
  have canon: "canon ''Connection'' = ''Connection''" "canon ''Etag'' = ''Etag''" by code_simp+
  have "\<exists>w'. copyResponse ?w ?r = Some w'"
    by (simp add: copyResponse_def rw_WriteHeader_def new_writer_def make_response_def)
  then obtain w' where w': "copyResponse ?w ?r = Some w'" by blast
  have "\<exists>h. rw_sent w' = Some (rs_StatusCode ?r, h) \<and>
    (\<forall>k. hdr_values h k = hdr_values (rw_header ?w) k @
      (if k \<in> set hopByHopHeaders then [] else hdr_values (rs_Header ?r) k))"
    by (rule hop_by_hop_headers_dropped [OF _ _ w'])
      (use canon in \<open>auto simp: make_response_def new_writer_def final_status_def\<close>)
  then obtain h where h: "rw_sent w' = Some (200, h)"
    "\<And>k. hdr_values h k = hdr_values [(''Content-Length'', [''2''])] k @
      (if k \<in> set hopByHopHeaders then [] else hdr_values ?h k)"
    by (auto simp: make_response_def)
  then show ?thesis using w' by (auto simp: hopByHopHeaders_def hdr_values_def)
qed

text \<open>
  The fingerprint does not depend on the order in which Go visits the headers, nor on the
  ignored ones: requests with the same method, query and relevant header names have the same
  fingerprint under a flow.
\<close>

theorem fingerprint_order_irrelevant:
  assumes "req_Method r = req_Method r'" "url_RawQuery (req_URL r) = url_RawQuery (req_URL r')"
    and "mset (filter (\<lambda>n. n \<notin> set fingerprintIgnoredHeaders) (map fst (req_Header r))) =
      mset (filter (\<lambda>n. n \<notin> set fingerprintIgnoredHeaders) (map fst (req_Header r')))"
  shows "computeFingerprint sha256 r path = computeFingerprint sha256 r' path"
proof -
  have "sort (filter (\<lambda>n. n \<notin> set fingerprintIgnoredHeaders) (map fst (req_Header r))) =
      sort (filter (\<lambda>n. n \<notin> set fingerprintIgnoredHeaders) (map fst (req_Header r')))"
    by (rule properties_for_sort) (use assms(3) in simp_all)
  then show ?thesis using assms(1,2) by (simp add: computeFingerprint_def fingerprint_text_def)
qed

theorem fingerprint_order_irrelevant_witness:
  "computeFingerprint (\<lambda>b. b) (sample_request\<lparr>req_Header := [(''Accept'', []), (''X-Trace'', []), (''Cookie'', [])]\<rparr>) ''/p'' =
   computeFingerprint (\<lambda>b. b) (sample_request\<lparr>req_Header := [(''X-Trace'', []), (''Accept'', [])]\<rparr>) ''/p''"
  by (rule fingerprint_order_irrelevant) (simp_all add: fingerprintIgnoredHeaders_def)

end
