(* ===== verification/Plugins.thy ===== *)
theory Plugins
  imports Response_Builder
begin

text \<open>
  Plugins and the context they get (\<^verbatim>\<open>context.go\<close>, \<^verbatim>\<open>sdk/\<close>, \<^verbatim>\<open>executePlugins\<close> of \<^verbatim>\<open>router.go\<close>).  A plugin
  may change the request it is given in two ways that the gateway does not treat alike: by
  writing into the header map, the URL or the body that the request object points to, and by
  putting another request object into the context.  Requests are therefore objects with
  references into a store here; \<open>deref\<close> gives the request that an object stands for.
\<close>

section \<open>Request objects\<close>

record store =
  st_header :: "nat \<Rightarrow> Header"
  st_url :: "nat \<Rightarrow> URL"
  st_body :: "nat \<Rightarrow> body_stream"

record req_obj =
  ro_Method :: string
  ro_URL :: nat
  ro_Host :: string
  ro_Header :: nat
  ro_Body :: nat
  ro_ContentLength :: int
  ro_TransferEncoding :: "string list"
  ro_RemoteAddr :: string
  ro_TLS :: bool
  ro_Context :: Context

definition deref :: "store \<Rightarrow> req_obj \<Rightarrow> Request" where
  "deref st ro =
     \<lparr>req_Method = ro_Method ro, req_URL = st_url st (ro_URL ro), req_Host = ro_Host ro,
      req_Header = st_header st (ro_Header ro), req_Body = st_body st (ro_Body ro),
      req_ContentLength = ro_ContentLength ro, req_TransferEncoding = ro_TransferEncoding ro,
      req_RemoteAddr = ro_RemoteAddr ro, req_TLS = ro_TLS ro, req_Context = ro_Context ro\<rparr>"

text \<open>\<^verbatim>\<open>Request.WithContext\<close>: a shallow copy, with the same header map, URL and body.\<close>

definition WithContext :: "Context \<Rightarrow> req_obj \<Rightarrow> req_obj" where
  "WithContext ctx ro = ro\<lparr>ro_Context := ctx\<rparr>"

section \<open>Contexts and plugins\<close>

record aastroContext =
  ac_req :: "req_obj option"
  ac_resp :: "http_resp option"

definition newContext :: "req_obj \<Rightarrow> aastroContext" where
  "newContext req = \<lparr>ac_req = Some req, ac_resp = None\<rparr>"

definition SetRequest :: "req_obj option \<Rightarrow> aastroContext \<Rightarrow> aastroContext" where
  "SetRequest req c = c\<lparr>ac_req := req\<rparr>"

definition SetResponse :: "http_resp option \<Rightarrow> aastroContext \<Rightarrow> aastroContext" where
  "SetResponse resp c = c\<lparr>ac_resp := resp\<rparr>"

datatype PluginType = PluginTypeRequest | PluginTypeResponse | PluginTypeOther int

fun PluginType_String :: "PluginType \<Rightarrow> string" where
  "PluginType_String PluginTypeRequest = ''request''"
| "PluginType_String PluginTypeResponse = ''response''"
| "PluginType_String (PluginTypeOther n) = ''unknown''"

text \<open>
  A plugin: the name in its \<^verbatim>\<open>Info\<close>, its type, and what its \<^verbatim>\<open>Execute\<close> does to the store and the
  context; \<open>None\<close> is a panic.
\<close>

record plugin =
  pl_Name :: string
  pl_Type :: PluginType
  pl_Execute :: "store \<times> aastroContext \<Rightarrow> (go_error option \<times> store \<times> aastroContext) go"

text \<open>
  The plugins of one type in their order.  The first one that fails ends the run with a 500; a
  context without a request is a nil dereference.
\<close>

fun executePlugins ::
  "problem_encoder \<Rightarrow> PluginType \<Rightarrow> plugin list \<Rightarrow> ResponseWriter \<Rightarrow> store \<Rightarrow> aastroContext \<Rightarrow>
     (bool \<times> ResponseWriter \<times> store \<times> aastroContext) go" where
  "executePlugins enc ty [] w st actx = Some (True, w, st, actx)"
| "executePlugins enc ty (p # ps) w st actx =
     (if pl_Type p \<noteq> ty then executePlugins enc ty ps w st actx
      else
        case ac_req actx of
          None \<Rightarrow> None
        | Some req \<Rightarrow>
            (case pl_Execute p (st, SetRequest (Some (WithContext (ro_Context req) req)) actx) of
               None \<Rightarrow> None
             | Some (err, st', actx') \<Rightarrow>
                 (case err of
                    None \<Rightarrow> executePlugins enc ty ps w st' actx'
                  | Some e \<Rightarrow>
                      map_option (\<lambda>w'. (False, w', st', actx'))
                        (WriteError enc w ClientErrInternal StatusInternalServerError))))"

section \<open>Lemmas\<close>

lemma WithContext_same [simp]: "WithContext (ro_Context req) req = req"
  by (simp add: WithContext_def)

lemma executePlugins_none:
  "list_all (\<lambda>p. pl_Type p \<noteq> ty) ps \<Longrightarrow> executePlugins enc ty ps w st actx = Some (True, w, st, actx)"
  by (induction ps) auto

text \<open>
  A plugin the gateway can live with: it does not panic and leaves a request and, if there was
  one, a response in the context, the latter with a final status.
\<close>

definition usable :: "aastroContext \<Rightarrow> bool" where
  "usable actx \<longleftrightarrow> ac_req actx \<noteq> None \<and> (\<forall>r. ac_resp actx = Some r \<longrightarrow> final_status (rs_StatusCode r))"

definition tame :: "plugin \<Rightarrow> bool" where
  "tame p \<longleftrightarrow>
     (\<forall>st actx. usable actx \<longrightarrow>
        (\<exists>err st' actx'. pl_Execute p (st, actx) = Some (err, st', actx') \<and> usable actx' \<and>
           (ac_resp actx \<noteq> None \<longrightarrow> ac_resp actx' \<noteq> None)))"

lemma executePlugins_tame:
  assumes "list_all tame ps" "usable actx" "rw_sent w = None"
  shows "\<exists>ok w' st' actx'. executePlugins enc ty ps w st actx = Some (ok, w', st', actx') \<and>
    (if ok then w' = w \<and> usable actx' \<and> (ac_resp actx \<noteq> None \<longrightarrow> ac_resp actx' \<noteq> None)
     else \<exists>h. rw_sent w' = Some (500, h))"
  using assms(1,2)
proof (induction ps arbitrary: st actx)
  case (Cons p ps)
  show ?case
  proof (cases "pl_Type p = ty")
    case False
    with Cons show ?thesis by simp
  next
    case True
    obtain req where req: "ac_req actx = Some req" using Cons.prems(2) by (auto simp: usable_def)
    have same: "SetRequest (Some req) actx = actx" using req by (simp add: SetRequest_def)
    have "tame p" "list_all tame ps" using Cons.prems(1) by simp_all
    then obtain err st' actx' where ex: "pl_Execute p (st, actx) = Some (err, st', actx')" "usable actx'"
      "ac_resp actx \<noteq> None \<longrightarrow> ac_resp actx' \<noteq> None"
      unfolding tame_def using Cons.prems(2) by metis
    show ?thesis
    proof (cases err)
      case None
      with Cons.IH [of actx' st'] Cons.prems(1) ex True req same show ?thesis by fastforce
    next
      case (Some e)
      obtain w' h where "WriteError enc w ClientErrInternal 500 = Some w'" "rw_sent w' = Some (500, h)"
        using WriteError_status [OF assms(3), of 500 enc ClientErrInternal] by (auto simp: final_status_def)
      with Some ex True req same show ?thesis by auto
    qed
  qed
next
  case Nil
  then show ?case by (intro exI [of _ True]) auto
qed

end
