(* ===== verification/Streaming.thy ===== *)
theory Streaming
  imports Plugins
begin

text \<open>
  Streaming flows (\<^verbatim>\<open>streaming.go\<close> and \<^verbatim>\<open>proxy\<close> of \<^verbatim>\<open>upstream.go\<close>): the response of the only upstream is
  copied to the client as it arrives, through a writer that remembers whether anything was
  written.  The network is an environment: what the transport answers, and at which write the
  client's connection breaks, after how many bytes of it and with which error.
\<close>

section \<open>The tracking writer\<close>

record trackingWriter =
  tw_rw :: ResponseWriter
  tw_written :: bool
  tw_statusCode :: int

definition tw_WriteHeader :: "int \<Rightarrow> trackingWriter \<Rightarrow> trackingWriter go" where
  "tw_WriteHeader code tw =
     map_option (\<lambda>w. \<lparr>tw_rw = w, tw_written = True, tw_statusCode = code\<rparr>)
       (rw_WriteHeader code (tw_rw tw))"

type_synonym write_fault = "(nat \<times> go_error) option"

definition tw_Write :: "write_fault \<Rightarrow> bytes \<Rightarrow> trackingWriter \<Rightarrow> go_error option \<times> trackingWriter" where
  "tw_Write fault b tw =
     (let (err, w) =
        (case fault of
           None \<Rightarrow> rw_Write b (tw_rw tw)
         | Some (n, e) \<Rightarrow> (Some e, snd (rw_Write (take n b) (tw_rw tw))))
      in (err, \<lparr>tw_rw = w, tw_written = True,
                tw_statusCode = (if tw_statusCode tw = 0 then StatusOK else tw_statusCode tw)\<rparr>))"

section \<open>Copying a stream\<close>

definition streamBuffer :: nat where
  "streamBuffer = 16 * 1024"

text \<open>The results of reading a body through a buffer of a given size, which cuts long results.\<close>

function buffered :: "nat \<Rightarrow> body_stream \<Rightarrow> body_stream" where
  "buffered n [] = []"
| "buffered n ((b, e) # rs) =
     (if 0 < n \<and> n < length b then (take n b, ReadMore) # buffered n ((drop n b, e) # rs)
      else (b, e) # buffered n rs)"
  by pat_completeness auto

termination buffered
  by (relation "measure (\<lambda>(n, rs). sum_list (map (\<lambda>(b, e). Suc (length b)) rs))") auto

text \<open>One round of the loop per result; \<open>i\<close> counts the writes.\<close>

fun stream_loop ::
  "(nat \<Rightarrow> write_fault) \<Rightarrow> nat \<Rightarrow> body_stream \<Rightarrow> trackingWriter \<Rightarrow> go_error option \<times> trackingWriter" where
  "stream_loop faults i [] tw = (None, tw)"
| "stream_loop faults i ((b, e) # rs) tw =
     (let (werr, tw1) = (if length b > 0 then tw_Write (faults i) b tw else (None, tw)) in
      case werr of
        Some err \<Rightarrow> (Some (ErrWrap ''write to client: '' err), tw1)
      | None \<Rightarrow>
          (case e of
             ReadEOF \<Rightarrow> (None, tw1)
           | ReadErr err \<Rightarrow> (Some (ErrWrap ''read from upstream: '' err), tw1)
           | ReadMore \<Rightarrow> stream_loop faults (if length b > 0 then i + 1 else i) rs tw1))"

definition streamCopy ::
  "(nat \<Rightarrow> write_fault) \<Rightarrow> body_stream \<Rightarrow> trackingWriter \<Rightarrow> go_error option \<times> trackingWriter" where
  "streamCopy faults src dst = stream_loop faults 0 (buffered streamBuffer src) dst"

section \<open>The proxy\<close>

record stream_env =
  se_transport :: "Request \<Rightarrow> go_error + HttpResponse"
  se_faults :: "nat \<Rightarrow> write_fault"

definition proxy ::
  "externals \<Rightarrow> stream_env \<Rightarrow> Context \<Rightarrow> trackingWriter \<Rightarrow> Request \<Rightarrow> httpUpstream \<Rightarrow>
     (go_error option \<times> trackingWriter \<times> httpUpstream \<times> Request list) go" where
  "proxy ext env ctx w original u =
     (case selectHost (hu_cfg u) (hu_state u) of
        None \<Rightarrow> None
      | Some (h, st) \<Rightarrow>
          let u1 = u\<lparr>hu_state := st\<rparr>;
              host = uc_hosts (hu_cfg u) ! h;
              hostPath = upstream_url host (expandPathParams ext (uc_path (hu_cfg u)) original);
              method = effective_method (hu_cfg u) original
          in
          (case http_NewRequest ext ctx method hostPath (req_Body original) 0 of
             Inl err \<Rightarrow> Some (Some (ErrWrap ''build upstream request: '' err), w, u1, [])
           | Inr req0 \<Rightarrow>
               let req1 = req0\<lparr>req_ContentLength := req_ContentLength original,
                               req_TransferEncoding := req_TransferEncoding original\<rparr>;
                   req2 = resolveHeaders (hu_cfg u) (resolveQueries ext (hu_cfg u) req1 original) original;
                   req = req2\<lparr>req_Header := otel_Inject ext ctx (req_Header req2)\<rparr>
               in
               (case se_transport env req of
                  Inl err \<Rightarrow> Some (Some (ErrWrap ''upstream call: '' err), w, u1, [req])
                | Inr resp \<Rightarrow>
                    let w1 = w\<lparr>tw_rw := rw_edit (hdr_Del ''Content-Length'')
                                 (rw_edit (copy_headers (hr_header resp)) (tw_rw w))\<rparr>
                    in
                    (case tw_WriteHeader (hr_status resp) w1 of
                       None \<Rightarrow> None
                     | Some w2 \<Rightarrow>
                         let (err, w3) = streamCopy (se_faults env) (hr_body resp) w2 in
                         (case err of
                            None \<Rightarrow> Some (None, w3, u1, [req])
                          | Some e \<Rightarrow>
                              if errors_Is e ErrCanceled then Some (None, w3, u1, [req])
                              else Some (Some (ErrWrap ''stream body: '' e), w3, u1, [req]))))))"

section \<open>The handler\<close>

text \<open>
  \<open>ps\<close> are the plugins of the flow.  The result is the writer, the flow with its changed upstream
  and the requests sent.  The deadlines that the code tries to lift have no effect on it.
\<close>

definition handleStreaming ::
  "problem_encoder \<Rightarrow> externals \<Rightarrow> stream_env \<Rightarrow> plugin list \<Rightarrow> ResponseWriter \<Rightarrow> store \<Rightarrow> req_obj \<Rightarrow> flow \<Rightarrow>
     (ResponseWriter \<times> flow \<times> Request list) go" where
  "handleStreaming enc ext env ps w st req f =
     (case fl_upstreams f of
        [u] \<Rightarrow>
          (case executePlugins enc PluginTypeRequest ps w st (newContext req) of
             None \<Rightarrow> None
           | Some (False, w1, st1, actx) \<Rightarrow> Some (w1, f, [])
           | Some (True, w1, st1, actx) \<Rightarrow>
               (case ac_req actx of
                  None \<Rightarrow> None
                | Some r \<Rightarrow>
                    let tw = \<lparr>tw_rw = w1, tw_written = False, tw_statusCode = 0\<rparr> in
                    (case proxy ext env (ro_Context r) tw (deref st1 r) u of
                       None \<Rightarrow> None
                     | Some (err, tw', u', sent) \<Rightarrow>
                         map_option (\<lambda>w2. (w2, f\<lparr>fl_upstreams := [u']\<rparr>, sent))
                           (if err \<noteq> None \<and> \<not> tw_written tw'
                            then WriteError enc (tw_rw tw') ClientErrUpstreamUnavailable StatusBadGateway
                            else Some (tw_rw tw')))))
      | _ \<Rightarrow> map_option (\<lambda>w1. (w1, f, [])) (WriteError enc w ClientErrInternal StatusInternalServerError))"

section \<open>Lemmas\<close>

lemma ReadAll_buffered [simp]: "ReadAll (buffered n rs) = ReadAll rs"
proof (induction n rs rule: buffered.induct)
  case (2 n b e rs)
  then show ?case by (cases e) (auto split: prod.splits)
qed simp

text \<open>
  What a copy leaves behind on a writer whose header is out: the same header, a written mark,
  and a prefix of the stream behind the old body; all of the stream if there was no error.
\<close>

lemma tw_Write_effect:
  assumes "tw_Write fault b tw = (err, tw')" "rw_sent (tw_rw tw) = Some (code, h)"
  shows "rw_sent (tw_rw tw') = Some (code, h) \<and> tw_written tw' \<and>
    (\<exists>d. rw_body (tw_rw tw') = rw_body (tw_rw tw) @ d \<and> prefix d b \<and> (err = None \<longrightarrow> d = b)) \<and>
    (fault = None \<and> body_allowed code \<longrightarrow> err = None)"
  using assms
  by (auto simp: tw_Write_def rw_Write_def Let_def take_is_prefix split: option.splits if_splits prod.splits)

lemma stream_loop_effect:
  assumes "stream_loop faults i rs tw = (err, tw')" "rw_sent (tw_rw tw) = Some (code, h)" "tw_written tw"
  shows "rw_sent (tw_rw tw') = Some (code, h) \<and> tw_written tw' \<and>
    (\<exists>d. rw_body (tw_rw tw') = rw_body (tw_rw tw) @ d \<and> prefix d (fst (ReadAll rs)) \<and>
      (err = None \<longrightarrow> ReadAll rs = (d, None))) \<and>
    ((\<forall>j. faults j = None) \<and> body_allowed code \<and> snd (ReadAll rs) = None \<longrightarrow> err = None)"
  using assms
proof (induction faults i rs tw rule: stream_loop.induct)
  case (1 faults i tw)
  then show ?case by auto
next
  case (2 faults i b e rs tw)
  obtain werr tw1 where wr: "(if length b > 0 then tw_Write (faults i) b tw else (None, tw)) = (werr, tw1)"
    by force
  have one: "rw_sent (tw_rw tw1) = Some (code, h) \<and> tw_written tw1 \<and>
      (\<exists>d. rw_body (tw_rw tw1) = rw_body (tw_rw tw) @ d \<and> prefix d b \<and> (werr = None \<longrightarrow> d = b)) \<and>
      (faults i = None \<and> body_allowed code \<longrightarrow> werr = None)"
    using wr "2.prems"(2,3) tw_Write_effect [of "faults i" b tw werr tw1 code h] by (auto split: if_splits)
  then obtain d where d: "rw_body (tw_rw tw1) = rw_body (tw_rw tw) @ d" "prefix d b" "werr = None \<longrightarrow> d = b"
    by blast
  show ?case
  proof (cases werr)
    case (Some x)
    have "prefix b (fst (ReadAll ((b, e) # rs)))" by (cases e) (auto split: prod.splits)
    with d(2) have "prefix d (fst (ReadAll ((b, e) # rs)))" by (rule prefix_order.trans)
    moreover have "err \<noteq> None \<and> tw' = tw1" using "2.prems"(1) wr Some by auto
    ultimately show ?thesis using one d(1) Some by auto
  next
    case None
    with d have body: "rw_body (tw_rw tw1) = rw_body (tw_rw tw) @ b" by simp
    show ?thesis
    proof (cases e)
      case ReadMore
      let ?i = "if length b > 0 then i + 1 else i"
      have run: "stream_loop faults ?i rs tw1 = (err, tw')" using "2.prems"(1) wr None ReadMore by auto
      have "rw_sent (tw_rw tw') = Some (code, h) \<and> tw_written tw' \<and>
        (\<exists>d. rw_body (tw_rw tw') = rw_body (tw_rw tw1) @ d \<and> prefix d (fst (ReadAll rs)) \<and>
          (err = None \<longrightarrow> ReadAll rs = (d, None))) \<and>
        ((\<forall>j. faults j = None) \<and> body_allowed code \<and> snd (ReadAll rs) = None \<longrightarrow> err = None)"
        using "2.IH" [OF wr [symmetric] refl None ReadMore run] one by blast
      with body ReadMore show ?thesis by (auto split: prod.splits)
    next
      case ReadEOF
      with "2.prems"(1) wr None body one show ?thesis by auto
    next
      case (ReadErr x)
      with "2.prems"(1) wr None body one show ?thesis by auto
    qed
  qed
qed

lemma executePlugins_rw:
  assumes "executePlugins enc ty ps w st actx = Some (True, w', st', actx')"
  shows "w' = w"
  using assms
  by (induction enc ty ps w st actx rule: executePlugins.induct)
    (auto split: if_splits option.splits prod.splits)

lemma proxy_sent:
  assumes "proxy ext env ctx w original u = Some (err, w', u', sent)"
  shows "length sent \<le> 1"
  using assms
  by (auto simp: proxy_def Let_def split: option.splits sum.splits prod.splits if_splits)

lemma proxy_failed:
  assumes "proxy ext env ctx w original u = Some (err, w', u', [q])" "se_transport env q = Inl e"
  shows "w' = w \<and> err \<noteq> None"
  using assms
  by (auto simp: proxy_def Let_def split: option.splits sum.splits prod.splits if_splits)

lemma proxy_answered:
  assumes "proxy ext env ctx w original u = Some (err, w', u', [q])" "se_transport env q = Inr resp"
    and "rw_sent (tw_rw w) = None" "final_status (hr_status resp)"
  shows "rw_sent (tw_rw w') = Some (hr_status resp,
      hdr_Del ''Content-Length'' (copy_headers (hr_header resp) (rw_header (tw_rw w)))) \<and> tw_written w' \<and>
    (\<exists>d. rw_body (tw_rw w') = rw_body (tw_rw w) @ d \<and> prefix d (fst (ReadAll (hr_body resp))) \<and>
      ((\<forall>j. se_faults env j = None) \<and> body_allowed (hr_status resp) \<and>
        snd (ReadAll (hr_body resp)) = None \<longrightarrow> d = fst (ReadAll (hr_body resp))))"
proof -
  let ?h = "hdr_Del ''Content-Length'' (copy_headers (hr_header resp) (rw_header (tw_rw w)))"
  let ?w1 = "w\<lparr>tw_rw := rw_edit (hdr_Del ''Content-Length'')
      (rw_edit (copy_headers (hr_header resp)) (tw_rw w))\<rparr>"
  have "\<exists>w2 e. tw_WriteHeader (hr_status resp) ?w1 = Some w2 \<and>
      streamCopy (se_faults env) (hr_body resp) w2 = (e, w')"
    using assms(1,2)
    by (auto simp: proxy_def Let_def split: option.splits sum.splits prod.splits if_splits)
  then obtain w2 e where w2: "tw_WriteHeader (hr_status resp) ?w1 = Some w2"
    and run: "stream_loop (se_faults env) 0 (buffered streamBuffer (hr_body resp)) w2 = (e, w')"
    by (auto simp: streamCopy_def)
  have sent: "rw_sent (tw_rw w2) = Some (hr_status resp, ?h)" "tw_written w2"
    and body: "rw_body (tw_rw w2) = rw_body (tw_rw w)"
    using w2 assms(3,4) by (auto simp: tw_WriteHeader_def rw_WriteHeader_fresh)
  from stream_loop_effect [OF run sent] body show ?thesis by fastforce
qed

text \<open>
  The proxy returns for every upstream the builder makes, if the statuses it is answered with are
  final ones.  Either it has written the header, or the writer is untouched and the result is an
  error.
\<close>

lemma proxy_total:
  assumes "upstream_wf u" "rw_sent (tw_rw w) = None"
    and "\<And>r resp. se_transport env r = Inr resp \<Longrightarrow> final_status (hr_status resp)"
  shows "\<exists>err w' u' sent. proxy ext env ctx w original u = Some (err, w', u', sent) \<and>
    (tw_written w' \<and> rw_sent (tw_rw w') \<noteq> None \<or> w' = w \<and> err \<noteq> None) \<and>
    (validMethod (effective_method (hu_cfg u) original) \<and> (\<forall>s. \<exists>v. url_Parse ext s = Inr v) \<longrightarrow>
      length sent = 1)"
proof -
  obtain h st where h: "selectHost (hu_cfg u) (hu_state u) = Some (h, st)"
    using selectHost_total [of "hu_cfg u" "hu_state u"] assms(1) by (auto simp: upstream_wf_def)
  let ?new = "http_NewRequest ext ctx (effective_method (hu_cfg u) original)
      (upstream_url (uc_hosts (hu_cfg u) ! h) (expandPathParams ext (uc_path (hu_cfg u)) original))
      (req_Body original) 0"
  show ?thesis
  proof (cases ?new)
    case (Inl err)
    have "\<not> (validMethod (effective_method (hu_cfg u) original) \<and> (\<forall>s. \<exists>v. url_Parse ext s = Inr v))"
    proof
      assume "validMethod (effective_method (hu_cfg u) original) \<and> (\<forall>s. \<exists>v. url_Parse ext s = Inr v)"
      moreover from this obtain v where "url_Parse ext (upstream_url (uc_hosts (hu_cfg u) ! h)
          (expandPathParams ext (uc_path (hu_cfg u)) original)) = Inr v" by blast
      ultimately show False using Inl by (auto simp: http_NewRequest_def validMethod_def Let_def)
    qed
    with h Inl show ?thesis by (auto simp: proxy_def Let_def)
  next
    case (Inr req0)
    let ?req2 = "resolveHeaders (hu_cfg u) (resolveQueries ext (hu_cfg u)
        (req0\<lparr>req_ContentLength := req_ContentLength original,
              req_TransferEncoding := req_TransferEncoding original\<rparr>) original) original"
    define req where "req = ?req2\<lparr>req_Header := otel_Inject ext ctx (req_Header ?req2)\<rparr>"
    show ?thesis
    proof (cases "se_transport env req")
      case (Inl err)
      with h Inr show ?thesis by (auto simp: proxy_def Let_def req_def)
    next
      case res: (Inr resp)
      let ?w1 = "w\<lparr>tw_rw := rw_edit (hdr_Del ''Content-Length'')
          (rw_edit (copy_headers (hr_header resp)) (tw_rw w))\<rparr>"
      obtain w2 where w2: "tw_WriteHeader (hr_status resp) ?w1 = Some w2"
        "rw_sent (tw_rw w2) = Some (hr_status resp, rw_header (tw_rw ?w1))" "tw_written w2"
        using assms(2) assms(3) [OF res] by (auto simp: tw_WriteHeader_def rw_WriteHeader_fresh)
      obtain e w3 where w3: "streamCopy (se_faults env) (hr_body resp) w2 = (e, w3)" by force
      from w3 have "tw_written w3 \<and> rw_sent (tw_rw w3) \<noteq> None"
        using stream_loop_effect [OF _ w2(2,3), of "se_faults env" 0 "buffered streamBuffer (hr_body resp)" e w3]
        by (simp add: streamCopy_def)
      with h Inr res w2(1) w3 show ?thesis
        by (auto simp: proxy_def Let_def req_def split: option.splits)
    qed
  qed
qed

lemma handleStreaming_proxy:
  assumes "handleStreaming enc ext env ps w st req f = Some (w', f', [q])"
  shows "\<exists>r st1 err tw u u'. proxy ext env (ro_Context r)
      \<lparr>tw_rw = w, tw_written = False, tw_statusCode = 0\<rparr> (deref st1 r) u = Some (err, tw, u', [q]) \<and>
    (if err \<noteq> None \<and> \<not> tw_written tw
     then WriteError enc (tw_rw tw) ClientErrUpstreamUnavailable StatusBadGateway
     else Some (tw_rw tw)) = Some w'"
proof -
  obtain u where u: "fl_upstreams f = [u]"
    using assms by (auto simp: handleStreaming_def split: list.splits)
  obtain ok w1 st1 actx where ex: "executePlugins enc PluginTypeRequest ps w st (newContext req) =
      Some (ok, w1, st1, actx)"
    using assms u by (cases "executePlugins enc PluginTypeRequest ps w st (newContext req)")
      (auto simp: handleStreaming_def)
  have ok using assms u ex by (cases ok) (auto simp: handleStreaming_def)
  obtain r where r: "ac_req actx = Some r"
    using assms u ex \<open>ok\<close> by (cases "ac_req actx") (auto simp: handleStreaming_def)
  let ?p = "proxy ext env (ro_Context r) \<lparr>tw_rw = w1, tw_written = False, tw_statusCode = 0\<rparr> (deref st1 r) u"
  obtain err tw u' sent where p: "?p = Some (err, tw, u', sent)"
    using assms u ex \<open>ok\<close> r by (cases ?p) (auto simp: handleStreaming_def)
  have "sent = [q]" "(if err \<noteq> None \<and> \<not> tw_written tw
     then WriteError enc (tw_rw tw) ClientErrUpstreamUnavailable StatusBadGateway
     else Some (tw_rw tw)) = Some w'"
    using assms u ex \<open>ok\<close> r p by (auto simp: handleStreaming_def split: if_splits)
  moreover have "w1 = w" using executePlugins_rw [of enc PluginTypeRequest ps w] ex \<open>ok\<close> by simp
  ultimately show ?thesis using p by blast
qed

lemma proxy_breaker:
  "proxy ext env ctx w original (u\<lparr>hu_breaker := b\<rparr>) =
     map_option (\<lambda>(err, w', u', sent). (err, w', u'\<lparr>hu_breaker := b\<rparr>, sent)) (proxy ext env ctx w original u)"
  by (auto simp: proxy_def Let_def split: option.splits sum.splits prod.splits)

section \<open>Properties\<close>

text \<open>
  C10. Once the upstream of a streaming flow has answered, the client gets that answer and nothing
  else: the upstream's status and its headers without the hop-by-hop ones and the content
  length, followed by a prefix of the upstream's body.  No error document is ever appended,
  whatever happens to either connection, and the body is complete when both connections hold.
\<close>

theorem stream_is_upstream_prefix:
  assumes "handleStreaming enc ext env ps w st req f = Some (w', f', [q])"
    and "se_transport env q = Inr resp" "final_status (hr_status resp)"
    and "rw_sent w = None" "rw_body w = []"
  shows "rw_sent w' = Some (hr_status resp,
      hdr_Del ''Content-Length'' (copy_headers (hr_header resp) (rw_header w))) \<and>
    prefix (rw_body w') (fst (ReadAll (hr_body resp))) \<and>
    ((\<forall>i. se_faults env i = None) \<and> body_allowed (hr_status resp) \<and> snd (ReadAll (hr_body resp)) = None \<longrightarrow>
      rw_body w' = fst (ReadAll (hr_body resp)))"
proof -
  from handleStreaming_proxy [OF assms(1)] obtain r st1 err tw u u' where
    p: "proxy ext env (ro_Context r) \<lparr>tw_rw = w, tw_written = False, tw_statusCode = 0\<rparr> (deref st1 r) u =
      Some (err, tw, u', [q])"
    and w': "(if err \<noteq> None \<and> \<not> tw_written tw
      then WriteError enc (tw_rw tw) ClientErrUpstreamUnavailable StatusBadGateway
      else Some (tw_rw tw)) = Some w'" by blast
  from proxy_answered [OF p assms(2) _ assms(3)] assms(4,5) w' show ?thesis by auto
qed

definition sample_store :: store where
  "sample_store = \<lparr>st_header = (\<lambda>n. req_Header sample_request), st_url = (\<lambda>n. req_URL sample_request),
     st_body = (\<lambda>n. [])\<rparr>"

definition sample_object :: req_obj where
  "sample_object = \<lparr>ro_Method = ''GET'', ro_URL = 0, ro_Host = ''api.example.org'', ro_Header = 0,
     ro_Body = 0, ro_ContentLength = 0, ro_TransferEncoding = [], ro_RemoteAddr = ''203.0.113.7:4711'',
     ro_TLS = True, ro_Context = empty_context\<lparr>ctx_clientIP := Some ''203.0.113.7''\<rparr>\<rparr>"

definition sample_stream_flow :: flow where
  "sample_stream_flow = sample_flow\<lparr>fl_upstreams := [sample_upstream], fl_streaming := True\<rparr>"

text \<open>An upstream that sends two chunks, towards a client that hangs up within the second.\<close>

definition sample_stream_env :: stream_env where
  "sample_stream_env = \<lparr>
     se_transport = (\<lambda>r. Inr \<lparr>hr_status = 200, hr_header = [(''Etag'', [''1''])],
       hr_body = [(''one'', ReadMore), (''two'', ReadEOF)]\<rparr>),
     se_faults = (\<lambda>i. if i = 1 then Some (1, ErrMsg ''broken pipe'') else None)\<rparr>"

lemma sample_stream_sends:
  assumes "\<And>r resp. tr r = Inr resp \<Longrightarrow> final_status (hr_status resp)"
  shows "\<exists>w' f' q. handleStreaming enc sample_externals \<lparr>se_transport = tr, se_faults = fs\<rparr> [] new_writer
    sample_store sample_object sample_stream_flow = Some (w', f', [q])"
proof -
  let ?env = "\<lparr>se_transport = tr, se_faults = fs\<rparr>"
  let ?tw = "\<lparr>tw_rw = new_writer, tw_written = False, tw_statusCode = 0\<rparr>"
  let ?orig = "deref sample_store sample_object"
  have valid: "validMethod (effective_method (hu_cfg sample_upstream) ?orig)"
    "\<And>s. \<exists>v. url_Parse sample_externals s = Inr v"
    by (simp_all add: effective_method_def sample_upstream_def sample_upstream_config_def deref_def
        sample_object_def sample_externals_def) code_simp
  have "upstream_wf sample_upstream" using callable_sample by (simp add: callable_def)
  from proxy_total [OF this, of ?tw ?env sample_externals "ro_Context sample_object" ?orig] valid assms
  obtain err tw u' q where
    p: "proxy sample_externals ?env (ro_Context sample_object) ?tw ?orig sample_upstream = Some (err, tw, u', [q])"
    and tw: "tw_written tw \<or> tw = ?tw"
    by (fastforce simp: new_writer_def length_Suc_conv)
  show ?thesis
    using p tw WriteError_status [of new_writer 502 enc ClientErrUpstreamUnavailable]
    by (auto simp: handleStreaming_def sample_stream_flow_def newContext_def new_writer_def final_status_def)
qed

theorem stream_is_upstream_prefix_witness:
  "\<exists>w' f' q h. handleStreaming (\<lambda>p. Inr []) sample_externals sample_stream_env [] new_writer
     sample_store sample_object sample_stream_flow = Some (w', f', [q]) \<and>
     rw_sent w' = Some (200, h) \<and> prefix (rw_body w') ''onetwo''"
proof -
  have "\<exists>w' f' q. handleStreaming (\<lambda>p. Inr []) sample_externals sample_stream_env [] new_writer
     sample_store sample_object sample_stream_flow = Some (w', f', [q])"
    unfolding sample_stream_env_def by (rule sample_stream_sends) (simp add: final_status_def)
  then obtain w' f' q where h: "handleStreaming (\<lambda>p. Inr []) sample_externals sample_stream_env [] new_writer
     sample_store sample_object sample_stream_flow = Some (w', f', [q])" by blast
  have "se_transport sample_stream_env q = Inr \<lparr>hr_status = 200, hr_header = [(''Etag'', [''1''])],
       hr_body = [(''one'', ReadMore), (''two'', ReadEOF)]\<rparr>"
    by (simp add: sample_stream_env_def)
  from stream_is_upstream_prefix [OF h this] h show ?thesis
    by (auto simp: new_writer_def final_status_def)
qed

text \<open>
  When the upstream of a streaming flow cannot be reached the client gets a 502 problem
  document, not an empty stream.
\<close>

theorem stream_failure_is_502:
  assumes "handleStreaming enc ext env ps w st req f = Some (w', f', [q])"
    and "se_transport env q = Inl e" "rw_sent w = None"
  shows "\<exists>h. rw_sent w' = Some (502, h) \<and> hdr_values h ''Content-Type'' = [''application/problem+json'']"
proof -
  from handleStreaming_proxy [OF assms(1)] obtain r st1 err tw u u' where
    p: "proxy ext env (ro_Context r) \<lparr>tw_rw = w, tw_written = False, tw_statusCode = 0\<rparr> (deref st1 r) u =
      Some (err, tw, u', [q])"
    and w': "(if err \<noteq> None \<and> \<not> tw_written tw
      then WriteError enc (tw_rw tw) ClientErrUpstreamUnavailable StatusBadGateway
      else Some (tw_rw tw)) = Some w'" by blast
  from proxy_failed [OF p assms(2)] w'
  have "WriteError enc w ClientErrUpstreamUnavailable 502 = Some w'" by simp
  then show ?thesis
    using WriteError_status [OF assms(3), of 502 enc ClientErrUpstreamUnavailable]
    by (auto simp: final_status_def)
qed

theorem stream_failure_is_502_witness:
  "\<exists>w' f' q h. handleStreaming (\<lambda>p. Inr []) sample_externals
     \<lparr>se_transport = (\<lambda>r. Inl (ErrMsg ''connection refused'')), se_faults = (\<lambda>i. None)\<rparr> [] new_writer
     sample_store sample_object sample_stream_flow = Some (w', f', [q]) \<and> rw_sent w' = Some (502, h)"
proof -
  let ?env = "\<lparr>se_transport = (\<lambda>r. Inl (ErrMsg ''connection refused'')), se_faults = (\<lambda>i. None)\<rparr>"
  have "\<exists>w' f' q. handleStreaming (\<lambda>p. Inr []) sample_externals ?env [] new_writer
     sample_store sample_object sample_stream_flow = Some (w', f', [q])"
    by (rule sample_stream_sends) simp
  then obtain w' f' q where h: "handleStreaming (\<lambda>p. Inr []) sample_externals ?env [] new_writer
     sample_store sample_object sample_stream_flow = Some (w', f', [q])" by blast
  have "se_transport ?env q = Inl (ErrMsg ''connection refused'')" by simp
  from stream_failure_is_502 [OF h this] h show ?thesis by (auto simp: new_writer_def)
qed

text \<open>
  A streaming flow does not take part in circuit breaking: whatever breaker its upstream has,
  open ones included, the flow sends the same request, gives the client the same answer and
  leaves the breaker as it was.
\<close>

theorem streaming_bypasses_breaker:
  "handleStreaming enc ext env ps w st req (f\<lparr>fl_upstreams := [u\<lparr>hu_breaker := b\<rparr>]\<rparr>) =
     map_option (\<lambda>(w', f', sent). (w', f'\<lparr>fl_upstreams := map (\<lambda>v. v\<lparr>hu_breaker := b\<rparr>) (fl_upstreams f')\<rparr>, sent))
       (handleStreaming enc ext env ps w st req (f\<lparr>fl_upstreams := [u]\<rparr>))"
  by (auto simp: handleStreaming_def proxy_breaker Let_def option.map_comp comp_def
      split: option.splits prod.splits bool.splits)

end
