(* ===== verification/Router.thy ===== *)
theory Router
  imports Streaming Rate_Limit
begin

text \<open>
  The request path of \<^verbatim>\<open>router.go\<close>: rate limiting, routing, the middlewares of a flow, its plugins,
  the dispatch to the upstreams and the answer to the client.  Outside the repository, and
  parameters here, are the JSON codec, the hash function, the source of request identifiers, the
  router \<^verbatim>\<open>chi\<close>, the middlewares and the network.  Every handler returns the writer, the flow with
  its changed upstreams and the requests that were sent upstream; \<open>None\<close> is a panic.
\<close>

section \<open>Environment\<close>

text \<open>\<open>he_order n\<close> is the order in which the \<open>n\<close> goroutines of a scatter finish.\<close>

record id_source =
  ids_NewV7 :: "go_error + string"
  ids_NewString :: string

record 'j handler_env =
  he_enc :: problem_encoder
  he_codec :: "'j json_codec"
  he_sha256 :: "bytes \<Rightarrow> bytes"
  he_ids :: id_source
  he_ext :: externals
  he_calls :: "nat \<Rightarrow> call_env"
  he_order :: "nat \<Rightarrow> nat list"
  he_stream :: stream_env

section \<open>Handling a matched request\<close>

definition getOrCreateRequestID :: "id_source \<Rightarrow> Request \<Rightarrow> string" where
  "getOrCreateRequestID ids r =
     (let i = hdr_Get (req_Header r) ''X-Request-ID'' in
      if i \<noteq> [] then i
      else case ids_NewV7 ids of Inl err \<Rightarrow> ids_NewString ids | Inr v \<Rightarrow> v)"

text \<open>After the dispatch the body of the request has been read to its end.\<close>

definition drain :: "req_obj \<Rightarrow> store \<Rightarrow> store" where
  "drain req st = st\<lparr>st_body := (st_body st)(ro_Body req := [])\<rparr>"

definition dispatch ::
  "'j handler_env \<Rightarrow> ResponseWriter \<Rightarrow> store \<Rightarrow> req_obj \<Rightarrow> flow \<Rightarrow>
     (http_resp option \<times> ResponseWriter \<times> store \<times> flow \<times> Request list) go" where
  "dispatch he w st req f =
     (let original = deref st req;
          refuse = map_option (\<lambda>w'. (None, w', st, f, []))
            (WriteError (he_enc he) w ClientErrPayloadTooLarge StatusRequestEntityTooLarge)
      in
      if length (fl_upstreams f) = 1 then
        (case scatter_call (he_ext he) (he_calls he 0) f original of
           None \<Rightarrow> None
         | Some (Inl nothing) \<Rightarrow> refuse
         | Some (Inr (resp, u, sent)) \<Rightarrow>
             Some (Some (buildProxyResponse (he_enc he) (ro_Context req) resp), w, drain req st,
                   f\<lparr>fl_upstreams := [u]\<rparr>, sent))
      else
        (case scatter (he_ext he) (he_calls he) (he_order he (length (fl_upstreams f))) f original of
           None \<Rightarrow> None
         | Some (Inl nothing) \<Rightarrow> refuse
         | Some (Inr slots) \<Rightarrow>
             map_option
               (\<lambda>resp. (Some resp, w, drain req st,
                        f\<lparr>fl_upstreams := map (\<lambda>s. fst (snd s)) slots\<rparr>, concat (map (\<lambda>s. snd (snd s)) slots)))
               (buildResponse (he_codec he) (he_enc he) (ro_Context req) (map fst slots) f)))"

text \<open>The final response with its body read and measured; a nil response is dereferenced.\<close>

definition settle :: "http_resp \<Rightarrow> http_resp" where
  "settle resp =
     (case rs_Body resp of
        None \<Rightarrow> resp
      | Some body \<Rightarrow>
          let b = fst (ReadAll body) in
          resp\<lparr>rs_ContentLength := int (length b), rs_Body := Some (body_of b)\<rparr>)"

definition finish :: "ResponseWriter \<Rightarrow> http_resp option \<Rightarrow> ResponseWriter go" where
  "finish w resp =
     (case resp of
        None \<Rightarrow> None
      | Some r \<Rightarrow>
          let r' = settle r in
          copyResponse (rw_edit (hdr_Set ''Content-Length'' (Itoa (rs_ContentLength r'))) w) r')"

type_synonym handler =
  "ResponseWriter \<Rightarrow> store \<Rightarrow> req_obj \<Rightarrow> flow \<Rightarrow> (ResponseWriter \<times> flow \<times> Request list) go"

definition request_context :: "'j handler_env \<Rightarrow> store \<Rightarrow> req_obj \<Rightarrow> flow \<Rightarrow> Context" where
  "request_context he st req f =
     (let requestID = getOrCreateRequestID (he_ids he) (deref st req);
          fingerprint = computeFingerprint (he_sha256 he) (deref st req) (fl_path f)
      in withRoute (withRequestID (withFingerprint (ro_Context req) fingerprint) requestID) (fl_path f))"

definition newFlowHandler :: "'j handler_env \<Rightarrow> plugin list \<Rightarrow> handler" where
  "newFlowHandler he ps w st req0 f =
     (let req = WithContext (request_context he st req0 f) req0 in
      if fl_streaming f
      then handleStreaming (he_enc he) (he_ext he) (he_stream he) ps w st req f
      else
        case executePlugins (he_enc he) PluginTypeRequest ps w st (newContext req) of
          None \<Rightarrow> None
        | Some (ok1, w1, st1, actx1) \<Rightarrow>
            if \<not> ok1 then Some (w1, f, [])
            else
              (case dispatch he w1 st1 req f of
                 None \<Rightarrow> None
               | Some (None, w2, st2, f2, sent) \<Rightarrow> Some (w2, f2, sent)
               | Some (Some httpResp, w2, st2, f2, sent) \<Rightarrow>
                   (case executePlugins (he_enc he) PluginTypeResponse ps w2 st2
                       (SetResponse (Some httpResp) actx1) of
                      None \<Rightarrow> None
                    | Some (ok3, w3, st3, actx3) \<Rightarrow>
                        if \<not> ok3 then Some (w3, f2, sent)
                        else map_option (\<lambda>w4. (w4, f2, sent)) (finish w3 (ac_resp actx3)))))"

section \<open>The router\<close>

text \<open>
  A middleware wraps a handler.  One that implements \<^verbatim>\<open>sdk.Closer\<close> has something to close; the
  inner option is the error of doing so.
\<close>

record middleware =
  mw_Name :: string
  mw_Handler :: "handler \<Rightarrow> handler"
  mw_Close :: "go_error option option"

record route =
  rt_flow :: flow
  rt_plugins :: "plugin list"
  rt_middlewares :: "middleware list"

record Router =
  rr_flows :: "route list"
  rr_trustedProxies :: "IPNet list"
  rr_rateLimiter :: "RateLimit option"

text \<open>
  \<^verbatim>\<open>chi\<close>: which of the registered methods and patterns a request belongs to, with the values of
  the pattern's parameters, and its own answer to a known path with another method.
\<close>

datatype route_match = Routed nat "(string \<times> string) list" | NoRoute | WrongMethod

record chi_mux =
  chi_match :: "(string \<times> string) list \<Rightarrow> Request \<Rightarrow> route_match"
  chi_MethodNotAllowed :: "ResponseWriter \<Rightarrow> ResponseWriter go"

record rate_env =
  re_float :: float_platform
  re_now :: time

definition allowRequest ::
  "problem_encoder \<Rightarrow> rate_env \<Rightarrow> ResponseWriter \<Rightarrow> string \<Rightarrow> Router \<Rightarrow> (bool \<times> ResponseWriter \<times> Router) go" where
  "allowRequest enc re w clientIP r =
     (case rr_rateLimiter r of
        None \<Rightarrow> Some (True, w, r)
      | Some rl \<Rightarrow>
          let (ok, rl') = ratelimit_Allow (re_float re) (re_now re) clientIP rl;
              r' = r\<lparr>rr_rateLimiter := Some rl'\<rparr>
          in
          if ok then Some (True, w, r')
          else map_option (\<lambda>w'. (False, w', r'))
                 (WriteError enc w ClientErrRateLimitExceeded StatusTooManyRequests))"

definition registered :: "Router \<Rightarrow> (string \<times> string) list" where
  "registered r = map (\<lambda>t. (fl_method (rt_flow t), fl_path (rt_flow t))) (rr_flows r)"

text \<open>The middlewares of a flow around its handler, the first one outermost.\<close>

definition route_handler :: "'j handler_env \<Rightarrow> route \<Rightarrow> handler" where
  "route_handler he t = foldr mw_Handler (rt_middlewares t) (newFlowHandler he (rt_plugins t))"

definition serve_mux ::
  "chi_mux \<Rightarrow> 'j handler_env \<Rightarrow> ResponseWriter \<Rightarrow> store \<Rightarrow> req_obj \<Rightarrow> Router \<Rightarrow>
     (ResponseWriter \<times> Router \<times> Request list) go" where
  "serve_mux chi he w st req r =
     (case chi_match chi (registered r) (deref st req) of
        NoRoute \<Rightarrow> map_option (\<lambda>w'. (w', r, [])) (http_NotFound w)
      | WrongMethod \<Rightarrow> map_option (\<lambda>w'. (w', r, [])) (chi_MethodNotAllowed chi w)
      | Routed i params \<Rightarrow>
          if i < length (rr_flows r) then
            let t = rr_flows r ! i;
                ctx = (ro_Context req)\<lparr>ctx_params := Some params\<rparr>
            in map_option (\<lambda>(w', f', sent). (w', r\<lparr>rr_flows := (rr_flows r)[i := t\<lparr>rt_flow := f'\<rparr>]\<rparr>, sent))
                 (route_handler he t w st (WithContext ctx req) (rt_flow t))
          else None)"

definition ServeHTTP ::
  "chi_mux \<Rightarrow> 'j handler_env \<Rightarrow> rate_env \<Rightarrow> ResponseWriter \<Rightarrow> store \<Rightarrow> req_obj \<Rightarrow> Router \<Rightarrow>
     (ResponseWriter \<times> Router \<times> Request list) go" where
  "ServeHTTP chi he re w st req0 r =
     (let clientIP = extractClientIP (deref st req0) (rr_trustedProxies r);
          req = WithContext (withClientIP (ro_Context req0) clientIP) req0
      in
      case allowRequest (he_enc he) re w clientIP r of
        None \<Rightarrow> None
      | Some (allowed, w1, r1) \<Rightarrow>
          if \<not> allowed then Some (w1, r1, []) else serve_mux chi he w1 st req r1)"

text \<open>\<^verbatim>\<open>Close\<close>: the errors it logs, and its result.\<close>

definition Router_Close :: "Router \<Rightarrow> go_error list \<times> go_error option" where
  "Router_Close r =
     (concat (map (\<lambda>t. List.map_filter (\<lambda>m. case mw_Close m of None \<Rightarrow> None | Some err \<Rightarrow> err)
        (rt_middlewares t)) (rr_flows r)), None)"

section \<open>Lemmas: statuses\<close>

text \<open>
  A response that the router may pass on with its own status has a final one, if the network
  only delivers final ones.
\<close>

definition presentable :: "upstreamResponse \<Rightarrow> bool" where
  "presentable r \<longleftrightarrow>
     final_status (ur_status r) \<or> (\<exists>e. ur_err r = Some e \<and> \<not> isPropagatable (ue_kind e))"

definition final_network :: "(nat \<Rightarrow> attempt_env) \<Rightarrow> bool" where
  "final_network env \<longleftrightarrow> (\<forall>n req hr. at_transport (env n) req = Inr hr \<longrightarrow> final_status (hr_status hr))"

lemma presentable_failed [simp]: "\<not> isPropagatable k \<Longrightarrow> presentable (failed_with k e)"
  by (simp add: presentable_def failed_with_def)

lemma readBody_kind:
  "readBody n c b = Inl e \<Longrightarrow> \<not> isPropagatable (ue_kind e)"
  by (auto simp: readBody_def Let_def kind_simps split: option.splits prod.splits if_splits)

lemma classifyDoError_kind: "\<not> isPropagatable (classifyDoError err)"
  by (simp add: classifyDoError_def kind_simps)

lemma exchange_presentable:
  assumes "\<And>req hr. at_transport env req = Inr hr \<Longrightarrow> final_status (hr_status hr)"
  shows "presentable (fst (exchange ext cfg c original body host env))"
proof (cases "newRequest ext cfg c original body host")
  case (Inl err)
  then show ?thesis by (simp add: exchange_def kind_simps)
next
  case (Inr req0)
  let ?req = "req0\<lparr>req_Header := otel_Inject ext c (req_Header req0)\<rparr>"
  show ?thesis
  proof (cases "at_transport env ?req")
    case (Inl err)
    with Inr show ?thesis by (simp add: exchange_def classifyDoError_kind)
  next
    case res: (Inr hr)
    with Inr assms [OF res] show ?thesis
      by (auto simp: exchange_def presentable_def Let_def split: sum.splits)
  qed
qed

lemma retry_loop_presentable:
  assumes "retry_loop ext env rp m c original body 0 None [] u = Some (Some r, u', sent')"
    and "final_network env"
  shows "presentable r"
proof -
  have one: "presentable r" if call: "doCall ext c original body (env n) v = Some (r, v', reqs)" for n v r v' reqs
  proof -
    from doCall_frame(4) [OF call] obtain host
      where "r = fst (exchange ext (hu_cfg v) c original body host (env n))" by blast
    then show ?thesis using assms(2) exchange_presentable unfolding final_network_def by metis
  qed
  have "(\<lambda>(r, v, s). \<forall>x. r = Some x \<longrightarrow> presentable x) (Some r, u', sent')"
    by (rule retry_loop_rule [OF assms(1), where I = "\<lambda>n r s v. \<forall>x. r = Some x \<longrightarrow> presentable x"])
      (use one in \<open>auto simp: kind_simps\<close>)
  then show ?thesis by simp
qed

lemma applyPolicy_presentable: "presentable r \<Longrightarrow> presentable (applyPolicy pol r)"
  by (auto simp: presentable_def applyPolicy_def Let_def kind_simps split: option.splits)

lemma callUpstream_presentable:
  assumes "callUpstream ext env original body u = Some (r, u', l)" "final_network (ce_attempts env)"
  shows "presentable r"
proof -
  obtain r0 u1 where "callWithRetry ext (ce_attempts env) (req_Context original) original body u = Some (Some r0, u1, l)"
    and r: "r = applyPolicy (uc_policy (hu_cfg u)) r0"
    using assms(1) unfolding callUpstream_def by (rule upstream_call_cases)
  then have "presentable r0"
    unfolding callWithRetry_def using retry_loop_presentable assms(2) by blast
  with r show ?thesis by (simp add: applyPolicy_presentable)
qed

lemma buildProxyResponse_final:
  assumes "presentable r"
  shows "final_status (rs_StatusCode (buildProxyResponse enc c r))"
proof (cases "case ur_err r of None \<Rightarrow> True | Some e \<Rightarrow> isPropagatable (ue_kind e)")
  case True
  with assms have "final_status (ur_status r)" by (auto simp: presentable_def split: option.splits)
  with True show ?thesis by (simp add: buildProxyResponse_def make_response_def Let_def)
next
  case False
  then show ?thesis
    by (simp add: buildProxyResponse_def make_response_def Let_def statusFromErrors_def statusForError_final)
qed

lemma sharedFailureStatus_final:
  assumes "\<And>r. r \<in> set rs \<Longrightarrow> presentable r"
  shows "sharedFailureStatus rs = 0 \<or> final_status (sharedFailureStatus rs)"
proof -
  have "shared_status_loop st rs = 0 \<or> final_status (shared_status_loop st rs)"
    if "st = 0 \<or> final_status st" for st
    using assms that
  proof (induction rs arbitrary: st)
    case (Cons r rs)
    then show ?case
    proof (cases "ur_err r")
      case (Some e)
      have "presentable r" using Cons.prems(1) by simp
      with Some have "ue_kind e = upstreamClientError \<Longrightarrow> final_status (ur_status r)"
        by (auto simp: presentable_def kind_simps)
      with Cons Some show ?thesis by (auto simp: final_status_def)
    qed simp
  qed simp
  then show ?thesis by (simp add: sharedFailureStatus_def)
qed

lemma apply_object_status: "apply_object agg i obj flds = Inl early \<Longrightarrow> ar_status early = 0"
  by (induction agg i obj flds rule: apply_object.induct)
    (auto simp: applyConflictPolicy_def zero_aggregated_def split: sum.splits option.splits
      conflictPolicy.splits if_splits)

lemma collect_loop_status:
  "collect_loop codec agg rs i rest flds es ok = Inl early \<Longrightarrow>
     ar_status early = 0 \<or> ar_status early = sharedFailureStatus rs"
proof (induction codec agg rs i rest flds es ok rule: collect_loop.induct)
  case (2 codec agg rs i r rest flds es ok)
  then show ?case
    by (auto simp: zero_aggregated_def respUpstreamMalformedError_def split: if_splits sum.splits
        dest!: apply_object_status)
qed simp

lemma array_loop_status:
  "array_loop agg rs rest arr es ok = Inl early \<Longrightarrow> ar_status early = sharedFailureStatus rs"
  by (induction agg rs rest arr es ok rule: array_loop.induct) (auto simp: zero_aggregated_def split: if_splits)

lemma namespace_loop_status:
  "length names = length rest \<Longrightarrow>
     \<exists>out. namespace_loop agg rs names rest m es ok = Some out \<and>
       (\<forall>early. out = Inl early \<longrightarrow> ar_status early = sharedFailureStatus rs)"
  by (induction agg rs names rest m es ok rule: namespace_loop.induct) (auto simp: zero_aggregated_def)

text \<open>An aggregation over as many responses as upstreams returns, with no status or a final one.\<close>

lemma aggregate_status:
  assumes "length names = length rs" "\<And>r. r \<in> set rs \<Longrightarrow> presentable r"
  shows "\<exists>agg. aggregate codec names rs a = Some agg \<and> (ar_status agg = 0 \<or> final_status (ar_status agg))"
proof -
  have shared: "sharedFailureStatus rs = 0 \<or> final_status (sharedFailureStatus rs)"
    using assms(2) by (rule sharedFailureStatus_final)
  show ?thesis
  proof (cases "strategy a")
    case strategyMerge
    have "ar_status (merged codec rs a) = 0 \<or> ar_status (merged codec rs a) = sharedFailureStatus rs"
      by (auto simp: merged_def collectFields_def respInternalError_def zero_aggregated_def
          split: sum.splits prod.splits dest: collect_loop_status)
    with shared strategyMerge show ?thesis by (auto simp: aggregate_def)
  next
    case strategyArray
    have "ar_status (arrayed codec rs a) = 0 \<or> ar_status (arrayed codec rs a) = sharedFailureStatus rs"
      by (auto simp: arrayed_def respUpstreamMalformedError_def zero_aggregated_def
          split: sum.splits prod.splits dest: array_loop_status)
    with shared strategyArray show ?thesis by (auto simp: aggregate_def)
  next
    case strategyNamespace
    from namespace_loop_status [OF assms(1), of a rs "[]" "[]" False]
    have "\<exists>agg. namespaced codec names rs a = Some agg \<and>
        (ar_status agg = 0 \<or> ar_status agg = sharedFailureStatus rs)"
      by (auto simp: namespaced_def respInternalError_def zero_aggregated_def split: sum.splits prod.splits)
    with shared strategyNamespace show ?thesis by (auto simp: aggregate_def)
  next
    case (strategyOther n)
    then show ?thesis by (simp add: aggregate_def zero_aggregated_def)
  qed
qed

lemma buildResponse_final:
  assumes "length rs = length (fl_upstreams f)" "\<And>r. r \<in> set rs \<Longrightarrow> presentable r"
  shows "\<exists>resp. buildResponse codec enc c rs f = Some resp \<and> final_status (rs_StatusCode resp)"
proof -
  obtain agg where "aggregate codec (map (\<lambda>u. uc_name (hu_cfg u)) (fl_upstreams f)) rs (fl_aggregation f) = Some agg"
    and "ar_status agg = 0 \<or> final_status (ar_status agg)"
    using aggregate_status [of "map (\<lambda>u. uc_name (hu_cfg u)) (fl_upstreams f)" rs codec "fl_aggregation f"] assms
    by auto
  moreover from this(2) have "final_status (resolveStatus agg)"
    by (auto simp: resolveStatus_def statusFromErrors_def statusForError_final) (simp_all add: final_status_def)
  ultimately show ?thesis
    by (auto simp: buildResponse_def make_response_def Let_def split: prod.splits)
qed

section \<open>Lemmas: the handler\<close>

text \<open>The environment of a request whose network delivers final statuses only.\<close>

definition sound_network :: "'j handler_env \<Rightarrow> bool" where
  "sound_network he \<longleftrightarrow>
     (\<forall>i. final_network (ce_attempts (he_calls he i))) \<and>
     (\<forall>r resp. se_transport (he_stream he) r = Inr resp \<longrightarrow> final_status (hr_status resp)) \<and>
     (\<forall>n. distinct (he_order he n) \<and> set (he_order he n) = {..<n})"

lemma dispatch_answers:
  assumes "sound_network he" "\<And>u. u \<in> set (fl_upstreams f) \<Longrightarrow> callable u" "rw_sent w = None"
  shows "\<exists>ro w' st' f' sent. dispatch he w st req f = Some (ro, w', st', f', sent) \<and>
    (case ro of
       None \<Rightarrow> (\<exists>h. rw_sent w' = Some (413, h))
     | Some resp \<Rightarrow> w' = w \<and> final_status (rs_StatusCode resp))"
proof (cases "scatter_readBody (req_Body (deref st req))")
  case None
  obtain w' h where "WriteError (he_enc he) w ClientErrPayloadTooLarge 413 = Some w'" "rw_sent w' = Some (413, h)"
    using WriteError_status [OF assms(3), of 413 "he_enc he" ClientErrPayloadTooLarge]
    by (auto simp: final_status_def)
  with None show ?thesis by (auto simp: dispatch_def scatter_call_def scatter_def Let_def)
next
  case (Some body)
  let ?call = "\<lambda>i. callUpstream (he_ext he) (he_calls he i) (deref st req) body (fl_upstreams f ! i)"
  have ok: "\<exists>r u' l. ?call i = Some (r, u', l) \<and> presentable r" if "i < length (fl_upstreams f)" for i
  proof -
    have "callable (fl_upstreams f ! i)" using assms(2) that by simp
    from callUpstream_callable [OF this] obtain r u' l where "?call i = Some (r, u', l)" by blast
    moreover have "final_network (ce_attempts (he_calls he i))" using assms(1) by (simp add: sound_network_def)
    ultimately show ?thesis using callUpstream_presentable by blast
  qed
  show ?thesis
  proof (cases "length (fl_upstreams f) = 1")
    case True
    then obtain u where u: "fl_upstreams f = [u]" by (auto simp: length_Suc_conv)
    with ok [of 0] obtain r u' l where "callUpstream (he_ext he) (he_calls he 0) (deref st req) body u = Some (r, u', l)"
      "presentable r" by auto
    with u Some show ?thesis
      by (auto simp: dispatch_def scatter_call_def Let_def buildProxyResponse_final)
  next
    case False
    define slots where "slots = map (\<lambda>i. the (?call i)) [0..<length (fl_upstreams f)]"
    have "scatter (he_ext he) (he_calls he) (he_order he (length (fl_upstreams f))) f (deref st req) = Some (Inr slots)"
      using scatter_steps_pointwise [of "he_order he (length (fl_upstreams f))" "fl_upstreams f"] assms(1,2) Some
      by (simp add: scatter_def slots_def sound_network_def)
    moreover have "presentable r" if "r \<in> set (map fst slots)" for r
      using that ok by (auto simp: slots_def) fastforce
    then have "\<exists>resp. buildResponse (he_codec he) (he_enc he) (ro_Context req) (map fst slots) f = Some resp \<and>
        final_status (rs_StatusCode resp)"
      by (intro buildResponse_final) (auto simp: slots_def)
    then obtain resp where "buildResponse (he_codec he) (he_enc he) (ro_Context req) (map fst slots) f = Some resp"
      "final_status (rs_StatusCode resp)" by blast
    ultimately show ?thesis using False by (auto simp: dispatch_def Let_def)
  qed
qed

lemma finish_answers:
  assumes "final_status (rs_StatusCode r)" "rw_sent w = None"
  shows "\<exists>w' h. finish w (Some r) = Some w' \<and> rw_sent w' = Some (rs_StatusCode r, h)"
proof -
  have "rs_StatusCode (settle r) = rs_StatusCode r" by (auto simp: settle_def Let_def split: option.splits)
  then show ?thesis using assms
    by (auto simp: finish_def Let_def copyResponse_def rw_WriteHeader_fresh rw_Write_keeps_sent
        split: option.splits list.splits)
qed

text \<open>A response whose status is not a three-digit code panics when it is written.\<close>

lemma finish_bad_status:
  "rs_StatusCode r < 100 \<Longrightarrow> rw_sent w = None \<Longrightarrow> finish w (Some r) = None"
proof -
  assume "rs_StatusCode r < 100" "rw_sent w = None"
  moreover have "rs_StatusCode (settle r) = rs_StatusCode r" by (auto simp: settle_def Let_def split: option.splits)
  ultimately show ?thesis by (simp add: finish_def Let_def copyResponse_def rw_WriteHeader_def)
qed

definition live_flow :: "flow \<Rightarrow> bool" where
  "live_flow f \<longleftrightarrow> (\<forall>u \<in> set (fl_upstreams f). callable u)"

text \<open>Handling a request leaves the route of a flow alone, and its upstreams callable.\<close>

definition flow_kept :: "flow \<Rightarrow> flow \<Rightarrow> bool" where
  "flow_kept f f' \<longleftrightarrow> fl_path f' = fl_path f \<and> fl_method f' = fl_method f \<and> live_flow f'"

lemma flow_kept_same [simp]: "flow_kept f f \<longleftrightarrow> live_flow f"
  by (simp add: flow_kept_def)

lemma proxy_keeps:
  assumes "proxy ext env ctx w original u = Some (err, w', u', sent)" "callable u"
  shows "callable u'"
proof -
  obtain h st where h: "selectHost (hu_cfg u) (hu_state u) = Some (h, st)"
    "activeConnections st = activeConnections (hu_state u)"
    using selectHost_total [of "hu_cfg u" "hu_state u"] assms(2) by (auto simp: callable_def upstream_wf_def)
  then have "u' = u\<lparr>hu_state := st\<rparr>"
    using assms(1) by (auto simp: proxy_def Let_def split: sum.splits option.splits prod.splits if_splits)
  with h(2) assms(2) show ?thesis by (simp add: callable_def upstream_wf_def)
qed

lemma handleStreaming_keeps:
  assumes "handleStreaming enc ext env ps w st req f = Some (w', f', sent)" "live_flow f"
  shows "flow_kept f f'"
  using assms
  by (auto simp: handleStreaming_def flow_kept_def live_flow_def Let_def dest: proxy_keeps
      split: list.splits option.splits prod.splits bool.splits)

lemma dispatch_keeps:
  assumes "dispatch he w st req f = Some (ro, w', st', f', sent)" "live_flow f" "sound_network he"
  shows "flow_kept f f'"
proof (cases "scatter_readBody (req_Body (deref st req))")
  case None
  with assms(1,2) show ?thesis
    by (auto simp: dispatch_def scatter_call_def scatter_def Let_def split: if_splits)
next
  case (Some body)
  have call: "callable u'"
    if "callUpstream (he_ext he) (he_calls he i) (deref st req) body u = Some (r, u', l)" "u \<in> set (fl_upstreams f)"
    for i u r u' l
    using callUpstream_callable [of u "he_ext he" "he_calls he i" "deref st req" body] that assms(2)
    by (auto simp: live_flow_def)
  show ?thesis
  proof (cases "length (fl_upstreams f) = 1")
    case True
    then obtain u where "fl_upstreams f = [u]" by (auto simp: length_Suc_conv)
    with assms(1) Some call [of 0 u] show ?thesis
      by (auto simp: dispatch_def scatter_call_def Let_def flow_kept_def live_flow_def split: option.splits)
  next
    case False
    define slots where "slots = map (\<lambda>i. the (callUpstream (he_ext he) (he_calls he i) (deref st req) body
      (fl_upstreams f ! i))) [0..<length (fl_upstreams f)]"
    have "scatter (he_ext he) (he_calls he) (he_order he (length (fl_upstreams f))) f (deref st req) = Some (Inr slots)"
      using scatter_steps_pointwise [of "he_order he (length (fl_upstreams f))" "fl_upstreams f"] assms(2,3) Some
      by (simp add: scatter_def slots_def sound_network_def live_flow_def)
    moreover have "callable (fst (snd s))" if "s \<in> set slots" for s
    proof -
      from that obtain i where i: "i < length (fl_upstreams f)"
        "s = the (callUpstream (he_ext he) (he_calls he i) (deref st req) body (fl_upstreams f ! i))"
        by (auto simp: slots_def)
      then show ?thesis
        using callUpstream_callable [of "fl_upstreams f ! i" "he_ext he" "he_calls he i" "deref st req" body] assms(2)
        by (auto simp: live_flow_def)
    qed
    ultimately show ?thesis
      using assms(1) False by (auto simp: dispatch_def Let_def flow_kept_def live_flow_def)
  qed
qed

lemma newFlowHandler_keeps:
  assumes "newFlowHandler he ps w st req f = Some (w', f', sent)" "live_flow f" "sound_network he"
  shows "flow_kept f f'"
  using assms
  by (auto simp: newFlowHandler_def Let_def split: if_splits option.splits prod.splits
      dest: handleStreaming_keeps dispatch_keeps)

text \<open>A handler that answers every request to a flow whose upstreams can be called.\<close>

definition answering_handler :: "handler \<Rightarrow> bool" where
  "answering_handler h \<longleftrightarrow>
     (\<forall>w st req f. rw_sent w = None \<longrightarrow> live_flow f \<longrightarrow>
       (\<exists>w' f' sent. h w st req f = Some (w', f', sent) \<and> rw_sent w' \<noteq> None \<and> flow_kept f f'))"

lemma handleStreaming_answers:
  assumes "list_all tame ps" "rw_sent w = None" "live_flow f"
    and "\<And>r resp. se_transport env r = Inr resp \<Longrightarrow> final_status (hr_status resp)"
  shows "\<exists>w' f' sent. handleStreaming enc ext env ps w st req f = Some (w', f', sent) \<and> rw_sent w' \<noteq> None"
proof (cases "\<exists>u. fl_upstreams f = [u]")
  case True
  then obtain u where u: "fl_upstreams f = [u]" by blast
  then have wf: "upstream_wf u" using assms(3) by (simp add: live_flow_def callable_def)
  have "usable (newContext req)" by (simp add: usable_def newContext_def)
  from executePlugins_tame [OF assms(1) this assms(2)] obtain ok w1 st1 actx where
    ex: "executePlugins enc PluginTypeRequest ps w st (newContext req) = Some (ok, w1, st1, actx)"
    and res: "if ok then w1 = w \<and> usable actx \<and> (ac_resp (newContext req) \<noteq> None \<longrightarrow> ac_resp actx \<noteq> None)
      else \<exists>h. rw_sent w1 = Some (500, h)" by blast
  show ?thesis
  proof (cases ok)
    case False
    with ex res u show ?thesis by (auto simp: handleStreaming_def)
  next
    case True
    with res obtain r where r: "ac_req actx = Some r" "w1 = w" by (auto simp: usable_def)
    let ?tw = "\<lparr>tw_rw = w, tw_written = False, tw_statusCode = 0\<rparr>"
    obtain err tw u' sent where p: "proxy ext env (ro_Context r) ?tw (deref st1 r) u = Some (err, tw, u', sent)"
      and tw: "tw_written tw \<and> rw_sent (tw_rw tw) \<noteq> None \<or> tw = ?tw \<and> err \<noteq> None"
      using proxy_total [OF wf, of ?tw env ext "ro_Context r" "deref st1 r"] assms(2,4) by fastforce
    show ?thesis
      using u ex True r p tw WriteError_status [OF assms(2), of 502 enc ClientErrUpstreamUnavailable]
      by (auto simp: handleStreaming_def final_status_def)
  qed
next
  case False
  then have "handleStreaming enc ext env ps w st req f =
      map_option (\<lambda>w1. (w1, f, [])) (WriteError enc w ClientErrInternal 500)"
    by (auto simp: handleStreaming_def split: list.splits)
  then show ?thesis
    using WriteError_status [OF assms(2), of 500 enc ClientErrInternal] by (auto simp: final_status_def)
qed

lemma newFlowHandler_answers:
  assumes "sound_network he" "list_all tame ps"
  shows "answering_handler (newFlowHandler he ps)"
  unfolding answering_handler_def
proof (intro allI impI)
  fix w :: ResponseWriter and st req0 and f :: flow
  assume w: "rw_sent w = None" and live: "live_flow f"
  define req where "req = WithContext (request_context he st req0 f) req0"
  have "\<exists>w' f' sent. newFlowHandler he ps w st req0 f = Some (w', f', sent) \<and> rw_sent w' \<noteq> None"
  proof (cases "fl_streaming f")
    case True
    with handleStreaming_answers [OF assms(2) w live, of "he_stream he"] assms(1) show ?thesis
      by (simp add: newFlowHandler_def req_def sound_network_def)
  next
    case plain: False
    have "usable (newContext req)" by (simp add: usable_def newContext_def)
    from executePlugins_tame [OF assms(2) this w] obtain ok1 w1 st1 actx1 where
      ex1: "executePlugins (he_enc he) PluginTypeRequest ps w st (newContext req) = Some (ok1, w1, st1, actx1)"
      and res1: "if ok1 then w1 = w \<and> usable actx1 \<and> (ac_resp (newContext req) \<noteq> None \<longrightarrow> ac_resp actx1 \<noteq> None)
        else \<exists>h. rw_sent w1 = Some (500, h)" by blast
    show ?thesis
    proof (cases ok1)
      case False
      with ex1 res1 plain show ?thesis by (auto simp: newFlowHandler_def req_def)
    next
      case True
      with res1 have w1: "w1 = w" and us1: "usable actx1" by simp_all
      from live have "\<And>u. u \<in> set (fl_upstreams f) \<Longrightarrow> callable u" by (simp add: live_flow_def)
      from dispatch_answers [OF assms(1) this w] obtain ro w2 st2 f2 sent where
        d: "dispatch he w st1 req f = Some (ro, w2, st2, f2, sent)"
        and dr: "case ro of None \<Rightarrow> (\<exists>h. rw_sent w2 = Some (413, h))
           | Some resp \<Rightarrow> w2 = w \<and> final_status (rs_StatusCode resp)" by blast
      show ?thesis
      proof (cases ro)
        case None
        with ex1 True plain w1 d dr show ?thesis by (auto simp: newFlowHandler_def req_def)
      next
        case (Some resp)
        with dr have w2: "w2 = w" and fin: "final_status (rs_StatusCode resp)" by simp_all
        have "usable (SetResponse (Some resp) actx1)" using us1 fin by (simp add: usable_def SetResponse_def)
        from executePlugins_tame [OF assms(2) this w] obtain ok3 w3 st3 actx3 where
          ex3: "executePlugins (he_enc he) PluginTypeResponse ps w st2 (SetResponse (Some resp) actx1) = Some (ok3, w3, st3, actx3)"
          and res3: "if ok3 then w3 = w \<and> usable actx3 \<and>
              (ac_resp (SetResponse (Some resp) actx1) \<noteq> None \<longrightarrow> ac_resp actx3 \<noteq> None)
            else \<exists>h. rw_sent w3 = Some (500, h)" by blast
        have run: "newFlowHandler he ps w st req0 f =
            (if \<not> ok3 then Some (w3, f2, sent) else map_option (\<lambda>w4. (w4, f2, sent)) (finish w3 (ac_resp actx3)))"
          using ex1 True plain w1 d Some w2 ex3 by (simp add: newFlowHandler_def req_def [symmetric])
        show ?thesis
        proof (cases ok3)
          case False
          with run res3 show ?thesis by auto
        next
          case ok3: True
          with res3 obtain final where "ac_resp actx3 = Some final" "final_status (rs_StatusCode final)" "w3 = w"
            by (auto simp: usable_def SetResponse_def)
          with finish_answers [OF _ w, of final] run ok3 show ?thesis by auto
        qed
      qed
    qed
  qed
  then show "\<exists>w' f' sent. newFlowHandler he ps w st req0 f = Some (w', f', sent) \<and> rw_sent w' \<noteq> None \<and>
      flow_kept f f'"
    using newFlowHandler_keeps [OF _ live assms(1)] by blast
qed

section \<open>Properties\<close>

text \<open>
  The contract of the parts that the router does not own: \<^verbatim>\<open>chi\<close> sends a request to a registered
  flow or answers it, and a middleware around a handler that answers is a handler that answers.
\<close>

definition chi_sound :: "chi_mux \<Rightarrow> Router \<Rightarrow> bool" where
  "chi_sound chi r \<longleftrightarrow>
     (\<forall>q i ps. chi_match chi (registered r) q = Routed i ps \<longrightarrow> i < length (rr_flows r)) \<and>
     (\<forall>w. rw_sent w = None \<longrightarrow> (\<exists>w'. chi_MethodNotAllowed chi w = Some w' \<and> rw_sent w' \<noteq> None))"

definition transparent :: "middleware \<Rightarrow> bool" where
  "transparent m \<longleftrightarrow> (\<forall>h. answering_handler h \<longrightarrow> answering_handler (mw_Handler m h))"

definition live_route :: "route \<Rightarrow> bool" where
  "live_route t \<longleftrightarrow> live_flow (rt_flow t) \<and> list_all tame (rt_plugins t) \<and> list_all transparent (rt_middlewares t)"

lemma route_handler_answers:
  assumes "sound_network he" "live_route t"
  shows "answering_handler (route_handler he t)"
proof -
  have "answering_handler (foldr mw_Handler ms h)" if "answering_handler h" "list_all transparent ms" for ms h
    using that by (induction ms) (auto simp: transparent_def)
  with newFlowHandler_answers [OF assms(1)] assms(2) show ?thesis
    by (simp add: route_handler_def live_route_def)
qed

text \<open>Serving a request keeps the routes that are registered, and keeps them live.\<close>

definition router_kept :: "Router \<Rightarrow> Router \<Rightarrow> bool" where
  "router_kept r r' \<longleftrightarrow> registered r' = registered r \<and> list_all live_route (rr_flows r')"

lemma router_kept_update:
  assumes "list_all live_route (rr_flows r)" "i < length (rr_flows r)" "live_route (rr_flows r ! i)"
    and "flow_kept (rt_flow (rr_flows r ! i)) f'"
  shows "router_kept r (r\<lparr>rr_flows := (rr_flows r)[i := (rr_flows r ! i)\<lparr>rt_flow := f'\<rparr>]\<rparr>)"
proof -
  have "registered (r\<lparr>rr_flows := (rr_flows r)[i := (rr_flows r ! i)\<lparr>rt_flow := f'\<rparr>]\<rparr>) = registered r"
    using assms(2,4) by (auto simp: registered_def flow_kept_def map_update intro!: list_update_id nth_equalityI
        simp: nth_list_update)
  moreover have "live_route ((rr_flows r ! i)\<lparr>rt_flow := f'\<rparr>)"
    using assms(3,4) by (simp add: live_route_def flow_kept_def)
  ultimately show ?thesis
    using assms(1,2) by (auto simp: router_kept_def list_all_iff dest: in_set_conv_nth [THEN iffD1]
        set_update_subset_insert [THEN subsetD])
qed

lemma serve_mux_answers:
  assumes "sound_network he" "chi_sound chi r" "list_all live_route (rr_flows r)" "rw_sent w = None"
  shows "\<exists>w' r' sent. serve_mux chi he w st req r = Some (w', r', sent) \<and> rw_sent w' \<noteq> None \<and> router_kept r r'"
proof (cases "chi_match chi (registered r) (deref st req)")
  case (Routed i ps)
  with assms(2) have i: "i < length (rr_flows r)" by (auto simp: chi_sound_def)
  then have live: "live_route (rr_flows r ! i)" using assms(3) by (simp add: list_all_length)
  let ?req = "WithContext ((ro_Context req)\<lparr>ctx_params := Some ps\<rparr>) req"
  from route_handler_answers [OF assms(1) live] assms(4) live
  obtain w' f' sent where "route_handler he (rr_flows r ! i) w st ?req (rt_flow (rr_flows r ! i)) = Some (w', f', sent)"
    "rw_sent w' \<noteq> None" and kept: "flow_kept (rt_flow (rr_flows r ! i)) f'"
    unfolding answering_handler_def live_route_def by blast
  with router_kept_update [OF assms(3) i live kept] Routed i show ?thesis by (simp add: serve_mux_def Let_def)
next
  case NoRoute
  with assms(3,4) show ?thesis
    by (simp add: serve_mux_def http_NotFound_def http_Error_def rw_WriteHeader_fresh final_status_def
        rw_Write_keeps_sent router_kept_def)
next
  case WrongMethod
  with assms(2-4) show ?thesis by (auto simp: serve_mux_def chi_sound_def router_kept_def)
qed

lemma ServeHTTP_answers:
  assumes "rw_sent w = None" "sound_network he" "chi_sound chi r" "list_all live_route (rr_flows r)"
  shows "\<exists>w' r' sent. ServeHTTP chi he re w st req r = Some (w', r', sent) \<and> rw_sent w' \<noteq> None \<and> router_kept r r'"
proof -
  let ?ip = "extractClientIP (deref st req) (rr_trustedProxies r)"
  have mux: "\<exists>w' r2 sent. serve_mux chi he w st q (r\<lparr>rr_rateLimiter := l\<rparr>) = Some (w', r2, sent) \<and>
      rw_sent w' \<noteq> None \<and> router_kept r r2" for q l
    using serve_mux_answers [of he chi "r\<lparr>rr_rateLimiter := l\<rparr>" w st q] assms
    by (simp add: chi_sound_def registered_def router_kept_def)
  show ?thesis
  proof (cases "rr_rateLimiter r")
    case None
    with serve_mux_answers [OF assms(2-4,1)] show ?thesis by (simp add: ServeHTTP_def allowRequest_def)
  next
    case (Some rl)
    obtain ok rl' where a: "ratelimit_Allow (re_float re) (re_now re) ?ip rl = (ok, rl')" by force
    show ?thesis
    proof (cases ok)
      case True
      with Some a mux show ?thesis by (simp add: ServeHTTP_def allowRequest_def)
    next
      case False
      have "router_kept r (r\<lparr>rr_rateLimiter := Some rl'\<rparr>)"
        using assms(4) by (simp add: router_kept_def registered_def)
      with False show ?thesis
        using Some a WriteError_status [OF assms(1), of 429 "he_enc he" ClientErrRateLimitExceeded]
        by (auto simp: ServeHTTP_def allowRequest_def final_status_def)
    qed
  qed
qed

text \<open>A sequence of requests, each with its own environment and writer: the writers at the end.\<close>

type_synonym 'j arrival = "'j handler_env \<times> rate_env \<times> ResponseWriter \<times> store \<times> req_obj"

fun serve_all :: "chi_mux \<Rightarrow> 'j arrival list \<Rightarrow> Router \<Rightarrow> (ResponseWriter list \<times> Router) go" where
  "serve_all chi [] r = Some ([], r)"
| "serve_all chi ((he, re, w, st, req) # as) r =
     (case ServeHTTP chi he re w st req r of
        None \<Rightarrow> None
      | Some (w', r1, sent) \<Rightarrow> map_option (\<lambda>(ws, r2). (w' # ws, r2)) (serve_all chi as r1))"

definition arrival_ok :: "'j arrival \<Rightarrow> bool" where
  "arrival_ok a \<longleftrightarrow> (case a of (he, re, w, st, req) \<Rightarrow> rw_sent w = None \<and> sound_network he)"

text \<open>\<^verbatim>\<open>chi\<close> is sound for a router when it is sound for the routes registered in it.\<close>

lemma chi_sound_registered:
  assumes "registered r' = registered r"
  shows "chi_sound chi r' = chi_sound chi r"
proof -
  have len: "length (rr_flows s) = length (registered s)" for s by (simp add: registered_def)
  show ?thesis unfolding chi_sound_def len assms by (rule refl)
qed

lemma serve_all_answers:
  assumes "list_all arrival_ok as" "chi_sound chi r" "list_all live_route (rr_flows r)"
  shows "\<exists>ws r'. serve_all chi as r = Some (ws, r') \<and> list_all (\<lambda>w. rw_sent w \<noteq> None) ws \<and>
    length ws = length as \<and> router_kept r r'"
  using assms
proof (induction as arbitrary: r)
  case (Cons a as)
  obtain he re w st req where a: "a = (he, re, w, st, req)" by (metis prod_cases5)
  from Cons.prems a obtain w' r1 sent where s: "ServeHTTP chi he re w st req r = Some (w', r1, sent)"
    "rw_sent w' \<noteq> None" "router_kept r r1"
    using ServeHTTP_answers [of w he chi r re st req] by (auto simp: arrival_ok_def)
  then have "chi_sound chi r1" "list_all live_route (rr_flows r1)"
    using Cons.prems(2) chi_sound_registered [of r1 r chi] by (simp_all add: router_kept_def)
  with Cons.IH [of r1] Cons.prems(1) s a show ?case by (auto simp: router_kept_def)
qed (simp add: router_kept_def)

text \<open>
  Every request is answered: a router whose upstreams can be called, whose plugins neither
  panic nor take the response away and whose middlewares pass answers on sends a status for
  every request of every sequence of requests, whatever the clients send, the limiter decides
  and the upstreams do, as long as the upstreams answer with final statuses.
\<close>

theorem serve_always_answers:
  assumes "list_all arrival_ok as" "chi_sound chi r" "list_all live_route (rr_flows r)"
  shows "\<exists>ws r'. serve_all chi as r = Some (ws, r') \<and> length ws = length as \<and>
    list_all (\<lambda>w. rw_sent w \<noteq> None) ws"
  using serve_all_answers [OF assms] by auto

definition sample_env :: "string handler_env" where
  "sample_env = \<lparr>he_enc = (\<lambda>p. Inr (pd_title p)), he_codec = sample_codec, he_sha256 = (\<lambda>b. b),
     he_ids = \<lparr>ids_NewV7 = Inr ''id'', ids_NewString = []\<rparr>, he_ext = sample_externals,
     he_calls = sample_envs, he_order = (\<lambda>n. [0..<n]), he_stream = sample_stream_env\<rparr>"

definition sample_router :: Router where
  "sample_router = \<lparr>rr_flows = [\<lparr>rt_flow = sample_flow, rt_plugins = [], rt_middlewares = []\<rparr>],
     rr_trustedProxies = [], rr_rateLimiter = Some sample_limiter\<rparr>"

definition sample_mux :: chi_mux where
  "sample_mux = \<lparr>chi_match = (\<lambda>rs q. if rs = [] then NoRoute else Routed 0 []),
     chi_MethodNotAllowed = rw_WriteHeader 405\<rparr>"

definition sample_rate_env :: rate_env where
  "sample_rate_env = \<lparr>re_float = \<lparr>fp_fused = False, fp_undef = 0\<rparr>, re_now = 0\<rparr>"

lemma sample_env_sound: "sound_network sample_env"
  by (auto simp: sound_network_def sample_env_def final_network_def sample_envs_def answering_def refused_def
      final_status_def sample_stream_env_def split: if_splits)

lemma sample_mux_sound: "chi_sound sample_mux sample_router"
  by (auto simp: chi_sound_def sample_mux_def sample_router_def registered_def rw_WriteHeader_def)

lemma sample_routes_live: "list_all live_route (rr_flows sample_router)"
  using callable_sample by (simp add: sample_router_def live_route_def live_flow_def sample_flow_def)

definition sample_arrival :: "string arrival" where
  "sample_arrival = (sample_env, sample_rate_env, new_writer, sample_store, sample_object)"

lemma sample_arrival_ok: "arrival_ok sample_arrival"
  using sample_env_sound by (simp add: arrival_ok_def sample_arrival_def new_writer_def)

theorem serve_always_answers_witness:
  "\<exists>ws r'. serve_all sample_mux [sample_arrival, sample_arrival] sample_router = Some (ws, r') \<and>
     length ws = length [sample_arrival, sample_arrival] \<and> list_all (\<lambda>w. rw_sent w \<noteq> None) ws"
  using serve_always_answers [OF _ sample_mux_sound sample_routes_live, of "[sample_arrival, sample_arrival]"]
    sample_arrival_ok by (simp del: serve_all.simps)

text \<open>
  A request that the rate limiter refuses goes no further: the client gets a 429 problem
  document, no upstream is contacted and no flow changes.
\<close>

theorem rate_limited_goes_nowhere:
  assumes "rw_sent w = None" "rr_rateLimiter r = Some rl"
    and "ratelimit_Allow (re_float re) (re_now re) (extractClientIP (deref st req) (rr_trustedProxies r)) rl = (False, rl')"
  shows "\<exists>w' h. ServeHTTP chi he re w st req r = Some (w', r\<lparr>rr_rateLimiter := Some rl'\<rparr>, []) \<and>
    rw_sent w' = Some (429, h) \<and> hdr_values h ''Content-Type'' = [''application/problem+json'']"
  using assms WriteError_status [OF assms(1), of 429 "he_enc he" ClientErrRateLimitExceeded]
  by (auto simp: ServeHTTP_def allowRequest_def final_status_def)

theorem rate_limited_goes_nowhere_witness:
  "\<exists>w' r' h. ServeHTTP sample_mux sample_env sample_rate_env new_writer sample_store sample_object
     (sample_router\<lparr>rr_rateLimiter := Some (sample_limiter\<lparr>rl_limit := 0\<rparr>)\<rparr>) = Some (w', r', []) \<and>
     rw_sent w' = Some (429, h)"
proof -
  let ?r = "sample_router\<lparr>rr_rateLimiter := Some (sample_limiter\<lparr>rl_limit := 0\<rparr>)\<rparr>"
  let ?ip = "extractClientIP (deref sample_store sample_object) (rr_trustedProxies ?r)"
  have "to_int (re_float sample_rate_env) (estimate (re_float sample_rate_env) 50 0
      \<lparr>currentCount = 0, previousCount = 0, windowStart = 0\<rparr>) = 0" by code_simp
  then have "\<exists>rl'. ratelimit_Allow (re_float sample_rate_env) (re_now sample_rate_env) ?ip
      (sample_limiter\<lparr>rl_limit := 0\<rparr>) = (False, rl')"
    by (simp add: ratelimit_Allow_def Let_def sample_limiter_def slide_def Truncate_def time_sub_def sample_rate_env_def)
  then obtain rl' where deny: "ratelimit_Allow (re_float sample_rate_env) (re_now sample_rate_env) ?ip
      (sample_limiter\<lparr>rl_limit := 0\<rparr>) = (False, rl')" by blast
  have lim: "rr_rateLimiter ?r = Some (sample_limiter\<lparr>rl_limit := 0\<rparr>)" by simp
  have "rw_sent new_writer = None" by (simp add: new_writer_def)
  from rate_limited_goes_nowhere [OF this lim deny, of sample_mux sample_env] show ?thesis by blast
qed

text \<open>
  A request plugin that fails stops the request: the client gets a 500 problem document and
  no upstream is contacted, in a streaming flow as in any other.
\<close>

theorem plugin_failure_stops_request:
  assumes "rw_sent w = None" "pl_Type p = PluginTypeRequest"
    and "pl_Execute p (st, newContext (WithContext (request_context he st req f) req)) = Some (Some err, st', actx')"
  shows "\<exists>w' h. newFlowHandler he (p # ps) w st req f = Some (w', f, []) \<and> rw_sent w' = Some (500, h) \<and>
    hdr_values h ''Content-Type'' = [''application/problem+json'']"
proof -
  obtain w' h where w': "WriteError (he_enc he) w ClientErrInternal 500 = Some w'" "rw_sent w' = Some (500, h)"
    "hdr_values h ''Content-Type'' = [''application/problem+json'']"
    using WriteError_status [OF assms(1), of 500 "he_enc he" ClientErrInternal] by (auto simp: final_status_def)
  let ?req = "WithContext (request_context he st req f) req"
  have "SetRequest (Some ?req) (newContext ?req) = newContext ?req"
    by (simp add: SetRequest_def newContext_def)
  then have "executePlugins (he_enc he) PluginTypeRequest (p # ps) w st (newContext ?req) = Some (False, w', st', actx')"
    using assms(2,3) w'(1) by (simp add: newContext_def)
  then have "newFlowHandler he (p # ps) w st req f = Some (w', f, [])"
    using w'(1)
    by (simp add: newFlowHandler_def handleStreaming_def Let_def del: executePlugins.simps split: list.splits)
  with w' show ?thesis by blast
qed

definition failing_plugin :: plugin where
  "failing_plugin = \<lparr>pl_Name = ''reject'', pl_Type = PluginTypeRequest,
     pl_Execute = (\<lambda>(st, actx). Some (Some (ErrMsg ''rejected''), st, actx))\<rparr>"

theorem plugin_failure_stops_request_witness:
  "\<exists>w' h. newFlowHandler sample_env [failing_plugin] new_writer sample_store sample_object sample_flow =
     Some (w', sample_flow, []) \<and> rw_sent w' = Some (500, h)"
proof -
  have "rw_sent new_writer = None" by (simp add: new_writer_def)
  from plugin_failure_stops_request [OF this, of failing_plugin sample_store sample_env sample_object sample_flow
      "ErrMsg ''rejected''" sample_store
      "newContext (WithContext (request_context sample_env sample_store sample_object sample_flow) sample_object)" "[]"]
  show ?thesis by (auto simp: failing_plugin_def)
qed

definition replacing_plugin :: "(req_obj \<Rightarrow> req_obj) \<Rightarrow> plugin" where
  "replacing_plugin g = \<lparr>pl_Name = ''replace'', pl_Type = PluginTypeRequest,
     pl_Execute = (\<lambda>(st, actx). Some (None, st, SetRequest (map_option g (ac_req actx)) actx))\<rparr>"

text \<open>
  A request that a plugin puts in place of the client's is ignored by every flow that does not
  stream: the flow is dispatched, and the client answered, as if the plugin had not been there.
\<close>

theorem replaced_request_is_lost:
  assumes "\<not> fl_streaming f"
  shows "newFlowHandler he [replacing_plugin g] w st req f = newFlowHandler he [] w st req f"
proof -
  have req: "executePlugins enc PluginTypeRequest [replacing_plugin g] w st (newContext q) =
      Some (True, w, st, newContext (g q))" for enc q
    by (simp add: replacing_plugin_def newContext_def SetRequest_def)
  have resp: "executePlugins enc PluginTypeResponse [replacing_plugin g] w st actx = Some (True, w, st, actx)"
    for enc w st actx
    by (simp add: replacing_plugin_def)
  show ?thesis
    using assms
    by (simp add: newFlowHandler_def Let_def req resp SetResponse_def newContext_def [of "g x" for x]
        newContext_def [of "WithContext c q" for c q] del: executePlugins.simps(2) split: option.split prod.split)
qed

theorem replaced_request_is_lost_witness:
  "newFlowHandler sample_env [replacing_plugin (\<lambda>q. q\<lparr>ro_Method := ''POST''\<rparr>)] new_writer sample_store sample_object sample_flow =
   newFlowHandler sample_env [] new_writer sample_store sample_object sample_flow"
  by (rule replaced_request_is_lost) (simp add: sample_flow_def)

end
