(* ===== verification/Loader.thy ===== *)
theory Loader
  imports Router Gateway_Config
begin

text \<open>
  Loading the plugins and middlewares of a flow (\<^verbatim>\<open>loader.go\<close>).  Opening a shared object and looking
  up its symbols is the work of package \<^verbatim>\<open>plugin\<close>; a factory gives an object, and the object's
  \<^verbatim>\<open>Init\<close> gives the plugin or middleware that serves requests, or fails.
\<close>

section \<open>Shared objects\<close>

record plugin_object =
  po_Name :: string
  po_Init :: "cfg_map \<Rightarrow> go_error + plugin"

record middleware_object =
  mo_Name :: string
  mo_Init :: "cfg_map \<Rightarrow> go_error + middleware"

text \<open>A symbol is a factory of one of the two signatures, which may return nil, or anything else.\<close>

datatype symbol =
    PluginFactory "plugin_object option"
  | MiddlewareFactory "middleware_object option"
  | OtherSymbol

record so_env =
  so_Open :: "string \<Rightarrow> go_error + (string \<Rightarrow> go_error + symbol)"

definition sourceBuiltin :: string where "sourceBuiltin = ''builtin''"
definition sourceFile :: string where "sourceFile = ''file''"
definition builtinPluginsPath :: string where "builtinPluginsPath = ''/usr/local/lib/aastro/plugins/''"
definition builtinMiddlewaresPath :: string where "builtinMiddlewaresPath = ''/usr/local/lib/aastro/middlewares/''"
definition extSo :: string where "extSo = ''.so''"

definition resolveSoPath :: "string \<Rightarrow> string \<Rightarrow> string \<Rightarrow> string \<Rightarrow> go_error + string" where
  "resolveSoPath source name filePath builtinPath =
     (if source = sourceBuiltin then Inr (builtinPath @ name @ extSo)
      else if source = sourceFile then
        (let base = (if HasSuffix filePath ''/'' then filePath else filePath @ ''/'')
         in Inr (base @ name @ extSo))
      else Inl (ErrMsg (''invalid plugin source '' @ quoted source)))"

text \<open>\<^verbatim>\<open>loadSymbol\<close> with the type assertion to its type parameter as a function.\<close>

definition loadSymbol :: "so_env \<Rightarrow> (symbol \<Rightarrow> 'f option) \<Rightarrow> string \<Rightarrow> string \<Rightarrow> go_error + 'f" where
  "loadSymbol so assertion path name =
     (case so_Open so path of
        Inl err \<Rightarrow> Inl (ErrWrap ''open plugin: '' err)
      | Inr lookup \<Rightarrow>
          (case lookup name of
             Inl err \<Rightarrow> Inl (ErrWrap ''lookup symbol: '' err)
           | Inr s \<Rightarrow>
               (case assertion s of
                  None \<Rightarrow> Inl (ErrMsg ''symbol has wrong signature'')
                | Some factory \<Rightarrow> Inr factory)))"

definition as_plugin_factory :: "symbol \<Rightarrow> plugin_object option option" where
  "as_plugin_factory s = (case s of PluginFactory f \<Rightarrow> Some f | _ \<Rightarrow> None)"

definition as_middleware_factory :: "symbol \<Rightarrow> middleware_object option option" where
  "as_middleware_factory s = (case s of MiddlewareFactory f \<Rightarrow> Some f | _ \<Rightarrow> None)"

definition loadPlugin :: "so_env \<Rightarrow> string \<Rightarrow> cfg_map \<Rightarrow> go_error + plugin" where
  "loadPlugin so path cfg =
     (case loadSymbol so as_plugin_factory path ''NewPlugin'' of
        Inl err \<Rightarrow> Inl (ErrWrap ''load plugin symbol: '' err)
      | Inr None \<Rightarrow> Inl (ErrMsg (''plugin factory for path '' @ quoted path @ '' returned nil''))
      | Inr (Some p) \<Rightarrow>
          (case po_Init p cfg of
             Inl err \<Rightarrow> Inl (ErrWrap (''init plugin '' @ po_Name p @ '': '') err)
           | Inr ready \<Rightarrow> Inr ready))"

definition loadMiddleware :: "so_env \<Rightarrow> string \<Rightarrow> cfg_map \<Rightarrow> go_error + middleware" where
  "loadMiddleware so path cfg =
     (case loadSymbol so as_middleware_factory path ''NewMiddleware'' of
        Inl err \<Rightarrow> Inl (ErrWrap ''load middleware symbol: '' err)
      | Inr None \<Rightarrow> Inl (ErrMsg (''middleware factory for path '' @ quoted path @ '' returned nil''))
      | Inr (Some mw) \<Rightarrow>
          (case mo_Init mw cfg of
             Inl err \<Rightarrow> Inl (ErrWrap (''init middleware '' @ mo_Name mw @ '': '') err)
           | Inr ready \<Rightarrow> Inr ready))"

section \<open>The plugins and middlewares of a flow\<close>

definition load_error :: "string \<Rightarrow> PluginConfig \<Rightarrow> go_error \<Rightarrow> go_error" where
  "load_error what cfg err =
     (if plc_Source cfg = sourceBuiltin
      then ErrWrap (''cannot load builtin '' @ what @ '' '' @ quoted (plc_Name cfg) @ '': '') err
      else ErrWrap (''cannot load '' @ what @ '' '' @ quoted (plc_Name cfg) @ '' from path '' @
             quoted (plc_Path cfg) @ '': '') err)"

definition plugin_entry :: "so_env \<Rightarrow> PluginConfig \<Rightarrow> go_error + plugin" where
  "plugin_entry so cfg =
     (case resolveSoPath (plc_Source cfg) (plc_Name cfg) (plc_Path cfg) builtinPluginsPath of
        Inl err \<Rightarrow> Inl (ErrWrap ''resolve .so path: '' err)
      | Inr soPath \<Rightarrow>
          (case loadPlugin so soPath (plc_Config cfg) of
             Inl err \<Rightarrow> Inl (load_error ''plugin'' cfg err)
           | Inr p \<Rightarrow> Inr p))"

fun plugin_loop :: "so_env \<Rightarrow> PluginConfig list \<Rightarrow> plugin list \<Rightarrow> go_error + plugin list" where
  "plugin_loop so [] plugins = Inr plugins"
| "plugin_loop so (cfg # cfgs) plugins =
     (if list_ex (\<lambda>p. pl_Name p = plc_Name cfg) plugins then plugin_loop so cfgs plugins
      else case plugin_entry so cfg of
        Inl err \<Rightarrow> Inl err
      | Inr p \<Rightarrow> plugin_loop so cfgs (plugins @ [p]))"

definition initPlugins :: "so_env \<Rightarrow> PluginConfig list \<Rightarrow> go_error + plugin list" where
  "initPlugins so cfgs = plugin_loop so cfgs []"

definition middleware_entry :: "so_env \<Rightarrow> PluginConfig \<Rightarrow> go_error + middleware" where
  "middleware_entry so cfg =
     (case resolveSoPath (plc_Source cfg) (plc_Name cfg) (plc_Path cfg) builtinMiddlewaresPath of
        Inl err \<Rightarrow> Inl (ErrWrap ''resolve .so path: '' err)
      | Inr soPath \<Rightarrow>
          (case loadMiddleware so soPath (plc_Config cfg) of
             Inl err \<Rightarrow> Inl (load_error ''middleware'' cfg err)
           | Inr m \<Rightarrow> Inr m))"

fun middleware_loop :: "so_env \<Rightarrow> PluginConfig list \<Rightarrow> middleware list \<Rightarrow> go_error + middleware list" where
  "middleware_loop so [] middlewares = Inr middlewares"
| "middleware_loop so (cfg # cfgs) middlewares =
     (if list_ex (\<lambda>m. mw_Name m = plc_Name cfg) middlewares then middleware_loop so cfgs middlewares
      else case middleware_entry so cfg of
        Inl err \<Rightarrow> Inl err
      | Inr m \<Rightarrow> middleware_loop so cfgs (middlewares @ [m]))"

definition initMiddlewares :: "so_env \<Rightarrow> PluginConfig list \<Rightarrow> go_error + middleware list" where
  "initMiddlewares so cfgs = middleware_loop so cfgs []"

section \<open>The contract of both loops\<close>

text \<open>The entries whose name occurs for the first time, in their order.\<close>

fun first_entries :: "string list \<Rightarrow> PluginConfig list \<Rightarrow> PluginConfig list" where
  "first_entries known [] = []"
| "first_entries known (c # cs) =
     (if plc_Name c \<in> set known then first_entries known cs
      else c # first_entries (plc_Name c # known) cs)"

lemma first_entries_cong: "set s = set s' \<Longrightarrow> first_entries s cs = first_entries s' cs"
  proof (induction cs arbitrary: s s')
  case (Cons c cs)
  from Cons.prems have "set (plc_Name c # s) = set (plc_Name c # s')" by simp
  from Cons.IH [OF this] Cons.IH [OF Cons.prems] Cons.prems show ?case by simp
qed simp

text \<open>
  A loop over entries that skips those whose name a loaded module already reports, and loads the
  others.
\<close>

locale module_loop =
  fixes name :: "'a \<Rightarrow> string"
    and load :: "PluginConfig \<Rightarrow> go_error + 'a"
    and loop :: "PluginConfig list \<Rightarrow> 'a list \<Rightarrow> go_error + 'a list"
  assumes loop_Nil: "loop [] acc = Inr acc"
    and loop_Cons: "loop (c # cs) acc =
      (if list_ex (\<lambda>p. name p = plc_Name c) acc then loop cs acc
       else case load c of Inl err \<Rightarrow> Inl err | Inr p \<Rightarrow> loop cs (acc @ [p]))"
begin

text \<open>All modules of a successful loop were loaded from entries, or were there before.\<close>

lemma loop_loaded:
  "loop cs acc = Inr ms \<Longrightarrow> m \<in> set ms \<Longrightarrow> m \<in> set acc \<or> (\<exists>c \<in> set cs. load c = Inr m)"
proof (induction cs arbitrary: acc)
  case (Cons c cs)
  then show ?case by (fastforce simp: loop_Cons split: if_splits sum.splits)
qed (simp add: loop_Nil)

text \<open>The loop fails only with the error of an entry.\<close>

lemma loop_fails: "loop cs acc = Inl err \<Longrightarrow> \<exists>c \<in> set cs. load c = Inl err"
  by (induction cs arbitrary: acc) (auto simp: loop_Nil loop_Cons split: if_splits sum.splits)

text \<open>When modules report the names they are configured under, each name is loaded once.\<close>

lemma loop_first_entries:
  assumes "\<And>c m. c \<in> set cs \<Longrightarrow> load c = Inr m \<Longrightarrow> name m = plc_Name c"
  shows "loop cs acc = Inr ms \<longleftrightarrow>
    (\<exists>new. map load (first_entries (map name acc) cs) = map Inr new \<and> ms = acc @ new)"
  using assms
proof (induction cs arbitrary: acc)
  case (Cons c cs)
  note IH = Cons.IH [OF Cons.prems]
  show ?case
  proof (cases "plc_Name c \<in> set (map name acc)")
    case True
    then have "list_ex (\<lambda>p. name p = plc_Name c) acc" by (auto simp: list_ex_iff)
    with True IH [of acc] show ?thesis by (simp add: loop_Cons)
  next
    case False
    then have new: "\<not> list_ex (\<lambda>p. name p = plc_Name c) acc" by (force simp: list_ex_iff)
    show ?thesis
    proof (cases "load c")
      case (Inl err)
      with False new show ?thesis by (auto simp: loop_Cons Cons_eq_map_conv)
    next
      case (Inr m)
      have perm: "first_entries (map name (acc @ [m])) cs = first_entries (plc_Name c # map name acc) cs"
        using Cons.prems [of c m] Inr first_entries_cong by simp
      have "loop (c # cs) acc = Inr ms \<longleftrightarrow>
          (\<exists>new. map load (first_entries (plc_Name c # map name acc) cs) = map Inr new \<and> ms = (acc @ [m]) @ new)"
        using IH [of "acc @ [m]"] perm new Inr by (simp add: loop_Cons)
      with False Inr show ?thesis by (auto simp: Cons_eq_map_conv)
    qed
  qed
qed (auto simp: loop_Nil)

end

interpretation plugins: module_loop pl_Name "plugin_entry so" "plugin_loop so" for so
  by unfold_locales (simp_all split: sum.split)

interpretation middlewares: module_loop mw_Name "middleware_entry so" "middleware_loop so" for so
  by unfold_locales (simp_all split: sum.split)

section \<open>Properties\<close>

text \<open>
  When every plugin reports the name it is configured under, a flow gets exactly one plugin per
  configured name, in the order of the first entries of the names and initialised with the
  settings of those entries; every later entry with the same name is dropped without an error,
  whatever its settings.
\<close>

theorem plugins_loaded_once:
  assumes "\<forall>c \<in> set cfgs. \<forall>p. plugin_entry so c = Inr p \<longrightarrow> pl_Name p = plc_Name c"
  shows "initPlugins so cfgs = Inr ps \<longleftrightarrow> map (plugin_entry so) (first_entries [] cfgs) = map Inr ps"
  using plugins.loop_first_entries [of cfgs so "[]" ps] assms by (simp add: initPlugins_def)

definition named_plugin :: "string \<Rightarrow> plugin" where
  "named_plugin n = \<lparr>pl_Name = n, pl_Type = PluginTypeResponse,
     pl_Execute = (\<lambda>(st, actx). Some (None, st, actx))\<rparr>"

definition sample_so :: so_env where
  "sample_so = \<lparr>so_Open = (\<lambda>path. Inr (\<lambda>name.
     if name = ''NewPlugin'' then Inr (PluginFactory (Some
       \<lparr>po_Name = TrimSuffix (TrimPrefix path builtinPluginsPath) extSo,
        po_Init = (\<lambda>cfg. Inr (named_plugin (TrimSuffix (TrimPrefix path builtinPluginsPath) extSo)))\<rparr>))
     else Inl (ErrMsg ''no such symbol'')))\<rparr>"

definition sample_entry :: "string \<Rightarrow> cfg_map \<Rightarrow> PluginConfig" where
  "sample_entry n cfg = \<lparr>plc_Name = n, plc_Source = ''builtin'', plc_Path = [], plc_Config = cfg\<rparr>"

theorem plugins_loaded_once_witness:
  "initPlugins sample_so [sample_entry ''masker'' [], sample_entry ''camelify'' [],
     sample_entry ''masker'' [(''keys'', CfgString ''x'')]] = Inr [named_plugin ''masker'', named_plugin ''camelify'']"
proof -
  let ?cfgs = "[sample_entry ''masker'' [], sample_entry ''camelify'' [],
     sample_entry ''masker'' [(''keys'', CfgString ''x'')]]"
  have load: "plugin_entry sample_so (sample_entry n cfg) = Inr (named_plugin n)" for n cfg
    by (simp add: plugin_entry_def sample_entry_def resolveSoPath_def sourceBuiltin_def sourceFile_def
        loadPlugin_def loadSymbol_def sample_so_def as_plugin_factory_def TrimPrefix_def TrimSuffix_def
        extSo_def suffix_def)
  have "\<forall>c \<in> set ?cfgs. \<forall>p. plugin_entry sample_so c = Inr p \<longrightarrow> pl_Name p = plc_Name c"
    by (simp add: load) (simp add: named_plugin_def sample_entry_def)
  moreover have "first_entries [] ?cfgs = [sample_entry ''masker'' [], sample_entry ''camelify'' []]"
    by (simp add: sample_entry_def)
  ultimately show ?thesis
    using plugins_loaded_once [of ?cfgs sample_so "[named_plugin ''masker'', named_plugin ''camelify'']"]
    by (simp only: load list.map)
qed

end
