(* ===== verification/TLS_Reload.thy ===== *)
theory TLS_Reload
  imports Gateway_Config
begin

text \<open>
  \<^verbatim>\<open>internal/tlsutil\<close> and \<^verbatim>\<open>internal/server/tls.go\<close>: certificates and CA pools that are reloaded from
  their files while connections are served, and the registry of the directories to watch.  A
  \<^verbatim>\<open>tls.Config\<close> holds closures over a reloader; here they are functions of the reloader's state
  at the time of the handshake.  Files and certificates belong to the environment \<open>tls_env\<close>.
\<close>

section \<open>Paths\<close>

text \<open>\<^verbatim>\<open>filepath.Clean\<close> and \<^verbatim>\<open>filepath.Dir\<close> on slash-separated paths.\<close>

fun clean_step :: "bool \<Rightarrow> string list \<Rightarrow> string \<Rightarrow> string list" where
  "clean_step rooted acc c =
     (if c = [] \<or> c = ''.'' then acc
      else if c = ''..'' then
        (case acc of
           [] \<Rightarrow> if rooted then [] else [''..'']
         | x # xs \<Rightarrow> if x = ''..'' then ''..'' # acc else xs)
      else c # acc)"

definition filepath_Clean :: "string \<Rightarrow> string" where
  "filepath_Clean p =
     (let rooted = HasPrefix p ''/'';
          body = Join (rev (foldl (clean_step rooted) [] (Split p CHR ''/''))) ''/''
      in if rooted then CHR ''/'' # body else if body = [] then ''.'' else body)"

definition filepath_Dir :: "string \<Rightarrow> string" where
  "filepath_Dir p = filepath_Clean (rev (dropWhile (\<lambda>c. c \<noteq> CHR ''/'') (rev p)))"

section \<open>Settings\<close>

definition VersionTLS12 :: int where "VersionTLS12 = 771"
definition VersionTLS13 :: int where "VersionTLS13 = 772"

definition ParseVersion :: "string \<Rightarrow> go_error + int" where
  "ParseVersion s =
     (if s = [] \<or> s = ''1.2'' then Inr VersionTLS12
      else if s = ''1.3'' then Inr VersionTLS13
      else Inl (ErrMsg (''unsupported tls min_version: '' @ quoted s @ '' (allowed: 1.2, 1.3)'')))"

datatype ClientAuthType = NoClientCert | VerifyClientCertIfGiven | RequireAndVerifyClientCert

definition ParseClientAuth :: "string \<Rightarrow> go_error + ClientAuthType" where
  "ParseClientAuth s =
     (if s = [] \<or> s = ''none'' then Inr NoClientCert
      else if s = ''optional'' then Inr VerifyClientCertIfGiven
      else if s = ''require'' then Inr RequireAndVerifyClientCert
      else Inl (ErrMsg (''unknown client_auth: '' @ quoted s)))"

section \<open>Reloaders\<close>

text \<open>Key pairs, certificates and pools are opaque to the gateway; they are named by their bytes.\<close>

type_synonym keypair = bytes
type_synonym pool = "bytes list"

record verify_options =
  vo_Roots :: "pool option"
  vo_DNSName :: string
  vo_Intermediates :: pool

record tls_env =
  te_LoadX509KeyPair :: "string \<Rightarrow> string \<Rightarrow> go_error + keypair"
  te_ReadFile :: "string \<Rightarrow> go_error + bytes"
  te_ParsePEM :: "bytes \<Rightarrow> pool"
  te_Verify :: "bytes \<Rightarrow> verify_options \<Rightarrow> go_error option"

text \<open>\<^verbatim>\<open>AppendCertsFromPEM\<close> reports whether it found a certificate.\<close>

definition LoadCAPool :: "tls_env \<Rightarrow> string \<Rightarrow> go_error + pool" where
  "LoadCAPool env path =
     (case te_ReadFile env path of
        Inl err \<Rightarrow> Inl (ErrWrap ''read CA file: '' err)
      | Inr data \<Rightarrow>
          if te_ParsePEM env data = []
          then Inl (ErrMsg (''no valid certificates found in '' @ quoted path))
          else Inr (te_ParsePEM env data))"

record ReloaderConfig =
  rc_CertFile :: string
  rc_CAFile :: string
  rc_KeyFile :: string
  rc_ServerName :: string
  rc_MinVersion :: int
  rc_InsecureSkipVerify :: bool
  rc_ClientAuth :: ClientAuthType
  rc_DisableHTTP2 :: bool

record Reloader =
  rd_cfg :: ReloaderConfig
  rd_cert :: "keypair option"
  rd_caPool :: "pool option"

definition Reloader_Load :: "tls_env \<Rightarrow> Reloader \<Rightarrow> go_error option \<times> Reloader" where
  "Reloader_Load env r =
     (let cfg = rd_cfg r;
          newCert = (if rc_CertFile cfg \<noteq> []
            then map_sum (ErrWrap ''load client keypair: '') Some (te_LoadX509KeyPair env (rc_CertFile cfg) (rc_KeyFile cfg))
            else Inr None)
      in
      case newCert of
        Inl err \<Rightarrow> (Some err, r)
      | Inr c \<Rightarrow>
          (case (if rc_CAFile cfg \<noteq> []
                 then map_sum (ErrWrap ''load CA pool: '') Some (LoadCAPool env (rc_CAFile cfg))
                 else Inr None) of
             Inl err \<Rightarrow> (Some err, r)
           | Inr p \<Rightarrow>
               (None, r\<lparr>rd_cert := (if c \<noteq> None then c else rd_cert r),
                        rd_caPool := (if p \<noteq> None then p else rd_caPool r)\<rparr>)))"

definition NewReloader :: "tls_env \<Rightarrow> ReloaderConfig \<Rightarrow> go_error + Reloader" where
  "NewReloader env cfg =
     (case Reloader_Load env \<lparr>rd_cfg = cfg, rd_cert = None, rd_caPool = None\<rparr> of
        (Some err, r) \<Rightarrow> Inl err
      | (None, r) \<Rightarrow> Inr r)"

definition nextProtos :: "ReloaderConfig \<Rightarrow> string list" where
  "nextProtos cfg = (if rc_DisableHTTP2 cfg then [''http/1.1''] else [''h2'', ''http/1.1''])"

section \<open>TLS configurations\<close>

record ConnectionState =
  cs_ServerName :: string
  cs_PeerCertificates :: "bytes list"

record tls_Config =
  tc_MinVersion :: int
  tc_NextProtos :: "string list"
  tc_ServerName :: string
  tc_GetCertificate :: "(Reloader \<Rightarrow> keypair option) option"
  tc_ClientAuth :: ClientAuthType
  tc_ClientCAs :: "Reloader \<Rightarrow> pool option"
  tc_GetClientCertificate :: "(Reloader \<Rightarrow> keypair option) option"
  tc_InsecureSkipVerify :: bool
  tc_VerifyConnection :: "(Reloader \<Rightarrow> ConnectionState \<Rightarrow> go_error option) option"

definition ServerConfig_tls :: "Reloader \<Rightarrow> tls_Config" where
  "ServerConfig_tls r =
     (let cfg = \<lparr>tc_MinVersion = rc_MinVersion (rd_cfg r), tc_NextProtos = nextProtos (rd_cfg r),
                 tc_ServerName = [], tc_GetCertificate = Some rd_cert, tc_ClientAuth = NoClientCert,
                 tc_ClientCAs = (\<lambda>r. None), tc_GetClientCertificate = None,
                 tc_InsecureSkipVerify = False, tc_VerifyConnection = None\<rparr>
      in
      if rc_ClientAuth (rd_cfg r) = NoClientCert then cfg
      else cfg\<lparr>tc_ClientAuth := rc_ClientAuth (rd_cfg r), tc_ClientCAs := rd_caPool\<rparr>)"

definition verifyConnection :: "tls_env \<Rightarrow> Reloader \<Rightarrow> ConnectionState \<Rightarrow> go_error option" where
  "verifyConnection env r cs =
     (case cs_PeerCertificates cs of
        [] \<Rightarrow> Some (ErrMsg ''tls: no peer certificates'')
      | leaf # rest \<Rightarrow>
          te_Verify env leaf \<lparr>vo_Roots = rd_caPool r, vo_DNSName = cs_ServerName cs, vo_Intermediates = rest\<rparr>)"

definition ClientConfig :: "tls_env \<Rightarrow> Reloader \<Rightarrow> tls_Config" where
  "ClientConfig env r =
     (let c = rd_cfg r;
          cfg = \<lparr>tc_MinVersion = rc_MinVersion c, tc_NextProtos = nextProtos c,
                 tc_ServerName = rc_ServerName c, tc_GetCertificate = None, tc_ClientAuth = NoClientCert,
                 tc_ClientCAs = (\<lambda>r. None),
                 tc_GetClientCertificate = (if rc_CertFile c \<noteq> [] then Some rd_cert else None),
                 tc_InsecureSkipVerify = False, tc_VerifyConnection = None\<rparr>
      in
      if rc_InsecureSkipVerify c then cfg\<lparr>tc_InsecureSkipVerify := True\<rparr>
      else if rc_CAFile c \<noteq> []
      then cfg\<lparr>tc_InsecureSkipVerify := True, tc_VerifyConnection := Some (verifyConnection env)\<rparr>
      else cfg)"

section \<open>The registry\<close>

fun watch_dirs_loop :: "string list \<Rightarrow> string list \<Rightarrow> string list" where
  "watch_dirs_loop dirs [] = dirs"
| "watch_dirs_loop dirs (f # fs) =
     (if f = [] then watch_dirs_loop dirs fs
      else if filepath_Dir f \<in> set dirs then watch_dirs_loop dirs fs
      else watch_dirs_loop (dirs @ [filepath_Dir f]) fs)"

definition WatchDirs :: "ReloaderConfig \<Rightarrow> string list" where
  "WatchDirs c = watch_dirs_loop [] [rc_CertFile c, rc_KeyFile c, rc_CAFile c]"

text \<open>The reloaders live in a list; the map from directories refers to them by their position.\<close>

record Registry =
  rg_reloaders :: "Reloader list"
  rg_byDir :: "(string, nat list) gomap"

definition NewRegistry :: Registry where
  "NewRegistry = \<lparr>rg_reloaders = [], rg_byDir = []\<rparr>"

definition dir_reloaders :: "Registry \<Rightarrow> string \<Rightarrow> nat list" where
  "dir_reloaders reg d = (case map_of (rg_byDir reg) d of None \<Rightarrow> [] | Some is \<Rightarrow> is)"

definition Registry_Register :: "Reloader \<Rightarrow> Registry \<Rightarrow> Registry" where
  "Registry_Register r reg =
     fold (\<lambda>d g. g\<lparr>rg_byDir := AList.update d (dir_reloaders g d @ [length (rg_reloaders reg)]) (rg_byDir g)\<rparr>)
       (WatchDirs (rd_cfg r))
       (reg\<lparr>rg_reloaders := rg_reloaders reg @ [r]\<rparr>)"

definition Registry_Dirs :: "Registry \<Rightarrow> string list" where
  "Registry_Dirs reg = map fst (rg_byDir reg)"

fun reload_all :: "tls_env \<Rightarrow> nat list \<Rightarrow> Reloader list \<Rightarrow> go_error list \<times> Reloader list" where
  "reload_all env [] rs = ([], rs)"
| "reload_all env (i # is) rs =
     (let (err, r) = Reloader_Load env (rs ! i);
          (errs, rs') = reload_all env is (rs[i := r])
      in (case err of None \<Rightarrow> errs | Some e \<Rightarrow> e # errs, rs'))"

definition Registry_ReloadDir :: "tls_env \<Rightarrow> string \<Rightarrow> Registry \<Rightarrow> go_error list \<times> Registry" where
  "Registry_ReloadDir env dir reg =
     (let (errs, rs) = reload_all env (dir_reloaders reg dir) (rg_reloaders reg)
      in (errs, reg\<lparr>rg_reloaders := rs\<rparr>))"

section \<open>The listener's configuration\<close>

definition buildTLSConfig ::
  "tls_env \<Rightarrow> ServerTLSConfig \<Rightarrow> string \<Rightarrow> Registry \<Rightarrow> go_error + (tls_Config option \<times> Registry)" where
  "buildTLSConfig env cfg http2 reg =
     (if \<not> stls_Enabled cfg then Inr (None, reg)
      else
        case ParseVersion (stls_MinVersion cfg) of
          Inl err \<Rightarrow> Inl err
        | Inr minVer \<Rightarrow>
            (case ParseClientAuth (stls_ClientAuth cfg) of
               Inl err \<Rightarrow> Inl err
             | Inr clientAuth \<Rightarrow>
                 if clientAuth \<noteq> NoClientCert \<and> stls_ClientCAFile cfg = []
                 then Inl (ErrMsg ''client_ca_file required when client_auth verifies certs'')
                 else
                   (case NewReloader env \<lparr>rc_CertFile = stls_CertFile cfg, rc_CAFile = stls_ClientCAFile cfg,
                           rc_KeyFile = stls_KeyFile cfg, rc_ServerName = [], rc_MinVersion = minVer,
                           rc_InsecureSkipVerify = False, rc_ClientAuth = clientAuth,
                           rc_DisableHTTP2 = (http2 = ''off'')\<rparr> of
                      Inl err \<Rightarrow> Inl err
                    | Inr r \<Rightarrow> Inr (Some (ServerConfig_tls r), Registry_Register r reg))))"

section \<open>Lemmas\<close>

lemma Reloader_Load_cfg [simp]: "rd_cfg (snd (Reloader_Load env r)) = rd_cfg r"
  by (simp add: Reloader_Load_def Let_def split: sum.splits)

lemma Reloader_Load_failed: "fst (Reloader_Load env r) \<noteq> None \<Longrightarrow> snd (Reloader_Load env r) = r"
  by (auto simp: Reloader_Load_def Let_def split: sum.splits)

lemma Reloader_Load_cert:
  assumes "fst (Reloader_Load env r) = None" "rc_CertFile (rd_cfg r) \<noteq> []"
  shows "\<exists>c. te_LoadX509KeyPair env (rc_CertFile (rd_cfg r)) (rc_KeyFile (rd_cfg r)) = Inr c \<and>
    rd_cert (snd (Reloader_Load env r)) = Some c"
  using assms
  by (cases "te_LoadX509KeyPair env (rc_CertFile (rd_cfg r)) (rc_KeyFile (rd_cfg r))")
    (auto simp: Reloader_Load_def Let_def split: sum.splits)

lemma Reloader_Load_pool:
  assumes "fst (Reloader_Load env r) = None" "rc_CAFile (rd_cfg r) \<noteq> []"
  shows "\<exists>p. LoadCAPool env (rc_CAFile (rd_cfg r)) = Inr p \<and> rd_caPool (snd (Reloader_Load env r)) = Some p"
  using assms
  by (cases "LoadCAPool env (rc_CAFile (rd_cfg r))")
    (auto simp: Reloader_Load_def Let_def split: sum.splits if_splits)

lemma Reloader_Load_keeps:
  "rc_CertFile (rd_cfg r) = [] \<Longrightarrow> rd_cert (snd (Reloader_Load env r)) = rd_cert r"
  "rc_CAFile (rd_cfg r) = [] \<Longrightarrow> rd_caPool (snd (Reloader_Load env r)) = rd_caPool r"
  by (auto simp: Reloader_Load_def Let_def split: sum.splits)

lemma LoadCAPool_nonempty: "LoadCAPool env path = Inr p \<Longrightarrow> p \<noteq> []"
  by (auto simp: LoadCAPool_def split: sum.splits if_splits)

text \<open>A reloader that has a pool keeps having one, whatever becomes of the file.\<close>

definition has_pool :: "Reloader \<Rightarrow> bool" where
  "has_pool r \<longleftrightarrow> (\<exists>p. rd_caPool r = Some p \<and> p \<noteq> [])"

lemma has_pool_Load: "has_pool r \<Longrightarrow> has_pool (snd (Reloader_Load env r))"
proof (cases "fst (Reloader_Load env r) = None \<and> rc_CAFile (rd_cfg r) \<noteq> []")
  case True
  then show ?thesis using Reloader_Load_pool [of env r] LoadCAPool_nonempty by (auto simp: has_pool_def)
next
  case False
  assume "has_pool r"
  with False Reloader_Load_failed [of env r] Reloader_Load_keeps(2) [of r env] show ?thesis
    by (auto simp: has_pool_def)
qed

lemma has_pool_reloads: "has_pool r \<Longrightarrow> has_pool (fold (\<lambda>env r. snd (Reloader_Load env r)) envs r)"
  by (induction envs arbitrary: r) (simp_all add: has_pool_Load)

lemma NewReloader_pool:
  assumes "NewReloader env cfg = Inr r" "rc_CAFile cfg \<noteq> []"
  shows "has_pool r"
proof -
  let ?r0 = "\<lparr>rd_cfg = cfg, rd_cert = None, rd_caPool = None\<rparr>"
  have "fst (Reloader_Load env ?r0) = None" "snd (Reloader_Load env ?r0) = r"
    using assms(1) by (auto simp: NewReloader_def split: prod.splits option.splits)
  with Reloader_Load_pool [of env ?r0] assms(2) LoadCAPool_nonempty show ?thesis by (auto simp: has_pool_def)
qed

lemma NewReloader_cfg: "NewReloader env cfg = Inr r \<Longrightarrow> rd_cfg r = cfg"
  using Reloader_Load_cfg [of env "\<lparr>rd_cfg = cfg, rd_cert = None, rd_caPool = None\<rparr>"]
  by (auto simp: NewReloader_def simp del: Reloader_Load_cfg split: prod.splits option.splits)

subsection \<open>The registry\<close>

lemma watch_dirs_loop_props:
  "distinct dirs \<Longrightarrow>
     distinct (watch_dirs_loop dirs fs) \<and>
     set (watch_dirs_loop dirs fs) = set dirs \<union> filepath_Dir ` (set fs - {[]})"
  by (induction dirs fs rule: watch_dirs_loop.induct) auto

lemma WatchDirs_props:
  "distinct (WatchDirs c)"
  "set (WatchDirs c) = filepath_Dir ` ({rc_CertFile c, rc_KeyFile c, rc_CAFile c} - {[]})"
  using watch_dirs_loop_props [of "[]" "[rc_CertFile c, rc_KeyFile c, rc_CAFile c]"]
  by (simp_all add: WatchDirs_def)

lemma Register_fold:
  fixes reg :: Registry and n :: nat
  assumes "distinct ds"
  defines "add \<equiv> \<lambda>d (g :: Registry). g\<lparr>rg_byDir := AList.update d (dir_reloaders g d @ [n]) (rg_byDir g)\<rparr>"
  shows "rg_reloaders (fold add ds reg) = rg_reloaders reg \<and>
    dir_reloaders (fold add ds reg) d = dir_reloaders reg d @ (if d \<in> set ds then [n] else [])"
  using assms(1)
proof (induction ds arbitrary: reg)
  case (Cons d' ds)
  have "dir_reloaders (add d' reg) d = dir_reloaders reg d @ (if d = d' then [n] else [])"
    by (simp add: add_def dir_reloaders_def update_conv')
  moreover have "rg_reloaders (add d' reg) = rg_reloaders reg" by (simp add: add_def)
  ultimately show ?case using Cons by auto
qed simp

lemma Registry_Register_props:
  "rg_reloaders (Registry_Register r reg) = rg_reloaders reg @ [r]"
  "dir_reloaders (Registry_Register r reg) d =
     dir_reloaders reg d @ (if d \<in> set (WatchDirs (rd_cfg r)) then [length (rg_reloaders reg)] else [])"
  using Register_fold [OF WatchDirs_props(1), of "length (rg_reloaders reg)" "rd_cfg r"
      "reg\<lparr>rg_reloaders := rg_reloaders reg @ [r]\<rparr>" d]
  by (simp_all add: Registry_Register_def dir_reloaders_def)

lemma registry_contents:
  "rg_reloaders (fold Registry_Register rs NewRegistry) = rs \<and>
   dir_reloaders (fold Registry_Register rs NewRegistry) d =
     filter (\<lambda>i. d \<in> set (WatchDirs (rd_cfg (rs ! i)))) [0..<length rs]"
proof (induction rs rule: rev_induct)
  case Nil
  show ?case by (simp add: NewRegistry_def dir_reloaders_def)
next
  case (snoc r rs)
  have "filter (\<lambda>i. d \<in> set (WatchDirs (rd_cfg ((rs @ [r]) ! i)))) [0..<length rs] =
      filter (\<lambda>i. d \<in> set (WatchDirs (rd_cfg (rs ! i)))) [0..<length rs]"
    by (rule filter_cong) (auto simp: nth_append)
  with snoc show ?case by (simp add: Registry_Register_props)
qed

lemma map_filter_eqI: "(\<And>x. x \<in> set xs \<Longrightarrow> f x = g x) \<Longrightarrow> List.map_filter f xs = List.map_filter g xs"
  by (induction xs) (auto simp: map_filter_simps split: option.splits)

lemma map_filter_map_eq: "List.map_filter f (map g xs) = List.map_filter (\<lambda>x. f (g x)) xs"
  by (induction xs) (auto simp: map_filter_simps split: option.splits)

lemma reload_all_eq:
  assumes "distinct is" "set is \<subseteq> {..<length rs}"
  shows "reload_all env is rs =
    (List.map_filter (\<lambda>i. fst (Reloader_Load env (rs ! i))) is,
     map (\<lambda>i. if i \<in> set is then snd (Reloader_Load env (rs ! i)) else rs ! i) [0..<length rs])"
  using assms
proof (induction "is" arbitrary: rs)
  case Nil
  then show ?case by (simp add: map_filter_simps map_nth)
next
  case (Cons i "is")
  let ?rs = "rs[i := snd (Reloader_Load env (rs ! i))]"
  have "List.map_filter (\<lambda>j. fst (Reloader_Load env (?rs ! j))) is =
      List.map_filter (\<lambda>j. fst (Reloader_Load env (rs ! j))) is"
    using Cons.prems(1) by (intro map_filter_eqI) (metis distinct.simps(2) nth_list_update_neq)
  moreover have "map (\<lambda>j. if j \<in> set is then snd (Reloader_Load env (?rs ! j)) else ?rs ! j) [0..<length ?rs] =
      map (\<lambda>j. if j \<in> set (i # is) then snd (Reloader_Load env (rs ! j)) else rs ! j) [0..<length rs]"
    using Cons.prems by (intro map_cong) (auto simp: nth_list_update)
  moreover have "reload_all env is ?rs =
    (List.map_filter (\<lambda>j. fst (Reloader_Load env (?rs ! j))) is,
     map (\<lambda>j. if j \<in> set is then snd (Reloader_Load env (?rs ! j)) else ?rs ! j) [0..<length ?rs])"
    using Cons.prems by (intro Cons.IH) auto
  ultimately show ?case
    by (simp add: Let_def split_beta map_filter_simps split: option.splits)
qed

section \<open>Properties\<close>

text \<open>
  Reloading is all or nothing: when any file fails to load, the reloader keeps the key pair and
  the pool it had; otherwise every configured one is replaced by what its file holds now and the
  others stay.
\<close>

theorem reload_all_or_nothing:
  "case Reloader_Load env r of (err, r') \<Rightarrow>
     rd_cfg r' = rd_cfg r \<and>
     (err \<noteq> None \<longrightarrow> r' = r) \<and>
     (err = None \<longrightarrow>
       (if rc_CertFile (rd_cfg r) = [] then rd_cert r' = rd_cert r
        else \<exists>c. te_LoadX509KeyPair env (rc_CertFile (rd_cfg r)) (rc_KeyFile (rd_cfg r)) = Inr c \<and> rd_cert r' = Some c) \<and>
       (if rc_CAFile (rd_cfg r) = [] then rd_caPool r' = rd_caPool r
        else \<exists>p. LoadCAPool env (rc_CAFile (rd_cfg r)) = Inr p \<and> rd_caPool r' = Some p))"
  using Reloader_Load_cfg [of env r] Reloader_Load_failed [of env r] Reloader_Load_cert [of env r]
    Reloader_Load_pool [of env r] Reloader_Load_keeps [of r env]
  by (simp add: split_beta)

definition sample_reloader :: Reloader where
  "sample_reloader = \<lparr>rd_cfg = \<lparr>rc_CertFile = ''/c/tls.crt'', rc_CAFile = ''/ca/root.pem'', rc_KeyFile = ''/c/tls.key'',
     rc_ServerName = [], rc_MinVersion = VersionTLS12, rc_InsecureSkipVerify = False,
     rc_ClientAuth = NoClientCert, rc_DisableHTTP2 = False\<rparr>, rd_cert = Some ''old'', rd_caPool = Some [''old'']\<rparr>"

definition sample_tls_env :: tls_env where
  "sample_tls_env = \<lparr>te_LoadX509KeyPair = (\<lambda>c k. Inr ''new''), te_ReadFile = (\<lambda>f. Inl (ErrMsg ''gone'')),
     te_ParsePEM = (\<lambda>b. [b]), te_Verify = (\<lambda>c vo. None)\<rparr>"

theorem reload_all_or_nothing_witness:
  "snd (Reloader_Load sample_tls_env sample_reloader) = sample_reloader"
proof -
  have "fst (Reloader_Load sample_tls_env sample_reloader) \<noteq> None"
    by (simp add: Reloader_Load_def sample_reloader_def sample_tls_env_def LoadCAPool_def)
  then show ?thesis using reload_all_or_nothing [of sample_reloader sample_tls_env] by (auto simp: split_beta)
qed

text \<open>
  A change in a directory reaches exactly the reloaders with a file in it: after any
  registrations, reloading a directory loads each such reloader once, leaves the others alone
  and reports the errors of the failed ones in the order of registration.
\<close>

theorem reload_reaches_directory:
  "Registry_ReloadDir env d (fold Registry_Register rs NewRegistry) =
     (List.map_filter (\<lambda>r. if d \<in> set (WatchDirs (rd_cfg r)) then fst (Reloader_Load env r) else None) rs,
      (fold Registry_Register rs NewRegistry)
        \<lparr>rg_reloaders := map (\<lambda>r. if d \<in> set (WatchDirs (rd_cfg r)) then snd (Reloader_Load env r) else r) rs\<rparr>)"
proof -
  let ?is = "filter (\<lambda>i. d \<in> set (WatchDirs (rd_cfg (rs ! i)))) [0..<length rs]"
  have eq: "reload_all env ?is rs =
    (List.map_filter (\<lambda>i. fst (Reloader_Load env (rs ! i))) ?is,
     map (\<lambda>i. if i \<in> set ?is then snd (Reloader_Load env (rs ! i)) else rs ! i) [0..<length rs])"
    by (rule reload_all_eq) auto
  have pick: "List.map_filter g (filter P xs) = List.map_filter (\<lambda>x. if P x then g x else None) xs"
    for g :: "nat \<Rightarrow> go_error option" and P xs
    by (induction xs) (auto simp: map_filter_simps split: option.splits)
  have shift: "List.map_filter (\<lambda>i. f (rs ! i)) [0..<length rs] = List.map_filter f rs"
    for f :: "Reloader \<Rightarrow> go_error option"
    using map_filter_map_eq [of f "(!) rs" "[0..<length rs]"] by (simp add: map_nth)
  have "List.map_filter (\<lambda>i. fst (Reloader_Load env (rs ! i))) ?is =
      List.map_filter (\<lambda>r. if d \<in> set (WatchDirs (rd_cfg r)) then fst (Reloader_Load env r) else None) rs"
    unfolding pick by (rule shift)
  moreover have "map (\<lambda>i. if i \<in> set ?is then snd (Reloader_Load env (rs ! i)) else rs ! i) [0..<length rs] =
      map (\<lambda>r. if d \<in> set (WatchDirs (rd_cfg r)) then snd (Reloader_Load env r) else r) rs"
    by (rule nth_equalityI) auto
  ultimately show ?thesis
    using eq registry_contents [of rs d] by (simp add: Registry_ReloadDir_def)
qed

text \<open>
  C19. A listener that verifies client certificates never falls back to the system's roots: once its
  configuration was built it demands the configured verification and always has a pool of
  configured authorities, through any sequence of later reloads, failed ones included.
\<close>

theorem mtls_pool_never_missing:
  assumes "buildTLSConfig env cfg http2 reg = Inr (Some tc, reg')"
    and "ParseClientAuth (stls_ClientAuth cfg) = Inr a" "a \<noteq> NoClientCert"
  shows "\<exists>r. rg_reloaders reg' = rg_reloaders reg @ [r] \<and> tc_ClientAuth tc = a \<and>
    (\<forall>envs. \<exists>p. p \<noteq> [] \<and> tc_ClientCAs tc (fold (\<lambda>e r. snd (Reloader_Load e r)) envs r) = Some p)"
proof -
  obtain minVer where v: "ParseVersion (stls_MinVersion cfg) = Inr minVer"
    using assms(1) by (auto simp: buildTLSConfig_def split: if_splits sum.splits)
  let ?rc = "\<lparr>rc_CertFile = stls_CertFile cfg, rc_CAFile = stls_ClientCAFile cfg,
    rc_KeyFile = stls_KeyFile cfg, rc_ServerName = [], rc_MinVersion = minVer,
    rc_InsecureSkipVerify = False, rc_ClientAuth = a, rc_DisableHTTP2 = (http2 = ''off'')\<rparr>"
  obtain r where r: "NewReloader env ?rc = Inr r" and tc: "tc = ServerConfig_tls r" "reg' = Registry_Register r reg"
    and ca: "stls_ClientCAFile cfg \<noteq> []"
    using assms v by (auto simp: buildTLSConfig_def split: if_splits sum.splits)
  have "has_pool r" using NewReloader_pool [OF r] ca by simp
  moreover have "tc_ClientAuth tc = a" "tc_ClientCAs tc = rd_caPool"
    using tc(1) NewReloader_cfg [OF r] assms(3) by (simp_all add: ServerConfig_tls_def Let_def)
  ultimately show ?thesis
    using tc(2) has_pool_reloads [of r] by (auto simp: Registry_Register_props has_pool_def)
qed

theorem mtls_pool_never_missing_witness:
  "\<exists>tc reg' r. buildTLSConfig (sample_tls_env\<lparr>te_ReadFile := (\<lambda>f. Inr ''root'')\<rparr>)
     \<lparr>stls_Enabled = True, stls_CertFile = ''/c/tls.crt'', stls_KeyFile = ''/c/tls.key'', stls_MinVersion = ''1.3'',
      stls_ClientAuth = ''require'', stls_ClientCAFile = ''/ca/root.pem''\<rparr> ''auto'' NewRegistry = Inr (Some tc, reg') \<and>
     rg_reloaders reg' = [r] \<and> tc_ClientAuth tc = RequireAndVerifyClientCert \<and>
     (\<exists>p. p \<noteq> [] \<and> tc_ClientCAs tc (snd (Reloader_Load sample_tls_env r)) = Some p)"
proof -
  let ?env = "sample_tls_env\<lparr>te_ReadFile := (\<lambda>f. Inr ''root'')\<rparr>"
  let ?cfg = "\<lparr>stls_Enabled = True, stls_CertFile = ''/c/tls.crt'', stls_KeyFile = ''/c/tls.key'',
      stls_MinVersion = ''1.3'', stls_ClientAuth = ''require'', stls_ClientCAFile = ''/ca/root.pem''\<rparr>"
  have "\<exists>tc reg'. buildTLSConfig ?env ?cfg ''auto'' NewRegistry = Inr (Some tc, reg')"
    by (simp add: buildTLSConfig_def ParseVersion_def ParseClientAuth_def NewReloader_def Reloader_Load_def
        sample_tls_env_def LoadCAPool_def Let_def)
  then obtain tc reg' where b: "buildTLSConfig ?env ?cfg ''auto'' NewRegistry = Inr (Some tc, reg')" by blast
  have "ParseClientAuth (stls_ClientAuth ?cfg) = Inr RequireAndVerifyClientCert" by (simp add: ParseClientAuth_def)
  from mtls_pool_never_missing [OF b this] obtain r where r: "rg_reloaders reg' = [r]"
    "tc_ClientAuth tc = RequireAndVerifyClientCert"
    "\<And>envs. \<exists>p. p \<noteq> [] \<and> tc_ClientCAs tc (fold (\<lambda>e r. snd (Reloader_Load e r)) envs r) = Some p"
    by (auto simp: NewRegistry_def)
  from r(3) [of "[sample_tls_env]"] b r(1,2) show ?thesis by auto
qed



end
