(* ===== verification/Observability.thy ===== *)
theory Observability
  imports Gateway_Config
begin

text \<open>
  Construction of the metric and trace providers (\<^verbatim>\<open>internal/otelcommon\<close>, \<^verbatim>\<open>internal/metric\<close>,
  \<^verbatim>\<open>internal/tracing\<close>, and \<^verbatim>\<open>initMetrics\<close>, \<^verbatim>\<open>initTracing\<close> of \<^verbatim>\<open>builder.go\<close>).  The OpenTelemetry SDK
  enters as \<open>otel_env\<close>: whether an exporter, an instrument or a resource can be made.  A provider
  is described by what it was made with.  Recording measurements is in theory \<open>Metrics\<close>.  The construction of the logger
  (\<^verbatim>\<open>internal/logger\<close>) is here too.
\<close>

section \<open>The SDK\<close>

type_synonym resource = "(string \<times> string) list"

datatype sampler = AlwaysSample | NeverSample | TraceIDRatioBased rat | ParentBased sampler

text \<open>Bucket boundaries are given in microseconds.\<close>

record view =
  vw_Instrument :: string
  vw_Boundaries :: "int list"

datatype exporter = PrometheusExporter | OTLPExporter string bool duration

record MeterProvider =
  mp_Exporter :: exporter
  mp_Resource :: resource
  mp_Views :: "view list"

record TracerProvider =
  tp_Endpoint :: string
  tp_Insecure :: bool
  tp_BatchTimeout :: duration
  tp_Sampler :: sampler
  tp_Resource :: resource

datatype Provider = NopProvider | MetricProvider MeterProvider | TraceProvider TracerProvider

record otel_env =
  ot_Resource :: "resource \<Rightarrow> go_error option"
  ot_Prometheus :: "go_error option"
  ot_MetricHTTP :: "string \<Rightarrow> bool \<Rightarrow> go_error option"
  ot_TraceHTTP :: "string \<Rightarrow> bool \<Rightarrow> go_error option"
  ot_Instrument :: "string \<Rightarrow> go_error option"

section \<open>Resources and instruments\<close>

definition NewResource :: "otel_env \<Rightarrow> string \<Rightarrow> string \<Rightarrow> go_error + resource" where
  "NewResource ot serviceName serviceVersion =
     (let name = (if serviceName = [] then ''aastro'' else serviceName);
          attrs = [(''service.name'', name)] @
            (if serviceVersion \<noteq> [] then [(''service.version'', serviceVersion)] else [])
      in case ot_Resource ot attrs of Some err \<Rightarrow> Inl err | None \<Rightarrow> Inr attrs)"

definition instruments :: "string list" where
  "instruments =
     [''aastro.requests.total'', ''aastro.requests.duration'', ''aastro.requests.in_flight'',
      ''aastro.failed_requests.total'', ''aastro.upstream.latency'', ''aastro.upstream.requests.total'',
      ''aastro.upstream.errors.total'', ''aastro.upstream.retries.total'', ''aastro.circuit_breaker.state'']"

fun make_instruments :: "otel_env \<Rightarrow> string list \<Rightarrow> go_error option" where
  "make_instruments ot [] = None"
| "make_instruments ot (i # is) =
     (case ot_Instrument ot i of Some err \<Rightarrow> Some err | None \<Rightarrow> make_instruments ot is)"

definition metric_New :: "otel_env \<Rightarrow> go_error + string list" where
  "metric_New ot = (case make_instruments ot instruments of Some err \<Rightarrow> Inl err | None \<Rightarrow> Inr instruments)"

section \<open>Metrics\<close>

definition newMeterProvider :: "exporter \<Rightarrow> resource \<Rightarrow> MeterProvider" where
  "newMeterProvider reader res =
     \<lparr>mp_Exporter = reader, mp_Resource = res,
      mp_Views =
        [\<lparr>vw_Instrument = ''aastro.requests.duration'',
          vw_Boundaries = [1000, 5000, 10000, 25000, 50000, 100000, 250000, 500000, 1000000, 2500000]\<rparr>,
         \<lparr>vw_Instrument = ''aastro.upstream.latency'',
          vw_Boundaries = [5000, 10000, 25000, 50000, 100000, 250000, 500000, 1000000, 2500000, 5000000]\<rparr>]\<rparr>"

definition NewOtelPrometheus :: "otel_env \<Rightarrow> resource \<Rightarrow> go_error + MeterProvider" where
  "NewOtelPrometheus ot res =
     (case ot_Prometheus ot of Some err \<Rightarrow> Inl err | None \<Rightarrow> Inr (newMeterProvider PrometheusExporter res))"

definition defaultMetricsInterval :: duration where
  "defaultMetricsInterval = 60 * 1000000000"

definition metric_NewOtelOTLP :: "otel_env \<Rightarrow> OTLPConfig \<Rightarrow> resource \<Rightarrow> go_error + MeterProvider" where
  "metric_NewOtelOTLP ot c res =
     (case ot_MetricHTTP ot (otlp_Endpoint c) (otlp_Insecure c) of
        Some err \<Rightarrow> Inl err
      | None \<Rightarrow>
          let interval = (if otlp_Interval c = 0 then defaultMetricsInterval else otlp_Interval c)
          in Inr (newMeterProvider (OTLPExporter (otlp_Endpoint c) (otlp_Insecure c) interval) res))"

text \<open>The provider, and whether there is a Prometheus registry.\<close>

definition initMetrics :: "otel_env \<Rightarrow> MetricsConfig \<Rightarrow> resource \<Rightarrow> go_error + (Provider \<times> bool)" where
  "initMetrics ot cfg res =
     (if \<not> met_Enabled cfg then Inr (NopProvider, False)
      else if met_Exporter cfg = ''prometheus'' then
        (case NewOtelPrometheus ot res of
           Inl err \<Rightarrow> Inl (ErrWrap ''init prometheus metrics: '' err)
         | Inr provider \<Rightarrow> Inr (MetricProvider provider, True))
      else if met_Exporter cfg = ''otlp'' then
        (case metric_NewOtelOTLP ot (met_OTLP cfg) res of
           Inl err \<Rightarrow> Inl (ErrWrap ''init otlp metrics: '' err)
         | Inr provider \<Rightarrow> Inr (MetricProvider provider, False))
      else Inl (ErrMsg (''unsupported metrics exporter: '' @ quoted (met_Exporter cfg))))"

section \<open>Tracing\<close>

definition SamplerFor :: "rat \<Rightarrow> sampler" where
  "SamplerFor ratio =
     (if ratio \<ge> 1 then ParentBased AlwaysSample
      else if ratio \<le> 0 then ParentBased NeverSample
      else ParentBased (TraceIDRatioBased ratio))"

definition defaultBatchTimeout :: duration where
  "defaultBatchTimeout = 5 * 1000000000"

definition tracing_NewOtelOTLP :: "otel_env \<Rightarrow> OTLPConfig \<Rightarrow> rat \<Rightarrow> resource \<Rightarrow> go_error + TracerProvider" where
  "tracing_NewOtelOTLP ot c samplingRatio res =
     (case ot_TraceHTTP ot (otlp_Endpoint c) (otlp_Insecure c) of
        Some err \<Rightarrow> Inl (ErrWrap ''create otlp trace exporter: '' err)
      | None \<Rightarrow>
          Inr \<lparr>tp_Endpoint = otlp_Endpoint c, tp_Insecure = otlp_Insecure c,
               tp_BatchTimeout = (if otlp_Interval c = 0 then defaultBatchTimeout else otlp_Interval c),
               tp_Sampler = SamplerFor samplingRatio, tp_Resource = res\<rparr>)"

definition initTracing :: "otel_env \<Rightarrow> TracingConfig \<Rightarrow> resource \<Rightarrow> go_error + Provider" where
  "initTracing ot cfg res =
     (if \<not> trc_Enabled cfg then Inr NopProvider
      else if trc_Exporter cfg = ''otlp'' then
        (case tracing_NewOtelOTLP ot (trc_OTLP cfg) (trc_SamplingRatio cfg) res of
           Inl err \<Rightarrow> Inl (ErrWrap ''init otlp tracing: '' err)
         | Inr provider \<Rightarrow> Inr (TraceProvider provider))
      else Inl (ErrMsg (''unsupported tracing exporter: '' @ quoted (trc_Exporter cfg))))"

section \<open>Logging\<close>

datatype zap_level = DebugLevel | InfoLevel | PanicLevel

text \<open>
  What the logger is built from; \<open>zc_stacktrace\<close> is the level of the option \<^verbatim>\<open>AddStacktrace\<close>, if it is given, and the times
  are always written as RFC 3339.
\<close>

record zap_config =
  zc_Level :: zap_level
  zc_Development :: bool
  zc_Encoding :: string
  zc_OutputPaths :: "string list"
  zc_ErrorOutputPaths :: "string list"
  zc_stacktrace :: "zap_level option"

definition logger_New :: "(zap_config \<Rightarrow> go_error option) \<Rightarrow> bool \<Rightarrow> go_error + zap_config" where
  "logger_New build debug =
     (let config = \<lparr>zc_Level = (if debug then DebugLevel else InfoLevel), zc_Development = debug, zc_Encoding = ''json'',
            zc_OutputPaths = [''stdout''], zc_ErrorOutputPaths = [''stderr''],
            zc_stacktrace = (if debug then None else Some PanicLevel)\<rparr>
      in case build config of Some err \<Rightarrow> Inl (ErrWrap ''build logger: '' err) | None \<Rightarrow> Inr config)"

section \<open>Lemmas\<close>

text \<open>An SDK that makes everything it is asked for.\<close>

definition otel_available :: "otel_env \<Rightarrow> bool" where
  "otel_available ot \<longleftrightarrow>
     (\<forall>r. ot_Resource ot r = None) \<and> ot_Prometheus ot = None \<and> (\<forall>e i. ot_MetricHTTP ot e i = None) \<and>
     (\<forall>e i. ot_TraceHTTP ot e i = None) \<and> (\<forall>n. ot_Instrument ot n = None)"

lemma make_instruments_available: "otel_available ot \<Longrightarrow> make_instruments ot is = None"
  by (induction "is") (auto simp: otel_available_def)

lemma otel_constructors_total:
  assumes "otel_available ot"
  shows "\<exists>res. NewResource ot s v = Inr res" "\<exists>ms. metric_New ot = Inr ms"
  using assms make_instruments_available [OF assms]
  by (auto simp: NewResource_def metric_New_def otel_available_def Let_def)

lemma initMetrics_total:
  assumes "otel_available ot" "MetricsConfig_tags cfg"
  shows "\<exists>p reg. initMetrics ot cfg res = Inr (p, reg)"
  using assms
  by (auto simp: initMetrics_def NewOtelPrometheus_def metric_NewOtelOTLP_def otel_available_def
      MetricsConfig_tags_def exporter_tag_def Let_def)

lemma initTracing_total:
  assumes "otel_available ot" "TracingConfig_tags cfg"
  shows "\<exists>p. initTracing ot cfg res = Inr p"
  using assms
  by (auto simp: initTracing_def tracing_NewOtelOTLP_def otel_available_def TracingConfig_tags_def exporter_tag_def)

end
