(* ===== verification/Builder.thy ===== *)
theory Builder
  imports Loader TLS_Reload Observability
begin

text \<open>
  Compilation of a validated configuration into a router (\<^verbatim>\<open>builder.go\<close>).  The registry of TLS
  reloaders and the number of identifiers drawn are threaded through; \<open>Some (Inl err)\<close> is a
  returned error and \<open>None\<close> a panic: the dereference of a missing section, or a route that \<^verbatim>\<open>chi\<close>
  refuses to register.
\<close>

section \<open>Environment\<close>

text \<open>\<open>be_chi method pattern\<close> says whether \<^verbatim>\<open>chi\<close> registers a route; otherwise it panics.\<close>

record build_env =
  be_so :: so_env
  be_tls :: tls_env
  be_otel :: otel_env
  be_float :: float_platform
  be_uuid :: "nat \<Rightarrow> string"
  be_chi :: "string \<Rightarrow> string \<Rightarrow> bool"

record build_state =
  bs_reg :: Registry
  bs_drawn :: nat

text \<open>Continue with a result, or return its error with a message in front of it.\<close>

definition attempt ::
  "(go_error + 'a) go \<Rightarrow> string \<Rightarrow> ('a \<Rightarrow> (go_error + 'b) go) \<Rightarrow> (go_error + 'b) go" where
  "attempt r msg k =
     (case r of
        None \<Rightarrow> None
      | Some (Inl err) \<Rightarrow> Some (Inl (ErrWrap msg err))
      | Some (Inr x) \<Rightarrow> k x)"

text \<open>Continue with a result, or return its error as it is.\<close>

definition pass_on :: "(go_error + 'a) go \<Rightarrow> ('a \<Rightarrow> (go_error + 'b) go) \<Rightarrow> (go_error + 'b) go" where
  "pass_on r k =
     (case r of
        None \<Rightarrow> None
      | Some (Inl err) \<Rightarrow> Some (Inl err)
      | Some (Inr x) \<Rightarrow> k x)"

section \<open>Aggregation\<close>

definition compileStrategy :: "string \<Rightarrow> go_error + aggregationStrategy" where
  "compileStrategy s =
     (if s = ''array'' then Inr strategyArray
      else if s = ''merge'' then Inr strategyMerge
      else if s = ''namespace'' then Inr strategyNamespace
      else Inl (ErrMsg (''unknown aggregation strategy: '' @ quoted s)))"

definition compileConflictPolicy :: "string \<Rightarrow> go_error + conflictPolicy" where
  "compileConflictPolicy p =
     (if p = ''overwrite'' then Inr conflictPolicyOverwrite
      else if p = ''error'' then Inr conflictPolicyError
      else if p = ''first'' then Inr conflictPolicyFirst
      else if p = ''prefer'' then Inr conflictPolicyPrefer
      else Inl (ErrMsg (''unknown aggregation conflict policy: '' @ quoted p)))"

fun search_from :: "nat \<Rightarrow> string \<Rightarrow> httpUpstream list \<Rightarrow> int \<times> bool" where
  "search_from i name [] = (- 1, False)"
| "search_from i name (u # us) =
     (if uc_name (hu_cfg u) = name then (int i, True) else search_from (Suc i) name us)"

definition searchUpstream :: "string \<Rightarrow> httpUpstream list \<Rightarrow> int \<times> bool" where
  "searchUpstream name upstreams = search_from 0 name upstreams"

definition initAggregation :: "AggregationConfig \<Rightarrow> httpUpstream list \<Rightarrow> (go_error + aggregation) go" where
  "initAggregation cfg upstreams =
     (case compileStrategy (agc_Strategy cfg) of
        Inl err \<Rightarrow> Some (Inl err)
      | Inr st \<Rightarrow>
          let agg = \<lparr>bestEffort = agc_BestEffort cfg, strategy = st,
                     conflict_policy = conflictPolicyOverwrite, preferredUpstream = - 1\<rparr>
          in
          if st \<noteq> strategyMerge then Some (Inr agg)
          else
            (case agc_OnConflict cfg of
               None \<Rightarrow> None
             | Some onConflict \<Rightarrow>
                 (case compileConflictPolicy (onc_Policy onConflict) of
                    Inl err \<Rightarrow> Some (Inl err)
                  | Inr conflict \<Rightarrow>
                      if conflict = conflictPolicyPrefer then
                        (if onc_Upstream onConflict = []
                         then Some (Inl (ErrMsg ''no upstream specified for on_conflict prefer policy''))
                         else
                           let (idx, found) = searchUpstream (onc_Upstream onConflict) upstreams in
                           if \<not> found
                           then Some (Inl (ErrMsg ''preferred upstream for on_conflict policy does not exist''))
                           else Some (Inr (agg\<lparr>conflict_policy := conflict, preferredUpstream := idx\<rparr>)))
                      else Some (Inr (agg\<lparr>conflict_policy := conflict\<rparr>)))))"

section \<open>Upstreams\<close>

definition lbMode_of :: "string \<Rightarrow> lbMode" where
  "lbMode_of s =
     (if s = ''round_robin'' then lbModeRoundRobin
      else if s = ''least_conns'' then lbModeLeastConns
      else lbModeOther s)"

text \<open>The loop of \<^verbatim>\<open>makeUpstreamName\<close> puts a hyphen between the hosts.\<close>

definition makeUpstreamName :: "string \<Rightarrow> string list \<Rightarrow> string" where
  "makeUpstreamName m hosts = map to_lower m @ ''-'' @ Join (map (map to_lower) hosts) ''-''"

definition buildUpstreamPolicy :: "PolicyConfig \<Rightarrow> upstreamPolicy" where
  "buildUpstreamPolicy cfg =
     \<lparr>headerBlacklist = remdups (map canon (pol_HeaderBlacklist cfg)),
      requireBody = pol_RequireBody cfg,
      maxResponseBodySize = pol_MaxResponseBodySize cfg,
      retry = \<lparr>maxRetries = rtc_MaxRetries (pol_RetryConfig cfg),
               retryOnStatuses = rtc_RetryOnStatuses (pol_RetryConfig cfg),
               backoffDelay = rtc_BackoffDelay (pol_RetryConfig cfg)\<rparr>\<rparr>"

definition buildUpstreamConfig :: "string \<Rightarrow> UpstreamConfig \<Rightarrow> IPNet list \<Rightarrow> upstreamConfig" where
  "buildUpstreamConfig uuid cfg trustedProxies =
     \<lparr>uc_id = uuid,
      uc_name = (if upc_Name cfg = [] then makeUpstreamName (upc_Method cfg) (upc_Hosts cfg) else upc_Name cfg),
      uc_hosts = upc_Hosts cfg, uc_path = upc_Path cfg, uc_method = upc_Method cfg,
      uc_timeout = upc_Timeout cfg, uc_forwardHeaders = upc_ForwardHeaders cfg,
      uc_forwardQueries = upc_ForwardQueries cfg, uc_forwardParams = upc_ForwardParams cfg,
      uc_trustedProxies = trustedProxies, uc_lbMode = lbMode_of (pol_LoadBalancingMode (upc_Policy cfg)),
      uc_policy = buildUpstreamPolicy (upc_Policy cfg)\<rparr>"

definition buildUpstreamState :: "string list \<Rightarrow> upstreamState" where
  "buildUpstreamState hosts = \<lparr>currentHostIdx = 0, activeConnections = replicate (length hosts) 0\<rparr>"

definition buildCircuitBreaker :: "CircuitBreakerConfig \<Rightarrow> CircuitBreaker option" where
  "buildCircuitBreaker cfg =
     (if \<not> cbc_Enabled cfg then None else Some (breaker_New (cbc_MaxFailures cfg) (cbc_ResetTimeout cfg)))"

record http_Protocols =
  pr_HTTP1 :: bool
  pr_HTTP2 :: bool

record http_Transport =
  ht_MaxIdleConns :: int
  ht_MaxIdleConnsPerHost :: int
  ht_IdleConnTimeout :: duration
  ht_TLSClientConfig :: "tls_Config option"
  ht_Protocols :: "http_Protocols option"
  ht_ForceAttemptHTTP2 :: bool

text \<open>\<open>cl_NoRedirect\<close>: the redirect check is \<^verbatim>\<open>noRedirect\<close>, which hands the redirect itself back.\<close>

record http_Client =
  cl_Transport :: http_Transport
  cl_Timeout :: duration
  cl_NoRedirect :: bool

definition buildUpstreamTransport :: "UpstreamConfig \<Rightarrow> tls_Config option \<Rightarrow> http_Transport" where
  "buildUpstreamTransport cfg tlsCfg =
     (let t = \<lparr>ht_MaxIdleConns = trn_MaxIdleConns (upc_Transport cfg),
               ht_MaxIdleConnsPerHost = trn_MaxIdleConnsPerHost (upc_Transport cfg),
               ht_IdleConnTimeout = trn_IdleConnTimeout (upc_Transport cfg),
               ht_TLSClientConfig = tlsCfg, ht_Protocols = None, ht_ForceAttemptHTTP2 = False\<rparr>
      in
      if trn_HTTP2 (upc_Transport cfg) = ''off''
      then t\<lparr>ht_Protocols := Some \<lparr>pr_HTTP1 = True, pr_HTTP2 = False\<rparr>\<rparr>
      else
        let t' = t\<lparr>ht_ForceAttemptHTTP2 := True\<rparr> in
        if tlsCfg \<noteq> None then t'\<lparr>ht_Protocols := Some \<lparr>pr_HTTP1 = True, pr_HTTP2 = True\<rparr>\<rparr> else t')"

definition buildUpstreamTLSConfig ::
  "tls_env \<Rightarrow> TLSConfig \<Rightarrow> string \<Rightarrow> Registry \<Rightarrow> go_error + (tls_Config option \<times> Registry)" where
  "buildUpstreamTLSConfig env cfg http2 reg =
     (if \<not> tls_Enabled cfg then Inr (None, reg)
      else
        case ParseVersion (tls_MinVersion cfg) of
          Inl err \<Rightarrow> Inl err
        | Inr minVer \<Rightarrow>
            (case NewReloader env \<lparr>rc_CertFile = tls_CertFile cfg, rc_CAFile = tls_CAFile cfg,
                    rc_KeyFile = tls_KeyFile cfg, rc_ServerName = tls_ServerName cfg,
                    rc_MinVersion = minVer, rc_InsecureSkipVerify = tls_InsecureSkipVerify cfg,
                    rc_ClientAuth = NoClientCert, rc_DisableHTTP2 = (http2 = ''off'')\<rparr> of
               Inl err \<Rightarrow> Inl err
             | Inr r \<Rightarrow> Inr (Some (ClientConfig env r), Registry_Register r reg)))"

text \<open>
  An upstream with its two clients.  The clients are what carries out \<open>at_transport\<close> and
  \<open>se_transport\<close> of the request path, where they are part of the environment.
\<close>

record built_upstream = httpUpstream +
  bu_client :: http_Client
  bu_streamClient :: http_Client

definition buildUpstream ::
  "build_env \<Rightarrow> IPNet list \<Rightarrow> UpstreamConfig \<Rightarrow> build_state \<Rightarrow> go_error + (built_upstream \<times> build_state)" where
  "buildUpstream env trustedProxies cfg bs =
     (case buildUpstreamTLSConfig (be_tls env) (upc_TLS cfg) (trn_HTTP2 (upc_Transport cfg)) (bs_reg bs) of
        Inl err \<Rightarrow> Inl (ErrWrap ''build TLS config: '' err)
      | Inr (tlsCfg, reg) \<Rightarrow>
          let transport = buildUpstreamTransport cfg tlsCfg;
              noRedirect = (\<not> pol_FollowRedirects (upc_Policy cfg))
          in Inr (\<lparr>hu_cfg = buildUpstreamConfig (be_uuid env (bs_drawn bs)) cfg trustedProxies,
                   hu_state = buildUpstreamState (upc_Hosts cfg),
                   hu_breaker = buildCircuitBreaker (pol_CircuitBreakerConfig (upc_Policy cfg)),
                   bu_client = \<lparr>cl_Transport = transport, cl_Timeout = upc_Timeout cfg, cl_NoRedirect = noRedirect\<rparr>,
                   bu_streamClient = \<lparr>cl_Transport = transport, cl_Timeout = 0, cl_NoRedirect = noRedirect\<rparr>\<rparr>,
                  bs\<lparr>bs_reg := reg, bs_drawn := Suc (bs_drawn bs)\<rparr>))"

fun initUpstreams ::
  "build_env \<Rightarrow> IPNet list \<Rightarrow> UpstreamConfig list \<Rightarrow> build_state \<Rightarrow>
     go_error + (built_upstream list \<times> build_state)" where
  "initUpstreams env trustedProxies [] bs = Inr ([], bs)"
| "initUpstreams env trustedProxies (cfg # cfgs) bs =
     (case buildUpstream env trustedProxies cfg bs of
        Inl err \<Rightarrow> Inl (ErrWrap ''build upstream: '' err)
      | Inr (u, bs1) \<Rightarrow>
          (case initUpstreams env trustedProxies cfgs bs1 of
             Inl err \<Rightarrow> Inl err
           | Inr (us, bs2) \<Rightarrow> Inr (u # us, bs2)))"

section \<open>Flows\<close>

text \<open>The zero value of the aggregation, for flows that never reach the aggregator.\<close>

definition zero_aggregation :: aggregation where
  "zero_aggregation = \<lparr>bestEffort = False, strategy = strategyMerge,
     conflict_policy = conflictPolicyOverwrite, preferredUpstream = 0\<rparr>"

definition flow_aggregation :: "FlowConfig \<Rightarrow> httpUpstream list \<Rightarrow> (go_error + aggregation) go" where
  "flow_aggregation cfg upstreams =
     (if \<not> flc_Streaming cfg \<and> length upstreams > 1 then
        (case flc_Aggregation cfg of
           None \<Rightarrow> None
         | Some a \<Rightarrow> initAggregation a upstreams)
      else Some (Inr zero_aggregation))"

definition compileFlow ::
  "build_env \<Rightarrow> IPNet list \<Rightarrow> FlowConfig \<Rightarrow> build_state \<Rightarrow> (go_error + (route \<times> build_state)) go" where
  "compileFlow env trustedProxies cfg bs =
     attempt (Some (initUpstreams env trustedProxies (flc_Upstreams cfg) bs)) ''init upstreams: '' (\<lambda>(built, bs1).
       let upstreams = map httpUpstream.truncate built in
       if flc_Streaming cfg \<and> length upstreams \<noteq> 1
       then Some (Inl (ErrMsg (''streaming flow '' @ single_quoted (flc_Path cfg) @
              '' must have exactly one upstream, got '' @ Itoa (int (length upstreams)))))
       else
         attempt (flow_aggregation cfg upstreams) ''init aggregation: '' (\<lambda>aggregationParams.
         attempt (Some (initPlugins (be_so env) (flc_Plugins cfg))) ''init plugins: '' (\<lambda>plugins.
         attempt (Some (initMiddlewares (be_so env) (flc_Middlewares cfg))) ''init middlewares: '' (\<lambda>middlewares.
           Some (Inr (\<lparr>rt_flow = \<lparr>fl_path = flc_Path cfg, fl_method = flc_Method cfg,
                         fl_aggregation = aggregationParams, fl_upstreams = upstreams,
                         fl_streaming = flc_Streaming cfg\<rparr>,
                       rt_plugins = plugins, rt_middlewares = middlewares\<rparr>, bs1))))))"

fun compile_flows ::
  "build_env \<Rightarrow> IPNet list \<Rightarrow> FlowConfig list \<Rightarrow> build_state \<Rightarrow> (go_error + (route list \<times> build_state)) go" where
  "compile_flows env trustedProxies [] bs = Some (Inr ([], bs))"
| "compile_flows env trustedProxies (cfg # cfgs) bs =
     attempt (compileFlow env trustedProxies cfg bs) (''compile flow '' @ quoted (flc_Path cfg) @ '': '')
       (\<lambda>(t, bs1).
          pass_on (compile_flows env trustedProxies cfgs bs1) (\<lambda>(ts, bs2). Some (Inr (t # ts, bs2))))"

section \<open>The router\<close>

definition initRateLimiter :: "float_platform \<Rightarrow> RateLimiterConfig \<Rightarrow> RateLimit option" where
  "initRateLimiter pf cfg =
     (if \<not> rlc_Enabled cfg then None
      else Some (ratelimit_New pf (case rlc_Config cfg of None \<Rightarrow> [] | Some m \<Rightarrow> m)))"

fun parseTrustedProxies :: "string list \<Rightarrow> go_error + IPNet list" where
  "parseTrustedProxies [] = Inr []"
| "parseTrustedProxies (p # ps) =
     (case ParseCIDR p of
        None \<Rightarrow> Inl (ErrWrap ''parse trusted proxy CIDR: '' (ErrMsg (''invalid CIDR address: '' @ p)))
      | Some ipnet \<Rightarrow>
          (case parseTrustedProxies ps of
             Inl err \<Rightarrow> Inl err
           | Inr nets \<Rightarrow> Inr (ipnet # nets)))"

text \<open>\<^verbatim>\<open>registerFlows\<close>: the routes are registered in order; a refused one is a panic.\<close>

definition registerFlows :: "build_env \<Rightarrow> Router \<Rightarrow> Router go" where
  "registerFlows env r = (if list_all (\<lambda>(m, p). be_chi env m p) (registered r) then Some r else None)"

record RouterBundle =
  rb_Router :: Router
  rb_TLSRegistry :: Registry
  rb_MeterProvider :: Provider
  rb_TracerProvider :: Provider
  rb_PromRegistry :: bool

definition NewRouter :: "build_env \<Rightarrow> string \<Rightarrow> Config \<Rightarrow> (go_error + RouterBundle) go" where
  "NewRouter env version cfg =
     attempt (Some (NewResource (be_otel env) (cfg_ServiceName cfg) version)) ''build otel resource: '' (\<lambda>res.
     attempt (Some (initMetrics (be_otel env) (cfg_Metrics cfg) res)) ''init metrics: '' (\<lambda>(meterProvider, promRegistry).
     attempt (Some (metric_New (be_otel env))) ''init metric instruments: '' (\<lambda>metrics.
     attempt (Some (initTracing (be_otel env) (cfg_Tracing cfg) res)) ''init tracing: '' (\<lambda>tracerProvider.
       let routing = cfg_Routing cfg; limiter = initRateLimiter (be_float env) (rou_RateLimiter routing) in
     attempt (Some (parseTrustedProxies (rou_TrustedProxies routing))) ''parse trusted proxies: '' (\<lambda>trustedProxies.
     pass_on (compile_flows env trustedProxies (rou_Flows routing) \<lparr>bs_reg = NewRegistry, bs_drawn = 0\<rparr>) (\<lambda>(flows, bs).
       map_option
         (\<lambda>router. Inr \<lparr>rb_Router = router, rb_TLSRegistry = bs_reg bs, rb_MeterProvider = meterProvider,
                         rb_TracerProvider = tracerProvider, rb_PromRegistry = promRegistry\<rparr>)
         (registerFlows env \<lparr>rr_flows = flows, rr_trustedProxies = trustedProxies, rr_rateLimiter = limiter\<rparr>)))))))"

section \<open>Lemmas\<close>

lemma attempt_Inr:
  "attempt r msg k = Some (Inr y) \<longleftrightarrow> (\<exists>x. r = Some (Inr x) \<and> k x = Some (Inr y))"
  by (auto simp: attempt_def split: option.splits sum.splits)

lemma pass_on_Inr: "pass_on r k = Some (Inr y) \<longleftrightarrow> (\<exists>x. r = Some (Inr x) \<and> k x = Some (Inr y))"
  by (auto simp: pass_on_def split: option.splits sum.splits)

lemma attempt_defined:
  "\<exists>y. r = Some y \<Longrightarrow> (\<And>x. r = Some (Inr x) \<Longrightarrow> \<exists>y. k x = Some y) \<Longrightarrow> \<exists>y. attempt r msg k = Some y"
  by (auto simp: attempt_def split: option.splits sum.splits)

lemma pass_on_defined:
  "\<exists>y. r = Some y \<Longrightarrow> (\<And>x. r = Some (Inr x) \<Longrightarrow> \<exists>y. k x = Some y) \<Longrightarrow> \<exists>y. pass_on r k = Some y"
  by (auto simp: pass_on_def split: option.splits sum.splits)

subsection \<open>Upstreams\<close>

definition built_from :: "IPNet list \<Rightarrow> UpstreamConfig \<Rightarrow> httpUpstream \<Rightarrow> bool" where
  "built_from nets c u \<longleftrightarrow>
     (\<exists>uuid. hu_cfg u = buildUpstreamConfig uuid c nets) \<and> hu_state u = buildUpstreamState (upc_Hosts c) \<and>
     hu_breaker u = buildCircuitBreaker (pol_CircuitBreakerConfig (upc_Policy c))"

lemma initUpstreams_built:
  "initUpstreams env nets cs bs = Inr (us, bs') \<Longrightarrow> list_all2 (built_from nets) cs (map httpUpstream.truncate us)"
proof (induction cs arbitrary: bs us)
  case (Cons c cs)
  then obtain u us' bs1 where b: "buildUpstream env nets c bs = Inr (u, bs1)" "us = u # us'"
    and rest: "initUpstreams env nets cs bs1 = Inr (us', bs')"
    by (auto split: sum.splits prod.splits)
  have "built_from nets c (httpUpstream.truncate u)"
    using b(1) by (auto simp: buildUpstream_def built_from_def httpUpstream.defs Let_def split: sum.splits prod.splits)
  with Cons.IH [OF rest] b(2) show ?case by simp
qed simp

lemma built_from_wf: "built_from nets c u \<Longrightarrow> upc_Hosts c \<noteq> [] \<Longrightarrow> upstream_wf u"
  by (auto simp: built_from_def upstream_wf_def buildUpstreamConfig_def buildUpstreamState_def)

lemma built_from_callable:
  "built_from nets c u \<Longrightarrow> upc_Hosts c \<noteq> [] \<Longrightarrow> 0 \<le> rtc_MaxRetries (pol_RetryConfig (upc_Policy c)) \<Longrightarrow> callable u"
  by (auto simp: callable_def built_from_wf)
    (auto simp: built_from_def buildUpstreamConfig_def buildUpstreamPolicy_def buildUpstreamState_def)

lemma built_from_name: "built_from nets c u \<Longrightarrow> upc_Name c \<noteq> [] \<Longrightarrow> uc_name (hu_cfg u) = upc_Name c"
  by (auto simp: built_from_def buildUpstreamConfig_def)

subsection \<open>Aggregation\<close>

lemma search_from_found:
  "search_from i name us = (idx, True) \<Longrightarrow>
     \<exists>k < length us. idx = int (i + k) \<and> uc_name (hu_cfg (us ! k)) = name \<and>
       (\<forall>j < k. uc_name (hu_cfg (us ! j)) \<noteq> name)"
proof (induction us arbitrary: i)
  case (Cons u us)
  show ?case
  proof (cases "uc_name (hu_cfg u) = name")
    case True
    with Cons.prems show ?thesis by (intro exI [of _ 0]) simp
  next
    case False
    with Cons obtain k where "k < length us" "idx = int (Suc i + k)" "uc_name (hu_cfg (us ! k)) = name"
      "\<forall>j < k. uc_name (hu_cfg (us ! j)) \<noteq> name" by fastforce
    with False show ?thesis by (intro exI [of _ "Suc k"]) (auto simp: less_Suc_eq_0_disj)
  qed
qed simp

lemma initAggregation_defined: "AggregationConfig_tags a \<Longrightarrow> \<exists>y. initAggregation a us = Some y"
  by (auto simp: initAggregation_def compileStrategy_def AggregationConfig_tags_def Let_def
      split: option.splits sum.splits prod.splits)

text \<open>What the aggregation of a flow does is what its section says.\<close>

definition aggregation_matches :: "AggregationConfig \<Rightarrow> httpUpstream list \<Rightarrow> aggregation \<Rightarrow> bool" where
  "aggregation_matches a us agg \<longleftrightarrow>
     bestEffort agg = agc_BestEffort a \<and> aggregationStrategy_String (strategy agg) = agc_Strategy a \<and>
     (strategy agg = strategyMerge \<longrightarrow>
        (\<exists>oc. agc_OnConflict a = Some oc \<and> conflictPolicy_String (conflict_policy agg) = onc_Policy oc \<and>
           (conflict_policy agg = conflictPolicyPrefer \<longrightarrow>
              (\<exists>k < length us. preferredUpstream agg = int k \<and> uc_name (hu_cfg (us ! k)) = onc_Upstream oc \<and>
                 (\<forall>j < k. uc_name (hu_cfg (us ! j)) \<noteq> onc_Upstream oc)))))"

lemma compileStrategy_Inr: "compileStrategy s = Inr st \<Longrightarrow> aggregationStrategy_String st = s"
  by (auto simp: compileStrategy_def split: if_splits)

lemma compileConflictPolicy_Inr: "compileConflictPolicy s = Inr p \<Longrightarrow> conflictPolicy_String p = s"
  by (auto simp: compileConflictPolicy_def split: if_splits)

lemma initAggregation_matches:
  assumes "initAggregation a us = Some (Inr agg)" shows "aggregation_matches a us agg"
proof -
  obtain st where st: "compileStrategy (agc_Strategy a) = Inr st"
    using assms by (auto simp: initAggregation_def split: sum.splits)
  note s = compileStrategy_Inr [OF st]
  show ?thesis
  proof (cases "st = strategyMerge")
    case False
    with assms st s show ?thesis by (auto simp: initAggregation_def aggregation_matches_def Let_def)
  next
    case True
    with assms st obtain oc p where oc: "agc_OnConflict a = Some oc" and p: "compileConflictPolicy (onc_Policy oc) = Inr p"
      by (auto simp: initAggregation_def Let_def split: option.splits sum.splits)
    obtain idx found where f: "searchUpstream (onc_Upstream oc) us = (idx, found)" by force
    note c = compileConflictPolicy_Inr [OF p]
    show ?thesis
      using assms st s True oc p c f search_from_found [of 0 "onc_Upstream oc" us idx]
      by (auto simp: initAggregation_def aggregation_matches_def searchUpstream_def Let_def split: if_splits)
  qed
qed

subsection \<open>Flows\<close>

text \<open>A route that does what the flow of the configuration says.\<close>

definition route_matches :: "IPNet list \<Rightarrow> FlowConfig \<Rightarrow> route \<Rightarrow> bool" where
  "route_matches nets c t \<longleftrightarrow>
     fl_path (rt_flow t) = flc_Path c \<and> fl_method (rt_flow t) = flc_Method c \<and>
     fl_streaming (rt_flow t) = flc_Streaming c \<and>
     list_all2 (built_from nets) (flc_Upstreams c) (fl_upstreams (rt_flow t)) \<and>
     (flc_Streaming c \<longrightarrow> length (fl_upstreams (rt_flow t)) = 1) \<and>
     (\<not> flc_Streaming c \<longrightarrow> length (fl_upstreams (rt_flow t)) > 1 \<longrightarrow>
        (\<exists>a. flc_Aggregation c = Some a \<and>
           aggregation_matches a (fl_upstreams (rt_flow t)) (fl_aggregation (rt_flow t))))"

lemma compileFlow_matches:
  assumes "compileFlow env nets c bs = Some (Inr (t, bs'))"
  shows "route_matches nets c t" "initPlugins (be_so env) (flc_Plugins c) = Inr (rt_plugins t)"
    "initMiddlewares (be_so env) (flc_Middlewares c) = Inr (rt_middlewares t)"
proof -
  obtain built where b: "initUpstreams env nets (flc_Upstreams c) bs = Inr (built, bs')"
    and one: "\<not> (flc_Streaming c \<and> length built \<noteq> 1)"
    and agg: "flow_aggregation c (map httpUpstream.truncate built) = Some (Inr (fl_aggregation (rt_flow t)))"
    and mods: "initPlugins (be_so env) (flc_Plugins c) = Inr (rt_plugins t)"
      "initMiddlewares (be_so env) (flc_Middlewares c) = Inr (rt_middlewares t)"
    and t: "fl_path (rt_flow t) = flc_Path c" "fl_method (rt_flow t) = flc_Method c"
      "fl_streaming (rt_flow t) = flc_Streaming c" "fl_upstreams (rt_flow t) = map httpUpstream.truncate built"
    using assms unfolding compileFlow_def attempt_Inr
    by (auto simp: attempt_Inr Let_def split: if_splits)
  show "route_matches nets c t"
    using initUpstreams_built [OF b] one agg t
    by (auto simp: route_matches_def flow_aggregation_def dest: initAggregation_matches split: if_splits option.splits)
  from mods show "initPlugins (be_so env) (flc_Plugins c) = Inr (rt_plugins t)"
    "initMiddlewares (be_so env) (flc_Middlewares c) = Inr (rt_middlewares t)" .
qed

lemma compileFlow_defined:
  assumes "FlowConfig_tags c" "flow_valid c" shows "\<exists>y. compileFlow env nets c bs = Some y"
proof -
  have "\<exists>y. flow_aggregation c us = Some y" if "length us = length (flc_Upstreams c)" for us
    using assms that initAggregation_defined
    by (auto simp: flow_aggregation_def flow_valid_def FlowConfig_tags_def split: option.splits)
  moreover have "length us = length (flc_Upstreams c)" if "initUpstreams env nets (flc_Upstreams c) bs = Inr (us, bs')" for us bs'
    using initUpstreams_built [OF that] by (auto dest: list_all2_lengthD)
  ultimately show ?thesis
    unfolding compileFlow_def by (auto intro!: attempt_defined simp: Let_def)
qed

lemma compile_flows_matches:
  assumes "compile_flows env nets cs bs = Some (Inr (ts, bs'))"
  shows "list_all2 (route_matches nets) cs ts"
    and "\<forall>t \<in> set ts. \<exists>c \<in> set cs. initPlugins (be_so env) (flc_Plugins c) = Inr (rt_plugins t) \<and>
      initMiddlewares (be_so env) (flc_Middlewares c) = Inr (rt_middlewares t)"
proof -
  have "list_all2 (route_matches nets) cs ts \<and>
    (\<forall>t \<in> set ts. \<exists>c \<in> set cs. initPlugins (be_so env) (flc_Plugins c) = Inr (rt_plugins t) \<and>
      initMiddlewares (be_so env) (flc_Middlewares c) = Inr (rt_middlewares t))"
    using assms
  proof (induction cs arbitrary: bs ts)
    case (Cons c cs)
    then obtain t ts' bs1 where t: "compileFlow env nets c bs = Some (Inr (t, bs1))"
      and rest: "compile_flows env nets cs bs1 = Some (Inr (ts', bs'))" "ts = t # ts'"
      by (auto simp: attempt_Inr pass_on_Inr)
    from Cons.IH [OF rest(1)] compileFlow_matches [OF t] rest(2) show ?case by auto
  qed simp
  then show "list_all2 (route_matches nets) cs ts"
    and "\<forall>t \<in> set ts. \<exists>c \<in> set cs. initPlugins (be_so env) (flc_Plugins c) = Inr (rt_plugins t) \<and>
      initMiddlewares (be_so env) (flc_Middlewares c) = Inr (rt_middlewares t)" by blast+
qed

lemma compile_flows_defined:
  "list_all FlowConfig_tags cs \<Longrightarrow> list_all flow_valid cs \<Longrightarrow> \<exists>y. compile_flows env nets cs bs = Some y"
proof (induction cs arbitrary: bs)
  case (Cons c cs)
  then have "\<exists>y. compileFlow env nets c bs = Some y" "\<exists>y. compile_flows env nets cs bs1 = Some y" for bs1
    using compileFlow_defined by simp_all
  then show ?case by (simp only: compile_flows.simps) (auto intro!: attempt_defined pass_on_defined)
qed simp

lemma NewRouter_Inr:
  assumes "NewRouter env version cfg = Some (Inr bundle)"
  shows "\<exists>nets bs. parseTrustedProxies (rou_TrustedProxies (cfg_Routing cfg)) = Inr nets \<and>
    compile_flows env nets (rou_Flows (cfg_Routing cfg)) \<lparr>bs_reg = NewRegistry, bs_drawn = 0\<rparr> =
      Some (Inr (rr_flows (rb_Router bundle), bs)) \<and> rr_trustedProxies (rb_Router bundle) = nets \<and>
    rr_rateLimiter (rb_Router bundle) = initRateLimiter (be_float env) (rou_RateLimiter (cfg_Routing cfg))"
  using assms unfolding NewRouter_def attempt_Inr
  by (auto simp: attempt_Inr pass_on_Inr registerFlows_def Let_def split: if_splits)

subsection \<open>Path parameters\<close>

declare path_params.simps [simp del]

lemma path_params_Nil [simp]: "path_params [] = []"
  by (simp add: path_params.simps)

lemma path_params_plain: "c \<noteq> CHR ''{'' \<Longrightarrow> path_params (c # s) = path_params s"
  by (simp add: path_params.simps(2) Let_def)

lemma path_params_append: "CHR ''{'' \<notin> set v \<Longrightarrow> path_params (v @ s) = path_params s"
  by (induction v) (auto simp: path_params_plain)

lemma path_params_open: "CHR ''}'' \<notin> set s \<Longrightarrow> path_params s = []"
  by (induction s) (simp_all add: path_params.simps(2) Let_def dropWhile_eq_Nil_conv [THEN iffD2])

lemma replace_params_open: "CHR ''}'' \<notin> set s \<Longrightarrow> replace_params f s = s"
  by (induction s) (simp_all add: Let_def dropWhile_eq_Nil_conv [THEN iffD2])

text \<open>Replacing all parameters by values without an opening brace leaves no parameter behind.\<close>

lemma path_params_replaced:
  assumes "\<forall>n \<in> set (path_params s). f n \<noteq> [] \<and> CHR ''{'' \<notin> set (f n)"
  shows "path_params (replace_params f s) = []"
  using assms
proof (induction f s rule: replace_params.induct)
  case (2 f c s)
  let ?name = "takeWhile (\<lambda>x. x \<noteq> CHR ''}'') s" and ?rest = "dropWhile (\<lambda>x. x \<noteq> CHR ''}'') s"
  note pp = path_params.simps(2) [of c s, unfolded Let_def]
  show ?case
  proof (cases "c = CHR ''{'' \<and> ?name \<noteq> [] \<and> ?rest \<noteq> []")
    case True
    with 2(1) [OF refl refl True] 2(3) pp show ?thesis by (simp add: path_params_append)
  next
    case False
    then have "path_params (c # s) = path_params s" unfolding pp by (rule if_not_P)
    with 2(2) [OF refl refl False] 2(3) have IH: "path_params (replace_params f s) = []" by simp
    have out: "replace_params f (c # s) = c # replace_params f s" using False by (auto simp: Let_def)
    show ?thesis
    proof (cases "c = CHR ''{''")
      case False
      with IH show ?thesis unfolding out by (simp add: path_params_plain)
    next
      case brace: True
      show ?thesis
      proof (cases "?rest = []")
        case True
        then have "CHR ''}'' \<notin> set s" by (auto simp: dropWhile_eq_Nil_conv)
        with brace show ?thesis unfolding out by (simp add: replace_params_open path_params_open)
      next
        case rest: False
        with False brace have "?name = []" by blast
        with rest obtain s' where "s = CHR ''}'' # s'" by (cases s) (auto split: if_splits)
        with IH brace show ?thesis unfolding out by (simp add: path_params.simps(2) Let_def)
      qed
    qed
  qed
qed simp

section \<open>Validated configurations\<close>

text \<open>What a validated configuration is known to satisfy.\<close>

lemma validated:
  assumes "validator_sound libs" "ValidateConfig libs cfg0 = Inr cfg"
  shows "list_all FlowConfig_tags (rou_Flows (cfg_Routing cfg))" "list_all flow_valid (rou_Flows (cfg_Routing cfg))"
  using assms by (auto simp: ValidateConfig_Inr validator_sound_def tags_hold_def)

text \<open>The settings that the checks let through although calls with them panic.\<close>

definition sane_retries :: "Config \<Rightarrow> bool" where
  "sane_retries cfg \<longleftrightarrow>
     (\<forall>f \<in> set (rou_Flows (cfg_Routing cfg)). \<forall>u \<in> set (flc_Upstreams f).
        0 \<le> rtc_MaxRetries (pol_RetryConfig (upc_Policy u)))"

lemma route_matches_live_flow:
  assumes "route_matches nets c t" "FlowConfig_tags c"
    and "\<forall>u \<in> set (flc_Upstreams c). 0 \<le> rtc_MaxRetries (pol_RetryConfig (upc_Policy u))"
  shows "live_flow (rt_flow t)"
proof -
  have "callable v" if "v \<in> set (fl_upstreams (rt_flow t))" for v
  proof -
    have "list_all2 (built_from nets) (flc_Upstreams c) (fl_upstreams (rt_flow t))"
      using assms(1) by (simp add: route_matches_def)
    with that obtain u where u: "u \<in> set (flc_Upstreams c)" "built_from nets u v"
      by (metis in_set_conv_nth list_all2_conv_all_nth)
    with assms(2,3) show ?thesis
      by (auto intro!: built_from_callable [of nets u v] simp: FlowConfig_tags_def list_all_iff UpstreamConfig_tags_def)
  qed
  then show ?thesis by (simp add: live_flow_def)
qed

text \<open>The modules that a flow loads keep the contracts of plugins and middlewares.\<close>

definition tame_modules :: "so_env \<Rightarrow> FlowConfig \<Rightarrow> bool" where
  "tame_modules so f \<longleftrightarrow>
     (\<forall>c \<in> set (flc_Plugins f). \<forall>p. plugin_entry so c = Inr p \<longrightarrow> tame p) \<and>
     (\<forall>c \<in> set (flc_Middlewares f). \<forall>m. middleware_entry so c = Inr m \<longrightarrow> transparent m)"

lemma configured_live:
  assumes "validator_sound libs" "ValidateConfig libs cfg0 = Inr cfg" "sane_retries cfg"
    and "NewRouter env version cfg = Some (Inr bundle)"
    and "\<forall>f \<in> set (rou_Flows (cfg_Routing cfg)). tame_modules (be_so env) f"
  shows "list_all live_route (rr_flows (rb_Router bundle))"
proof -
  let ?r = "rb_Router bundle"
  from NewRouter_Inr [OF assms(4)] obtain bs where
    c: "compile_flows env (rr_trustedProxies ?r) (rou_Flows (cfg_Routing cfg)) \<lparr>bs_reg = NewRegistry, bs_drawn = 0\<rparr> =
      Some (Inr (rr_flows ?r, bs))" by blast
  note m = compile_flows_matches(1) [OF c]
  have "live_route t" if t: "t \<in> set (rr_flows ?r)" for t
  proof -
    from t m obtain f where "f \<in> set (rou_Flows (cfg_Routing cfg))" "route_matches (rr_trustedProxies ?r) f t"
      by (metis in_set_conv_nth list_all2_conv_all_nth)
    then have "live_flow (rt_flow t)"
      using validated(1) [OF assms(1,2)] assms(3) by (auto intro!: route_matches_live_flow simp: list_all_iff sane_retries_def)
    moreover from compile_flows_matches(2) [OF c] t obtain g :: FlowConfig where
      g: "g \<in> set (rou_Flows (cfg_Routing cfg))" and
      "plugin_loop (be_so env) (flc_Plugins g) [] = Inr (rt_plugins t)"
      "middleware_loop (be_so env) (flc_Middlewares g) [] = Inr (rt_middlewares t)"
      unfolding initPlugins_def initMiddlewares_def by blast
    then have from_entries: "\<And>p. p \<in> set (rt_plugins t) \<Longrightarrow> \<exists>e \<in> set (flc_Plugins g). plugin_entry (be_so env) e = Inr p"
      "\<And>m. m \<in> set (rt_middlewares t) \<Longrightarrow> \<exists>e \<in> set (flc_Middlewares g). middleware_entry (be_so env) e = Inr m"
      using plugins.loop_loaded [of "be_so env" "flc_Plugins g" "[]" "rt_plugins t"]
        middlewares.loop_loaded [of "be_so env" "flc_Middlewares g" "[]" "rt_middlewares t"] by simp_all
    have "tame_modules (be_so env) g" using assms(5) g by blast
    with from_entries have "list_all tame (rt_plugins t)" "list_all transparent (rt_middlewares t)"
      unfolding list_all_iff tame_modules_def by blast+
    ultimately show ?thesis by (simp add: live_route_def)
  qed
  then show ?thesis by (simp add: list_all_iff)
qed

section \<open>A sample configuration\<close>

definition sample_libs :: config_libs where
  "sample_libs = \<lparr>lib_ReadFile = (\<lambda>p. Inl (ErrMsg ''no file'')), lib_Unmarshal = (\<lambda>b. Inl (ErrMsg ''no file'')),
     lib_Defaults = Inr, lib_Struct = (\<lambda>c. if tags_hold c then None else Some (Inl (ErrMsg ''invalid'')))\<rparr>"

definition sample_upstream_section :: "string \<Rightarrow> string \<Rightarrow> UpstreamConfig" where
  "sample_upstream_section name path =
     \<lparr>upc_Name = name, upc_Hosts = [''http://a'', ''http://b''], upc_Path = path, upc_Method = [],
      upc_Timeout = 3000000000, upc_ForwardHeaders = [], upc_ForwardQueries = [], upc_ForwardParams = [''id''],
      upc_Policy = \<lparr>pol_HeaderBlacklist = [], pol_RequireBody = False, pol_MaxResponseBodySize = 0,
        pol_FollowRedirects = False,
        pol_RetryConfig = \<lparr>rtc_MaxRetries = 2, rtc_RetryOnStatuses = [503], rtc_BackoffDelay = 0\<rparr>,
        pol_CircuitBreakerConfig = \<lparr>cbc_Enabled = True, cbc_MaxFailures = 3, cbc_ResetTimeout = 1000\<rparr>,
        pol_LoadBalancingMode = ''least_conns''\<rparr>,
      upc_Transport = \<lparr>trn_MaxIdleConns = 100, trn_MaxIdleConnsPerHost = 50, trn_IdleConnTimeout = 90000000000,
        trn_HTTP2 = ''auto''\<rparr>,
      upc_TLS = \<lparr>tls_Enabled = False, tls_CertFile = [], tls_KeyFile = [], tls_CAFile = [], tls_ServerName = [],
        tls_InsecureSkipVerify = False, tls_MinVersion = ''1.2''\<rparr>\<rparr>"

definition sample_flow_section :: FlowConfig where
  "sample_flow_section =
     \<lparr>flc_Path = ''/users/{id}'', flc_Method = ''GET'', flc_Streaming = False,
      flc_Aggregation = Some \<lparr>agc_BestEffort = True, agc_Strategy = ''merge'',
        agc_OnConflict = Some \<lparr>onc_Policy = ''prefer'', onc_Upstream = ''orders''\<rparr>\<rparr>,
      flc_Upstreams = [sample_upstream_section ''users'' ''/u/{id}'', sample_upstream_section ''orders'' ''/o/{id}''],
      flc_Plugins = [], flc_Middlewares = []\<rparr>"

definition sample_config :: Config where
  "sample_config =
     \<lparr>cfg_Schema = ''v1'', cfg_Debug = False, cfg_ServiceName = ''aastro'',
      cfg_Server = \<lparr>srv_Port = 7805, srv_Timeout = 5000000000, srv_HeaderTimeout = 5000000000, srv_HTTP2 = ''auto'',
        srv_TLS = \<lparr>stls_Enabled = False, stls_CertFile = [], stls_KeyFile = [], stls_MinVersion = ''1.2'',
          stls_ClientAuth = ''none'', stls_ClientCAFile = []\<rparr>\<rparr>,
      cfg_Admin = \<lparr>adm_Port = 7806, adm_BindAddr = ''127.0.0.1'', adm_Timeout = 0, adm_HeaderTimeout = 0,
        adm_EnablePprof = False\<rparr>,
      cfg_Tracing = \<lparr>trc_Enabled = False, trc_Exporter = [], trc_SamplingRatio = 1,
        trc_OTLP = \<lparr>otlp_Endpoint = [], otlp_Insecure = False, otlp_Interval = 0\<rparr>\<rparr>,
      cfg_Metrics = \<lparr>met_Enabled = True, met_Exporter = ''prometheus'',
        met_OTLP = \<lparr>otlp_Endpoint = [], otlp_Insecure = False, otlp_Interval = 0\<rparr>\<rparr>,
      cfg_Routing = \<lparr>rou_RateLimiter = \<lparr>rlc_Enabled = True, rlc_Config = Some []\<rparr>,
        rou_TrustedProxies = [], rou_Flows = [sample_flow_section]\<rparr>\<rparr>"

definition sample_build_env :: build_env where
  "sample_build_env = \<lparr>be_so = \<lparr>so_Open = (\<lambda>p. Inl (ErrMsg ''no such file''))\<rparr>, be_tls = sample_tls_env,
     be_otel = \<lparr>ot_Resource = (\<lambda>r. None), ot_Prometheus = None, ot_MetricHTTP = (\<lambda>e i. None),
       ot_TraceHTTP = (\<lambda>e i. None), ot_Instrument = (\<lambda>n. None)\<rparr>,
     be_float = \<lparr>fp_fused = False, fp_undef = 0\<rparr>, be_uuid = nat_dec, be_chi = (\<lambda>m p. True)\<rparr>"

lemma sample_libs_sound: "validator_sound sample_libs"
  by (simp add: validator_sound_def sample_libs_def split: if_splits)

lemma sample_flow_valid: "flow_valid sample_flow_section"
proof -
  have "path_params ''/users/{id}'' = [''id'']" "path_params ''/u/{id}'' = [''id'']" "path_params ''/o/{id}'' = [''id'']"
    by code_simp+
  then show ?thesis by (simp add: flow_valid_def sample_flow_section_def sample_upstream_section_def)
qed

lemma sample_config_valid: "ValidateConfig sample_libs sample_config = Inr sample_config"
proof -
  have "UpstreamConfig_tags (sample_upstream_section n p)" if "n \<noteq> []" for n p
    using that by (simp add: UpstreamConfig_tags_def sample_upstream_section_def TLSConfig_tags_def
        tls_version_tag_def http2_tag_def)
  then have "FlowConfig_tags sample_flow_section"
    by (simp add: FlowConfig_tags_def sample_flow_section_def AggregationConfig_tags_def OnConflictConfig_tags_def)
  then have "tags_hold sample_config"
    by (simp add: tags_hold_def sample_config_def ServerConfig_tags_def ServerTLSConfig_tags_def port_tag_def
        http2_tag_def tls_version_tag_def MetricsConfig_tags_def TracingConfig_tags_def exporter_tag_def
        RateLimiterConfig_tags_def)
  moreover have "validateHTTP2 sample_config = None"
    by (simp add: validateHTTP2_def sample_config_def sample_flow_section_def sample_upstream_section_def)
  ultimately show ?thesis
    using sample_flow_valid by (simp add: ValidateConfig_Inr sample_libs_def) (simp add: sample_config_def)
qed

text \<open>The sample compiles, and the preferred upstream of its flow is the second one.\<close>

lemma sample_config_builds:
  "\<exists>bundle. NewRouter sample_build_env ''1.0'' sample_config = Some (Inr bundle) \<and>
     map (\<lambda>t. preferredUpstream (fl_aggregation (rt_flow t))) (rr_flows (rb_Router bundle)) = [1]"
  by (simp add: NewRouter_def attempt_def pass_on_def NewResource_def initMetrics_def NewOtelPrometheus_def
      metric_New_def instruments_def initTracing_def sample_config_def sample_build_env_def Let_def
      sample_flow_section_def compileFlow_def buildUpstream_def buildUpstreamTLSConfig_def
      sample_upstream_section_def flow_aggregation_def initAggregation_def compileStrategy_def
      compileConflictPolicy_def searchUpstream_def httpUpstream.defs buildUpstreamConfig_def initPlugins_def
      initMiddlewares_def registerFlows_def registered_def)

lemma sample_config_retries: "sane_retries sample_config"
  by (simp add: sane_retries_def sample_config_def sample_flow_section_def sample_upstream_section_def)

section \<open>Properties\<close>

text \<open>
  C11. A configuration that was validated compiles without a panic, whatever the files, shared
  objects and exporters do, provided \<^verbatim>\<open>chi\<close> accepts the methods and patterns of its flows: no
  missing section is dereferenced.
\<close>

theorem validated_config_compiles:
  assumes "validator_sound libs" "ValidateConfig libs cfg0 = Inr cfg"
    and "\<forall>f \<in> set (rou_Flows (cfg_Routing cfg)). be_chi env (flc_Method f) (flc_Path f)"
  shows "\<exists>result. NewRouter env version cfg = Some result"
proof -
  have flows: "\<exists>y. compile_flows env nets (rou_Flows (cfg_Routing cfg)) bs = Some y" for nets bs
    using validated [OF assms(1,2)] compile_flows_defined by blast
  have reg: "\<exists>r'. registerFlows env \<lparr>rr_flows = ts, rr_trustedProxies = nets, rr_rateLimiter = l\<rparr> = Some r'"
    if "compile_flows env nets (rou_Flows (cfg_Routing cfg)) bs = Some (Inr (ts, bs'))" for nets bs bs' ts l
  proof -
    have "list_all2 (route_matches nets) (rou_Flows (cfg_Routing cfg)) ts"
      by (rule compile_flows_matches(1) [OF that])
    then have "\<forall>t \<in> set ts. be_chi env (fl_method (rt_flow t)) (fl_path (rt_flow t))"
      using assms(3) by (fastforce simp: list_all2_conv_all_nth in_set_conv_nth route_matches_def)
    then show ?thesis by (simp add: registerFlows_def registered_def list_all_iff)
  qed
  show ?thesis
    unfolding NewRouter_def Let_def
    by (auto intro!: attempt_defined pass_on_defined flows reg)
qed

theorem validated_config_compiles_witness:
  "\<exists>result. NewRouter sample_build_env ''1.0'' sample_config = Some result"
  by (rule validated_config_compiles [OF sample_libs_sound sample_config_valid]) (simp add: sample_build_env_def)

text \<open>
  C7. The router of a validated configuration is the configuration: a route per flow, in order, with
  its path, method and mode, its upstreams built from theirs and each with a host to call and a
  connection counter per host; a streaming flow has exactly one upstream, and a flow with
  several aggregates with the configured strategy and conflict policy, preferring the first
  upstream of the configured name.
\<close>

theorem router_matches_config:
  assumes "validator_sound libs" "ValidateConfig libs cfg0 = Inr cfg"
    and "NewRouter env version cfg = Some (Inr bundle)"
  shows "list_all2
      (\<lambda>c t. route_matches (rr_trustedProxies (rb_Router bundle)) c t \<and>
             map (\<lambda>u. uc_name (hu_cfg u)) (fl_upstreams (rt_flow t)) = map upc_Name (flc_Upstreams c) \<and>
             list_all upstream_wf (fl_upstreams (rt_flow t)))
      (rou_Flows (cfg_Routing cfg)) (rr_flows (rb_Router bundle))"
proof -
  let ?nets = "rr_trustedProxies (rb_Router bundle)"
  have m: "list_all2 (route_matches ?nets) (rou_Flows (cfg_Routing cfg)) (rr_flows (rb_Router bundle))"
    using NewRouter_Inr [OF assms(3)] compile_flows_matches(1) by blast
  have "map (\<lambda>u. uc_name (hu_cfg u)) (fl_upstreams (rt_flow t)) = map upc_Name (flc_Upstreams c) \<and>
      list_all upstream_wf (fl_upstreams (rt_flow t))"
    if "route_matches ?nets c t" "c \<in> set (rou_Flows (cfg_Routing cfg))" for c t
  proof -
    have us: "list_all2 (built_from ?nets) (flc_Upstreams c) (fl_upstreams (rt_flow t))"
      using that(1) by (simp add: route_matches_def)
    have "list_all UpstreamConfig_tags (flc_Upstreams c)"
      using validated(1) [OF assms(1,2)] that(2) by (auto simp: list_all_iff FlowConfig_tags_def)
    with us show ?thesis
      by (induction rule: list_all2_induct)
        (auto simp: UpstreamConfig_tags_def built_from_name built_from_wf)
  qed
  with m show ?thesis by (auto simp: list_all2_conv_all_nth)
qed

theorem router_matches_config_witness:
  "\<exists>bundle. NewRouter sample_build_env ''1.0'' sample_config = Some (Inr bundle) \<and>
     list_all2 (\<lambda>c t. route_matches (rr_trustedProxies (rb_Router bundle)) c t \<and>
         map (\<lambda>u. uc_name (hu_cfg u)) (fl_upstreams (rt_flow t)) = map upc_Name (flc_Upstreams c) \<and>
         list_all upstream_wf (fl_upstreams (rt_flow t)))
       (rou_Flows (cfg_Routing sample_config)) (rr_flows (rb_Router bundle))"
proof -
  from sample_config_builds obtain rb where b: "NewRouter sample_build_env ''1.0'' sample_config = Some (Inr rb)"
    by blast
  with router_matches_config [OF sample_libs_sound sample_config_valid b] show ?thesis by blast
qed

text \<open>
  End to end: a gateway built from a validated configuration without negative retry counts
  answers every request of every sequence of requests, provided its plugins and middlewares
  behave and its upstreams answer with final statuses.
\<close>

theorem configured_gateway_answers:
  assumes "validator_sound libs" "ValidateConfig libs cfg0 = Inr cfg" "sane_retries cfg"
    and "NewRouter env version cfg = Some (Inr bundle)"
    and "\<forall>f \<in> set (rou_Flows (cfg_Routing cfg)). tame_modules (be_so env) f"
    and "chi_sound chi (rb_Router bundle)" "list_all arrival_ok as"
  shows "\<exists>ws r'. serve_all chi as (rb_Router bundle) = Some (ws, r') \<and> length ws = length as \<and>
    list_all (\<lambda>w. rw_sent w \<noteq> None) ws"
  using serve_all_answers [OF assms(7,6) configured_live [OF assms(1-5)]] by blast

theorem configured_gateway_answers_witness:
  "\<exists>bundle ws r'. NewRouter sample_build_env ''1.0'' sample_config = Some (Inr bundle) \<and>
     serve_all sample_mux [sample_arrival] (rb_Router bundle) = Some (ws, r') \<and>
     length ws = length [sample_arrival] \<and> list_all (\<lambda>w. rw_sent w \<noteq> None) ws"
proof -
  from sample_config_builds obtain rb where b: "NewRouter sample_build_env ''1.0'' sample_config = Some (Inr rb)"
    by blast
  have mods: "\<forall>f \<in> set (rou_Flows (cfg_Routing sample_config)). tame_modules (be_so sample_build_env) f"
    by (simp add: sample_config_def sample_flow_section_def tame_modules_def)
  have chi: "chi_sound sample_mux (rb_Router rb)"
    by (auto simp: chi_sound_def sample_mux_def registered_def rw_WriteHeader_def split: if_splits)
  show ?thesis
    using configured_gateway_answers [OF sample_libs_sound sample_config_valid sample_config_retries b mods chi,
        of "[sample_arrival]"] b sample_arrival_ok by (auto simp del: serve_all.simps)
qed

text \<open>
  C18. No placeholder of a validated configuration goes out unresolved: when the router has a value
  without an opening brace for every parameter of a flow's pattern, the path that an upstream of
  the flow is called with has no parameter left.
\<close>

theorem validated_paths_resolved:
  assumes "ValidateConfig libs cfg0 = Inr cfg"
    and "f \<in> set (rou_Flows (cfg_Routing cfg))" "u \<in> set (flc_Upstreams f)"
    and "\<forall>n \<in> set (path_params (flc_Path f)). URLParam ext req n \<noteq> [] \<and> CHR ''{'' \<notin> set (URLParam ext req n)"
  shows "path_params (expandPathParams ext (upc_Path u) req) = []"
proof -
  have "flow_valid f" using assms(1,2) by (auto simp: ValidateConfig_Inr list_all_iff)
  with assms(3) have "set (path_params (upc_Path u)) \<subseteq> set (path_params (flc_Path f))"
    by (auto simp: flow_valid_def)
  with assms(4) show ?thesis unfolding expandPathParams_def by (intro path_params_replaced) auto
qed

theorem validated_paths_resolved_witness:
  "path_params (expandPathParams sample_externals (upc_Path (sample_upstream_section ''users'' ''/u/{id}'')) sample_request) = []"
proof -
  have "path_params ''/users/{id}'' = [''id'']" by code_simp
  then show ?thesis
    by (intro validated_paths_resolved [OF sample_config_valid, of sample_flow_section])
      (simp_all add: sample_config_def sample_flow_section_def sample_externals_def)
qed

end
