(* ===== verification/OpenAPI_Roundtrip.thy ===== *)
theory OpenAPI_Roundtrip
  imports OpenAPI_Import Builder "HOL-Library.Multiset"
begin

text \<open>
  What the export documents and what an import makes of a document: the slots of the path items, the
  operations of a document, the flows that come back from an export with extensions, and the flows made up for
  documents of other origin.
\<close>

section \<open>What an extension restores\<close>

text \<open>Durations fit in 64 bits.\<close>

definition is_duration :: "duration \<Rightarrow> bool" where
  "is_duration d \<longleftrightarrow> min_i64 \<le> d \<and> d \<le> max_i64"

definition upstream_durations :: "UpstreamConfig \<Rightarrow> bool" where
  "upstream_durations u \<longleftrightarrow>
     is_duration (upc_Timeout u) \<and> is_duration (rtc_BackoffDelay (pol_RetryConfig (upc_Policy u))) \<and>
     is_duration (cbc_ResetTimeout (pol_CircuitBreakerConfig (upc_Policy u))) \<and>
     is_duration (trn_IdleConnTimeout (upc_Transport u))"

definition restored_transport :: "openapi_env \<Rightarrow> TransportConfig \<Rightarrow> TransportConfig" where
  "restored_transport env t =
     (if t = zero_transport \<or> t = default_transport env then default_transport env else t\<lparr>trn_HTTP2 := []\<rparr>)"

definition restored_upstream :: "openapi_env \<Rightarrow> UpstreamConfig \<Rightarrow> UpstreamConfig" where
  "restored_upstream env u = u\<lparr>
     upc_Hosts := (if upc_Hosts u = [] then [placeholderHost] else upc_Hosts u),
     upc_Transport := restored_transport env (upc_Transport u),
     upc_TLS := zero_tls\<lparr>tls_Enabled := tls_Enabled (upc_TLS u)\<rparr>\<rparr>"

definition restored_flow :: "openapi_env \<Rightarrow> FlowConfig \<Rightarrow> FlowConfig" where
  "restored_flow env f = f\<lparr>flc_Upstreams := map (restored_upstream env) (flc_Upstreams f), flc_Plugins := [],
     flc_Middlewares := []\<rparr>"

lemma parse_printed [simp]:
  "is_duration d \<Longrightarrow> ParseDuration (Duration_String d) = Some d"
  by (simp add: is_duration_def ParseDuration_String)

lemma Duration_String_ne [simp]: "is_duration d \<Longrightarrow> Duration_String d \<noteq> []"
proof -
  have "ParseDuration [] = None" by (simp add: ParseDuration_def)
  then show "is_duration d \<Longrightarrow> ?thesis" by (metis option.distinct(1) parse_printed)
qed

lemma parseDurationOr_printed [simp]:
  "is_duration d \<Longrightarrow> parseDurationOr env (Duration_String d) fb flowID up field = (d, [])"
  by (simp add: parseDurationOr_def)

lemma reconstructPolicy_printed:
  assumes "policyExtension p = Some px" "is_duration (rtc_BackoffDelay (pol_RetryConfig p))"
    "is_duration (cbc_ResetTimeout (pol_CircuitBreakerConfig p))"
  shows "reconstructPolicy env px flowID up = (p, [])"
  using assms
  by (auto simp: policyExtension_def reconstructPolicy_def Let_def split: if_splits)

lemma reconstruct_policy_printed:
  assumes "upstream_durations u"
  shows "(case policyExtension (upc_Policy u) of None \<Rightarrow> (zero_policy, [])
    | Some p \<Rightarrow> reconstructPolicy env p flowID up) = (upc_Policy u, [])"
proof (cases "policyExtension (upc_Policy u)")
  case None
  then show ?thesis by (simp add: policyExtension_def split: if_splits)
next
  case (Some px)
  with assms reconstructPolicy_printed [OF Some] show ?thesis by (simp add: upstream_durations_def)
qed

lemma reconstruct_transport_printed:
  assumes "upstream_durations u"
  shows "(case transportExtension env (upc_Transport u) of None \<Rightarrow> (default_transport env, [])
    | Some t \<Rightarrow> (case parseDurationOr env (tx_IdleConnTimeout t) 0 flowID up field of
        (d, ws) \<Rightarrow> (\<lparr>trn_MaxIdleConns = tx_MaxIdleConns t, trn_MaxIdleConnsPerHost = tx_MaxIdleConnsPerHost t,
          trn_IdleConnTimeout = d, trn_HTTP2 = []\<rparr>, ws))) = (restored_transport env (upc_Transport u), [])"
  using assms by (simp add: upstream_durations_def transportExtension_def restored_transport_def)

lemma reconstruct_printed:
  assumes "upstream_durations u"
  shows "fst (reconstruct_upstream env flowID (upstream_extension env u)) = restored_upstream env u"
proof -
  define x where "x = upstream_extension env u"
  have sel: "ux_Name x = upc_Name u" "ux_Hosts x = upc_Hosts u" "ux_Path x = upc_Path u" "ux_Method x = upc_Method u"
    "ux_Timeout x = Duration_String (upc_Timeout u)" "ux_ForwardHeaders x = upc_ForwardHeaders u"
    "ux_ForwardQueries x = upc_ForwardQueries u" "ux_ForwardParams x = upc_ForwardParams u"
    "ux_TLSEnabled x = tls_Enabled (upc_TLS u)" "ux_Policy x = policyExtension (upc_Policy u)"
    "ux_Transport x = transportExtension env (upc_Transport u)" by (simp_all add: x_def upstream_extension_def)
  have timeout: "Duration_String (upc_Timeout u) \<noteq> []" "ParseDuration (Duration_String (upc_Timeout u)) = Some (upc_Timeout u)"
    using assms by (simp_all add: upstream_durations_def)
  have "fst (reconstruct_upstream env flowID x) = restored_upstream env u"
    unfolding reconstruct_upstream_def Let_def sel reconstruct_policy_printed [OF assms]
      reconstruct_transport_printed [OF assms] timeout(2)
    using timeout(1) by (cases "upc_Hosts u = []"; cases "tls_Enabled (upc_TLS u)")
      (simp_all add: restored_upstream_def zero_tls_def)
  then show ?thesis by (simp add: x_def)
qed

lemma reconstructAggregation_printed: "reconstructAggregation (aggregation_extension a) = a"
  by (cases "agc_OnConflict a") (simp_all add: reconstructAggregation_def aggregation_extension_def)

lemma reconstructFlow_printed:
  assumes "list_all upstream_durations (flc_Upstreams f)"
  shows "fst (reconstructFlow env (flc_Path f) (flc_Method f) (flowExtension env f)) = restored_flow env f"
proof -
  have "map (fst \<circ> (reconstruct_upstream env flowID \<circ> upstream_extension env)) (flc_Upstreams f) =
      map (restored_upstream env) (flc_Upstreams f)" for flowID
    using assms by (auto simp: list_all_iff reconstruct_printed)
  moreover have "map_option (reconstructAggregation \<circ> aggregation_extension) (flc_Aggregation f) = flc_Aggregation f"
    by (simp add: o_def reconstructAggregation_printed option.map_ident)
  ultimately show ?thesis
    by (simp add: reconstructFlow_def flowExtension_def Let_def restored_flow_def option.map_comp o_def)
qed

section \<open>Slots and operations\<close>

definition all_slots :: "(string \<times> (PathItem \<Rightarrow> Operation option)) list" where
  "all_slots = methodSlots @ [(methodQuery, it_XAastroQuery)]"

definition slot_get :: "string \<Rightarrow> PathItem \<Rightarrow> Operation option" where
  "slot_get meth item = (case map_of all_slots meth of None \<Rightarrow> None | Some get \<Rightarrow> get item)"

definition slot_methods :: "string list" where
  "slot_methods = map fst all_slots"

lemma slot_methods: "slot_methods = [''GET'', ''PUT'', ''POST'', ''DELETE'', ''OPTIONS'', ''HEAD'', ''PATCH'', ''QUERY'']"
  by (simp add: slot_methods_def all_slots_def methodSlots_def methodQuery_def)

lemma slot_put:
  "meth \<in> set slot_methods \<Longrightarrow> slot_get m (put_slot meth op item) = (if m = meth then Some op else slot_get m item)"
  unfolding slot_methods
  by (auto simp: slot_get_def all_slots_def methodSlots_def methodQuery_def put_slot_def)

lemma slot_zero [simp]: "slot_get m zero_item = None"
  by (simp add: slot_get_def all_slots_def methodSlots_def methodQuery_def zero_item_def)

text \<open>The operation of a document under a path and a method.\<close>

definition slot_of :: "(string, PathItem option) gomap \<Rightarrow> string \<times> string \<Rightarrow> Operation option" where
  "slot_of paths pm =
     (case map_of paths (fst pm) of Some (Some item) \<Rightarrow> slot_get (snd pm) item | _ \<Rightarrow> None)"

definition flow_key :: "FlowConfig \<Rightarrow> string \<times> string" where
  "flow_key f = (flc_Path f, flc_Method f)"

lemma slot_of_update:
  "slot_of (AList.update path (Some item) paths) pm = (if fst pm = path then slot_get (snd pm) item else slot_of paths pm)"
  by (simp add: slot_of_def update_conv')

lemma attachOperation_slot:
  assumes "attachOperation env item f op = (item', ws)"
  shows "(ws = [] \<or> (\<exists>w. ws = [w] \<and> wa_Flow w = flc_Method f @ '' '' @ flc_Path f)) \<and>
    (if flc_Method f \<in> set slot_methods \<and> slot_get (flc_Method f) item = None
     then item' = put_slot (flc_Method f) op item else item' = item \<and> ws \<noteq> [])"
proof (cases "flc_Method f = methodQuery")
  case True
  have "slot_get methodQuery item = it_XAastroQuery item" "methodQuery \<in> set slot_methods"
    by (simp_all add: slot_get_def all_slots_def methodSlots_def methodQuery_def slot_methods)
  with True assms show ?thesis by (auto simp: attachOperation_def Let_def split: if_splits)
next
  case False
  then have "map_of all_slots (flc_Method f) = map_of methodSlots (flc_Method f)"
    by (simp add: all_slots_def methodSlots_def methodQuery_def)
  moreover have "flc_Method f \<in> set slot_methods \<longleftrightarrow> map_of methodSlots (flc_Method f) \<noteq> None"
    using False by (auto simp: slot_methods methodSlots_def methodQuery_def)
  ultimately show ?thesis
    using False assms by (auto simp: attachOperation_def slot_get_def Let_def split: if_splits option.splits)
qed

text \<open>The operation that the export makes of a flow.\<close>

definition exported_operation :: "openapi_env \<Rightarrow> bool \<Rightarrow> bool \<Rightarrow> FlowConfig \<Rightarrow> Operation" where
  "exported_operation env rateLimited extensions f =
     (let op0 = buildOperation env f (findAuthMiddleware f) rateLimited extensions; tag = firstPathSegment (flc_Path f) in
      if tag \<noteq> [] then op0\<lparr>op_Tags := [tag]\<rparr> else op0)"

lemma exported_operation_simps:
  "op_XAastro (exported_operation env rl ext f) = (if ext then Some (flowExtension env f) else None)"
  "op_Responses (exported_operation env rl ext f) = op_Responses (buildOperation env f (findAuthMiddleware f) rl ext)"
  by (simp_all add: exported_operation_def buildOperation_def Let_def split: prod.splits)

text \<open>One flow fills its slot if that is free, and otherwise leaves a warning.\<close>

lemma export_flow_step:
  obtains ws where "es_warnings (export_flow env rl ext f s) = es_warnings s @ ws"
    and "slot_of (es_paths (export_flow env rl ext f s)) pm =
      (if pm = flow_key f \<and> flc_Method f \<in> set slot_methods \<and> slot_of (es_paths s) pm = None
       then Some (exported_operation env rl ext f) else slot_of (es_paths s) pm)"
    and "flc_Method f \<in> set slot_methods \<and> slot_of (es_paths s) (flow_key f) = None \<or>
      (\<exists>w \<in> set ws. wa_Flow w = flc_Method f @ '' '' @ flc_Path f)"
    and "map fst (es_paths (export_flow env rl ext f s)) = map fst (AList.update (flc_Path f) None (es_paths s))"
proof -
  let ?op = "exported_operation env rl ext f"
  define item where "item = (case map_of (es_paths s) (flc_Path f) of Some (Some item) \<Rightarrow> item | _ \<Rightarrow> zero_item)"
  obtain item' ws where at: "attachOperation env item f ?op = (item', ws)" by force
  have s': "es_paths (export_flow env rl ext f s) = AList.update (flc_Path f) (Some item') (es_paths s)"
    "es_warnings (export_flow env rl ext f s) = es_warnings s @ ws"
    using at by (simp_all add: export_flow_def exported_operation_def item_def Let_def)
  have get: "slot_get m item = slot_of (es_paths s) (flc_Path f, m)" for m
    by (auto simp: item_def slot_of_def split: option.splits)
  note step = attachOperation_slot [OF at, unfolded get]
  have "slot_get m item' = (if m = flc_Method f \<and> m \<in> set slot_methods \<and> slot_of (es_paths s) (flc_Path f, m) = None
      then Some ?op else slot_of (es_paths s) (flc_Path f, m))" for m
    using step by (auto simp: slot_put get split: if_splits)
  then have "slot_of (es_paths (export_flow env rl ext f s)) pm =
      (if pm = flow_key f \<and> flc_Method f \<in> set slot_methods \<and> slot_of (es_paths s) pm = None then Some ?op
       else slot_of (es_paths s) pm)"
    unfolding s' slot_of_update by (cases pm) (auto simp: flow_key_def)
  moreover have "flc_Method f \<in> set slot_methods \<and> slot_of (es_paths s) (flow_key f) = None \<or>
      (\<exists>w \<in> set ws. wa_Flow w = flc_Method f @ '' '' @ flc_Path f)"
    using step by (auto simp: flow_key_def split: if_splits)
  moreover have "map fst (es_paths (export_flow env rl ext f s)) = map fst (AList.update (flc_Path f) None (es_paths s))"
    by (simp add: s' update_keys)
  ultimately show thesis using that s'(2) by blast
qed

lemma export_flows_slots:
  "slot_of (es_paths (fold (export_flow env rl ext) fs s)) pm =
     (case slot_of (es_paths s) pm of
        Some op \<Rightarrow> Some op
      | None \<Rightarrow> map_option (exported_operation env rl ext)
          (find (\<lambda>f. flow_key f = pm \<and> flc_Method f \<in> set slot_methods) fs))"
proof (induction fs arbitrary: s)
  case Nil
  then show ?case by (simp split: option.splits)
next
  case (Cons f fs)
  obtain ws where "slot_of (es_paths (export_flow env rl ext f s)) pm =
      (if pm = flow_key f \<and> flc_Method f \<in> set slot_methods \<and> slot_of (es_paths s) pm = None
       then Some (exported_operation env rl ext f) else slot_of (es_paths s) pm)"
    by (rule export_flow_step [of env rl ext f s pm])
  with Cons.IH [of "export_flow env rl ext f s"] show ?case by (auto split: option.splits)
qed

lemma export_flows_paths:
  "distinct (map fst (es_paths s)) \<Longrightarrow> distinct (map fst (es_paths (fold (export_flow env rl ext) fs s)))"
proof (induction fs arbitrary: s)
  case (Cons f fs)
  obtain ws where "map fst (es_paths (export_flow env rl ext f s)) = map fst (AList.update (flc_Path f) None (es_paths s))"
    by (rule export_flow_step [of env rl ext f s])
  with Cons.IH [of "export_flow env rl ext f s"] Cons.prems show ?case by (simp add: distinct_update)
qed simp

section \<open>The operations of a document\<close>

lemma slot_get_fields:
  "slot_get ''GET'' = it_Get" "slot_get ''PUT'' = it_Put" "slot_get ''POST'' = it_Post" "slot_get ''DELETE'' = it_Delete"
  "slot_get ''OPTIONS'' = it_Options" "slot_get ''HEAD'' = it_Head" "slot_get ''PATCH'' = it_Patch"
  "slot_get ''QUERY'' = it_XAastroQuery"
  by (simp_all add: slot_get_def all_slots_def methodSlots_def methodQuery_def fun_eq_iff)

lemma map_filter_pairs:
  "(\<And>m g. (m, g) \<in> set xs \<Longrightarrow> G m = F m g) \<Longrightarrow> List.map_filter (\<lambda>(m, g). F m g) xs = List.map_filter G (map fst xs)"
proof (induction xs)
  case (Cons x xs)
  obtain m g where x: "x = (m, g)" by force
  with Cons.prems have eq: "G m = F m g" by simp
  have "List.map_filter (\<lambda>(m, g). F m g) xs = List.map_filter G (map fst xs)" using Cons by simp
  then show ?case by (cases "F m g") (simp_all add: x List.map_filter_simps eq)
qed (simp add: List.map_filter_simps)

lemma item_operations_slots:
  "item_operations path item = List.map_filter (\<lambda>m. map_option (\<lambda>op. (path, m, op)) (slot_get m item)) slot_methods"
  unfolding item_operations_def slot_methods_def all_slots_def
  by (rule map_filter_pairs) (auto simp: methodSlots_def methodQuery_def slot_get_fields)

lemma map_filter_keys:
  "map (\<lambda>(p, m, op). (p, m)) (List.map_filter (\<lambda>m. map_option (\<lambda>op. (path, m, op)) (g m)) ms) =
     map (Pair path) (filter (\<lambda>m. g m \<noteq> None) ms)"
  by (induction ms) (auto simp: List.map_filter_simps split: option.splits)

lemma set_map_filter_keys:
  "set (List.map_filter (\<lambda>m. map_option (\<lambda>op. (path, m, op)) (g m)) ms) = {(path, m, op) | m op. m \<in> set ms \<and> g m = Some op}"
  by (induction ms) (auto simp: List.map_filter_simps split: option.splits)

lemma distinct_keyed_concat:
  assumes "distinct ps" "\<And>p. distinct (map key (g p))" "\<And>p x. x \<in> set (g p) \<Longrightarrow> fst (key x) = p"
  shows "distinct (map key (concat (map g ps)))"
  using assms(1)
proof (induction ps)
  case (Cons p ps)
  have "fst k \<noteq> p" if "k \<in> set (map key (concat (map g ps)))" for k
    using that Cons.prems assms(3) by auto
  moreover have "fst k = p" if "k \<in> set (map key (g p))" for k using that assms(3) by auto
  ultimately have "set (map key (g p)) \<inter> set (map key (concat (map g ps))) = {}" by blast
  with Cons assms(2) show ?case by simp
qed simp

definition operation_key :: "string \<times> string \<times> Operation \<Rightarrow> string \<times> string" where
  "operation_key pmo = (case pmo of (p, m, op) \<Rightarrow> (p, m))"

lemma operations_set:
  assumes "distinct (map fst (doc_Paths doc))"
  shows "(p, m, op) \<in> set (operations doc) \<longleftrightarrow> slot_of (doc_Paths doc) (p, m) = Some op"
proof -
  have slot: "m \<in> set slot_methods" if "slot_get m item = Some op" for item
    using that by (force simp: slot_get_def slot_methods_def dest: map_of_SomeD split: option.splits)
  let ?g = "\<lambda>path. case map_of (doc_Paths doc) path of Some (Some item) \<Rightarrow> item_operations path item | _ \<Rightarrow> []"
  have g: "(p, m, op) \<in> set (?g path) \<longleftrightarrow>
      path = p \<and> (\<exists>item. map_of (doc_Paths doc) p = Some (Some item) \<and> slot_get m item = Some op)" for path
    by (cases "map_of (doc_Paths doc) path"; cases "the (map_of (doc_Paths doc) path)")
      (auto simp: item_operations_slots set_map_filter_keys slot)
  have "p \<in> set (sortedPaths (doc_Paths doc))" if "map_of (doc_Paths doc) p \<noteq> None"
    using that by (simp add: sortedPaths_def map_of_eq_None_iff)
  then have "(p, m, op) \<in> set (operations doc) \<longleftrightarrow>
      (\<exists>item. map_of (doc_Paths doc) p = Some (Some item) \<and> slot_get m item = Some op)"
    unfolding operations_def set_concat set_map using g by fastforce
  then show ?thesis by (auto simp: slot_of_def split: option.splits)
qed

lemma operations_distinct:
  assumes "distinct (map fst (doc_Paths doc))" shows "distinct (map operation_key (operations doc))"
  unfolding operations_def
proof (rule distinct_keyed_concat)
  let ?g = "\<lambda>path. case map_of (doc_Paths doc) path of Some (Some item) \<Rightarrow> item_operations path item | _ \<Rightarrow> []"
  show "distinct (sortedPaths (doc_Paths doc))" using assms by (simp add: sortedPaths_def)
  have keys: "map operation_key (item_operations path item) = map (Pair path) (filter (\<lambda>m. slot_get m item \<noteq> None) slot_methods)"
    for path item unfolding operation_key_def item_operations_slots by (rule map_filter_keys)
  have "distinct slot_methods" by (simp add: slot_methods)
  then have "distinct (map operation_key (item_operations path item))" for path item
    unfolding keys by (simp add: distinct_map inj_on_def)
  then show "distinct (map operation_key (?g path))" for path by (simp split: option.splits)
  show "fst (operation_key x) = path" if "x \<in> set (?g path)" for path x
    using that by (auto simp: item_operations_slots set_map_filter_keys operation_key_def split: option.splits)
qed

lemma import_flows:
  "is_flows (fold (handle_operation env doc mode opts) ops s) =
     is_flows s @ map (\<lambda>(p, m, op). fst (convertOperation env doc p m op mode opts)) ops"
  "is_rateLimited (fold (handle_operation env doc mode opts) ops s) \<longleftrightarrow>
     is_rateLimited s \<or> (\<exists>(p, m, op) \<in> set ops. map_of (op_Responses op) ''429'' \<noteq> None)"
  by (induction ops arbitrary: s) (auto simp: handle_operation_def split: prod.splits)

section \<open>Properties\<close>

lemma map_of_respond: "map_of (respond c r rs) c' = (if c' = c then Some (Some r) else map_of rs c')"
  by (simp add: respond_def update_conv')

text \<open>The statuses that the responses document.\<close>

lemma dom_respond: "dom (map_of (respond c r rs)) = insert c (dom (map_of rs))"
  by (auto simp: map_of_respond split: if_splits)

lemma documented_statuses:
  "dom (map_of (streamingResponses rl)) = {''200'', ''502'', ''500''} \<union> (if rl then {''429''} else {})"
  "dom (map_of (proxyResponses rl)) = {''200'', ''413'', ''502'', ''500''} \<union> (if rl then {''429''} else {})"
  by (auto simp: streamingResponses_def proxyResponses_def rate_limited_response_def dom_respond)

lemma documented_statuses_aggregate:
  "dom (map_of (aggregateResponses f rl)) =
     {''200'', ''413'', ''502'', ''500'', ''default''} \<union> (if rl then {''429''} else {}) \<union>
     (case flc_Aggregation f of None \<Rightarrow> {} | Some a \<Rightarrow>
        (if agc_BestEffort a \<and> length (flc_Upstreams f) > 1 then {''206''} else {}) \<union>
        (if agc_Strategy a = ''merge'' \<and> (case agc_OnConflict a of None \<Rightarrow> False | Some oc \<Rightarrow> onc_Policy oc = ''error'')
         then {''409''} else {}))"
proof (cases "flc_Aggregation f")
  case None
  then show ?thesis by (auto simp: aggregateResponses_def rate_limited_response_def dom_respond)
next
  case (Some a)
  define be where "be \<longleftrightarrow> agc_BestEffort a \<and> length (flc_Upstreams f) > 1"
  define err where
    "err \<longleftrightarrow> agc_Strategy a = ''merge'' \<and> (case agc_OnConflict a of None \<Rightarrow> False | Some oc \<Rightarrow> onc_Policy oc = ''error'')"
  show ?thesis
    unfolding aggregateResponses_def Let_def rate_limited_response_def Some option.case be_def [symmetric] err_def [symmetric]
    by (cases be; cases err; cases rl) (simp_all add: dom_respond insert_commute)
qed

lemma responses_429:
  "''429'' \<in> dom (map_of (streamingResponses rl)) \<longleftrightarrow> rl"
  "''429'' \<in> dom (map_of (proxyResponses rl)) \<longleftrightarrow> rl"
  "''429'' \<in> dom (map_of (aggregateResponses f rl)) \<longleftrightarrow> rl"
  unfolding documented_statuses documented_statuses_aggregate by (simp_all split: option.splits)

lemma buildOperation_Responses:
  "op_Responses (buildOperation env f auth rl ext) =
     (let rs = (if flc_Streaming f then streamingResponses rl
                else if length (flc_Upstreams f) = 1 then proxyResponses rl else aggregateResponses f rl)
      in if auth \<noteq> None then respond ''401'' unauthorizedResponse rs else rs)"
  unfolding buildOperation_def by (auto simp: Let_def simp del: Join.simps)

lemma export_429: "map_of (op_Responses (buildOperation env f auth rl ext)) ''429'' = None \<longleftrightarrow> \<not> rl"
proof -
  have "''429'' \<in> dom (map_of (op_Responses (buildOperation env f auth rl ext))) \<longleftrightarrow> rl"
    unfolding buildOperation_Responses Let_def
    by (cases "auth = None"; cases "flc_Streaming f"; cases "length (flc_Upstreams f) = 1")
      (simp_all only: dom_respond responses_429 if_True if_False insert_iff simp_thms, simp_all)
  then show ?thesis unfolding domIff by blast
qed

text \<open>The document of an export, in terms of its slots.\<close>

lemma FromConfig_state:
  assumes "FromConfig env cfg opts = Inr (doc, ws)"
  defines "s \<equiv> fold (export_flow env (rlc_Enabled (rou_RateLimiter (cfg_Routing cfg))) (eo_Extensions opts))
    (rou_Flows (cfg_Routing cfg)) \<lparr>es_paths = [], es_tags = [], es_auth = False, es_warnings = []\<rparr>"
  shows "doc_Paths doc = es_paths s" "ws = es_warnings s"
  using assms by (auto simp: FromConfig_def Let_def simp del: coalesce.simps split: sum.splits)

lemma FromConfig_doc:
  assumes "FromConfig env cfg opts = Inr (doc, ws)"
  shows "distinct (map fst (doc_Paths doc))"
    and "slot_of (doc_Paths doc) pm =
      map_option (exported_operation env (rlc_Enabled (rou_RateLimiter (cfg_Routing cfg))) (eo_Extensions opts))
        (find (\<lambda>f. flow_key f = pm \<and> flc_Method f \<in> set slot_methods) (rou_Flows (cfg_Routing cfg)))"
    and "doc_XAastro doc = Some \<lparr>rx_Schema = cfg_Schema cfg, rx_Generator = ''aastroctl/'' @ coalesce [eo_GeneratorVersion opts, ''dev'']\<rparr>"
    and "in_Title (doc_Info doc) = coalesce [eo_Title opts, cfg_ServiceName cfg, ''aastro gateway'']"
proof -
  note doc = FromConfig_state [OF assms]
  show "distinct (map fst (doc_Paths doc))" unfolding doc(1) by (rule export_flows_paths) simp
  show "slot_of (doc_Paths doc) pm =
      map_option (exported_operation env (rlc_Enabled (rou_RateLimiter (cfg_Routing cfg))) (eo_Extensions opts))
        (find (\<lambda>f. flow_key f = pm \<and> flc_Method f \<in> set slot_methods) (rou_Flows (cfg_Routing cfg)))"
    unfolding doc(1) by (simp add: export_flows_slots slot_of_def [of "[]"])
qed (use assms in \<open>auto simp: FromConfig_def Let_def simp del: coalesce.simps split: sum.splits\<close>)

lemma find_unique:
  "distinct (map k xs) \<Longrightarrow> x \<in> set xs \<Longrightarrow> P x \<Longrightarrow> find (\<lambda>y. k y = k x \<and> P y) xs = Some x"
  by (induction xs) auto

lemma exported_operations:
  assumes "FromConfig env cfg opts = Inr (doc, ws)" "flows = rou_Flows (cfg_Routing cfg)" "distinct (map flow_key flows)"
    and "list_all (\<lambda>f. flc_Method f \<in> set slot_methods) flows"
  shows "set (operations doc) = (\<lambda>f. (flc_Path f, flc_Method f,
      exported_operation env (rlc_Enabled (rou_RateLimiter (cfg_Routing cfg))) (eo_Extensions opts) f)) ` set flows"
proof -
  let ?op = "exported_operation env (rlc_Enabled (rou_RateLimiter (cfg_Routing cfg))) (eo_Extensions opts)"
  have "slot_of (doc_Paths doc) (p, m) = Some op \<longleftrightarrow> (\<exists>f \<in> set flows. flow_key f = (p, m) \<and> op = ?op f)" for p m op
  proof
    assume "slot_of (doc_Paths doc) (p, m) = Some op"
    then show "\<exists>f \<in> set flows. flow_key f = (p, m) \<and> op = ?op f"
      unfolding FromConfig_doc(2) [OF assms(1)] assms(2) [symmetric] by (auto simp: find_Some_iff)
  next
    assume "\<exists>f \<in> set flows. flow_key f = (p, m) \<and> op = ?op f"
    then obtain f where f: "f \<in> set flows" "flow_key f = (p, m)" "op = ?op f" by blast
    then have "find (\<lambda>g. flow_key g = (p, m) \<and> flc_Method g \<in> set slot_methods) flows = Some f"
      using find_unique [OF assms(3) f(1), of "\<lambda>g. flc_Method g \<in> set slot_methods"] assms(4) by (simp add: list_all_iff)
    with f(3) show "slot_of (doc_Paths doc) (p, m) = Some op"
      unfolding FromConfig_doc(2) [OF assms(1)] assms(2) [symmetric] by simp
  qed
  then show ?thesis
    using operations_set [OF FromConfig_doc(1) [OF assms(1)]] by (auto simp: flow_key_def image_iff)
qed

lemma validated_tags: "validator_sound libs \<Longrightarrow> ValidateConfig libs cfg0 = Inr cfg \<Longrightarrow> tags_hold cfg"
  by (auto simp: ValidateConfig_Inr validator_sound_def)

lemma reimported_flows:
  assumes "tags_hold cfg" "flows = rou_Flows (cfg_Routing cfg)"
    and "distinct (map flow_key flows)" "list_all (\<lambda>f. list_all upstream_durations (flc_Upstreams f)) flows"
    and "eo_Extensions opts" "FromConfig env cfg opts = Inr (doc, ws)" "resolveImportMode env (io_Mode iopts) = Inr mode"
  shows "\<exists>cfg' ws'. ToConfig env (Some doc) iopts = (Inr cfg', ws') \<and>
    mset (rou_Flows (cfg_Routing cfg')) = mset (map (restored_flow env) flows) \<and>
    rlc_Enabled (rou_RateLimiter (cfg_Routing cfg')) = rlc_Enabled (rou_RateLimiter (cfg_Routing cfg)) \<and>
    cfg_Schema cfg' = cfg_Schema cfg"
proof -
  let ?rl = "rlc_Enabled (rou_RateLimiter (cfg_Routing cfg))"
  let ?op = "exported_operation env ?rl (eo_Extensions opts)"
  have methods: "list_all (\<lambda>f. flc_Method f \<in> set slot_methods) flows" and ne: "flows \<noteq> []" and schema: "cfg_Schema cfg = ''v1''"
    using assms(1) by (auto simp: tags_hold_def FlowConfig_tags_def list_all_iff slot_methods assms(2))
  define s where "s = fold (handle_operation env doc mode iopts) (operations doc)
    \<lparr>is_flows = [], is_warnings = [], is_rateLimited = False, is_sawExtension = False\<rparr>"
  let ?flow = "\<lambda>(p, m, op). fst (convertOperation env doc p m op mode iopts)"
  have ops: "set (operations doc) = (\<lambda>f. (flc_Path f, flc_Method f, ?op f)) ` set flows"
    by (rule exported_operations [OF assms(6,2,3) methods])
  have conv: "?flow (flc_Path f, flc_Method f, ?op f) = restored_flow env f" if "f \<in> set flows" for f
    using that assms(4,5)
    by (simp add: convertOperation_def exported_operation_simps reconstructFlow_printed list_all_iff)
  have flows': "is_flows s = map ?flow (operations doc)" by (simp add: s_def import_flows)
  have key: "flow_key (?flow x) = operation_key x" if "x \<in> set (operations doc)" for x
    using that conv unfolding ops by (auto simp: restored_flow_def flow_key_def operation_key_def)
  have "map flow_key (is_flows s) = map operation_key (operations doc)" unfolding flows' by (simp add: key)
  then have "distinct (map flow_key (is_flows s))"
    using operations_distinct [OF FromConfig_doc(1) [OF assms(6)]] by simp
  then have d1: "distinct (is_flows s)" by (simp add: distinct_map)
  have "map flow_key (map (restored_flow env) flows) = map flow_key flows" by (simp add: restored_flow_def flow_key_def)
  with assms(3) have d2: "distinct (map (restored_flow env) flows)" by (metis distinct_map)
  have "set (is_flows s) = set (map (restored_flow env) flows)"
    unfolding flows' set_map ops using conv by (force simp: image_iff)
  then have mset: "mset (is_flows s) = mset (map (restored_flow env) flows)"
    by (rule iffD1 [OF set_eq_iff_mset_eq_distinct [OF d1 d2]])
  have rl: "is_rateLimited s = ?rl"
    using ne by (simp add: s_def import_flows ops exported_operation_simps export_429 ex_in_conv del: not_None_eq)
  have "is_flows s \<noteq> []" using mset ne by auto
  then show ?thesis
    using assms(7) mset rl schema FromConfig_doc(3) [OF assms(6)]
    by (simp add: ToConfig_def schemaVersion_def zero_config_def flip: s_def)
qed


text \<open>A sample: the configuration of the builder's sample comes back as it was.\<close>

definition sample_openapi_env :: openapi_env where
  "sample_openapi_env = \<lparr>oe_lower = id, oe_print = (\<lambda>_. False),
     oe_Set = (\<lambda>u. u\<lparr>upc_Transport := \<lparr>trn_MaxIdleConns = 100, trn_MaxIdleConnsPerHost = 50,
        trn_IdleConnTimeout = 90000000000, trn_HTTP2 = ''auto''\<rparr>\<rparr>)\<rparr>"

definition sample_options :: Options where
  "sample_options = \<lparr>eo_OASVersion = ''3.1'', eo_Title = [], eo_APIVersion = [], eo_Servers = [], eo_Extensions = True,
     eo_GeneratorVersion = ''dev''\<rparr>"

definition sample_import :: ImportOptions where
  "sample_import = \<lparr>io_DefaultHost = [], io_Mode = ''proxy'', io_ServerPort = 0, io_AdminPort = 0\<rparr>"

lemma sample_export: "\<exists>doc ws. FromConfig sample_openapi_env sample_config sample_options = Inr (doc, ws)"
  by (simp add: FromConfig_def resolveOASVersion_def sample_options_def Let_def)

lemma sample_durations: "list_all (\<lambda>f. list_all upstream_durations (flc_Upstreams f)) (rou_Flows (cfg_Routing sample_config))"
  by (simp add: sample_config_def sample_flow_section_def sample_upstream_section_def upstream_durations_def
      is_duration_def)


section \<open>Every flow is documented\<close>

lemma export_flows_warnings: "\<exists>ws. es_warnings (fold (export_flow env rl ext) fs s) = es_warnings s @ ws"
proof (induction fs arbitrary: s)
  case (Cons f fs)
  obtain ws where "es_warnings (export_flow env rl ext f s) = es_warnings s @ ws"
    by (rule export_flow_step [of env rl ext f s])
  with Cons.IH [of "export_flow env rl ext f s"] show ?case by auto
qed simp

lemma export_flows_covered:
  "f \<in> set fs \<Longrightarrow>
     slot_of (es_paths (fold (export_flow env rl ext) fs s)) (flow_key f) = Some (exported_operation env rl ext f) \<or>
     (\<exists>w \<in> set (es_warnings (fold (export_flow env rl ext) fs s)). wa_Flow w = flc_Method f @ '' '' @ flc_Path f)"
proof (induction fs arbitrary: s)
  case (Cons g fs)
  let ?s = "export_flow env rl ext g s"
  show ?case
  proof (cases "f = g")
    case False
    with Cons show ?thesis by simp
  next
    case True
    obtain ws where ws: "es_warnings ?s = es_warnings s @ ws"
      and slot: "slot_of (es_paths ?s) (flow_key g) =
        (if flow_key g = flow_key g \<and> flc_Method g \<in> set slot_methods \<and> slot_of (es_paths s) (flow_key g) = None
         then Some (exported_operation env rl ext g) else slot_of (es_paths s) (flow_key g))"
      and free: "flc_Method g \<in> set slot_methods \<and> slot_of (es_paths s) (flow_key g) = None \<or>
        (\<exists>w \<in> set ws. wa_Flow w = flc_Method g @ '' '' @ flc_Path g)"
      by (rule export_flow_step [of env rl ext g s "flow_key g"])
    obtain ws' where "es_warnings (fold (export_flow env rl ext) fs ?s) = es_warnings ?s @ ws'"
      using export_flows_warnings by blast
    with ws free slot True show ?thesis by (auto simp: export_flows_slots)
  qed
qed simp

text \<open>
  C22. The document describes the flows and nothing else: every flow of the configuration is the operation at its path and
  method, or a warning names it; and every operation of the document is that of a flow.
\<close>

theorem export_documents_flows:
  assumes "FromConfig env cfg opts = Inr (doc, ws)"
  defines "exported \<equiv> exported_operation env (rlc_Enabled (rou_RateLimiter (cfg_Routing cfg))) (eo_Extensions opts)"
  shows "(\<forall>f \<in> set (rou_Flows (cfg_Routing cfg)).
      slot_of (doc_Paths doc) (flow_key f) = Some (exported f) \<or>
      (\<exists>w \<in> set ws. wa_Flow w = flc_Method f @ '' '' @ flc_Path f)) \<and>
    (\<forall>pm op. slot_of (doc_Paths doc) pm = Some op \<longrightarrow>
      (\<exists>f \<in> set (rou_Flows (cfg_Routing cfg)). flow_key f = pm \<and> op = exported f))"
proof -
  have "slot_of (doc_Paths doc) (flow_key f) = Some (exported f) \<or> (\<exists>w \<in> set ws. wa_Flow w = flc_Method f @ '' '' @ flc_Path f)"
    if "f \<in> set (rou_Flows (cfg_Routing cfg))" for f
    using export_flows_covered [OF that] FromConfig_state [OF assms(1)] by (simp add: exported_def)
  moreover have "\<exists>f \<in> set (rou_Flows (cfg_Routing cfg)). flow_key f = pm \<and> op = exported f"
    if "slot_of (doc_Paths doc) pm = Some op" for pm op
    using that unfolding FromConfig_doc(2) [OF assms(1)] by (auto simp: find_Some_iff exported_def)
  ultimately show ?thesis by blast
qed

text \<open>The sample's flow is documented; the only other operation would be that of another flow.\<close>

theorem export_documents_flows_witness:
  "\<exists>doc ws. FromConfig sample_openapi_env sample_config sample_options = Inr (doc, ws) \<and>
     (slot_of (doc_Paths doc) (''/users/{id}'', ''GET'') =
        Some (exported_operation sample_openapi_env True True sample_flow_section) \<or>
      (\<exists>w \<in> set ws. wa_Flow w = ''GET /users/{id}'')) \<and>
     slot_of (doc_Paths doc) (''/admin'', ''GET'') = None"
proof -
  obtain doc ws where d: "FromConfig sample_openapi_env sample_config sample_options = Inr (doc, ws)"
    using sample_export by blast
  have fl: "rou_Flows (cfg_Routing sample_config) = [sample_flow_section]" "rlc_Enabled (rou_RateLimiter (cfg_Routing sample_config))"
    "eo_Extensions sample_options" by (simp_all add: sample_config_def sample_options_def)
  have key: "flow_key sample_flow_section = (''/users/{id}'', ''GET'')" "flc_Method sample_flow_section = ''GET''"
    "flc_Path sample_flow_section = ''/users/{id}''" by (simp_all add: flow_key_def sample_flow_section_def)
  note all = export_documents_flows [OF d]
  have "slot_of (doc_Paths doc) (''/admin'', ''GET'') = None"
  proof (rule ccontr)
    assume "slot_of (doc_Paths doc) (''/admin'', ''GET'') \<noteq> None"
    then obtain op where "slot_of (doc_Paths doc) (''/admin'', ''GET'') = Some op" by blast
    with conjunct2 [OF all] show False by (fastforce simp: key fl)
  qed
  with d conjunct1 [OF all] show ?thesis by (simp add: key fl)
qed

section \<open>Documents of other origin\<close>

lemma operations_from_paths:
  assumes "(p, m, op) \<in> set (operations doc)"
  shows "p \<in> set (map fst (doc_Paths doc))" "m \<in> set slot_methods"
proof -
  from assms obtain item where "p \<in> set (sortedPaths (doc_Paths doc))" "(p, m, op) \<in> set (item_operations p item)"
    by (auto simp: operations_def item_operations_slots set_map_filter_keys split: option.splits)
  then show "p \<in> set (map fst (doc_Paths doc))" "m \<in> set slot_methods"
    by (auto simp: sortedPaths_def item_operations_slots set_map_filter_keys)
qed

lemma check_http2_None:
  "check_http2 us = None \<longleftrightarrow> (\<forall>u \<in> set us. trn_HTTP2 (upc_Transport u) = ''on'' \<longrightarrow> tls_Enabled (upc_TLS u))"
  by (induction us) auto

lemma scaffoldFlow_valid:
  assumes "HasPrefix path ''/''" "meth \<in> set slot_methods"
    and f_def: "f = fst (scaffoldFlow env doc path meth op mode opts)"
  shows "FlowConfig_tags f" "flow_valid f" "check_http2 (flc_Upstreams f) = None" "flow_key f = (path, meth)"
proof -
  have "meth \<noteq> []" using assms(2) by (auto simp: slot_methods)
  then have name: "upstreamNameFor env op meth path \<noteq> []" by (simp add: upstreamNameFor_def operationID_def)
  have f: "flc_Path f = path" "flc_Method f = meth" "flc_Aggregation f = None" "flc_Plugins f = []" "flc_Middlewares f = []"
    "\<exists>host qs hs. flc_Upstreams f = [zero_upstream\<lparr>upc_Name := upstreamNameFor env op meth path, upc_Hosts := [host],
       upc_Path := path, upc_ForwardQueries := qs, upc_ForwardHeaders := hs\<rparr>]"
    by (auto simp: f_def scaffoldFlow_def Let_def zero_flow_def split: prod.splits)
  then obtain host qs hs where up: "flc_Upstreams f = [zero_upstream\<lparr>upc_Name := upstreamNameFor env op meth path,
      upc_Hosts := [host], upc_Path := path, upc_ForwardQueries := qs, upc_ForwardHeaders := hs\<rparr>]" by blast
  have "meth \<in> {''GET'', ''POST'', ''PUT'', ''PATCH'', ''DELETE'', ''HEAD'', ''OPTIONS'', ''QUERY''}"
    using assms(2) by (auto simp: slot_methods)
  then show "FlowConfig_tags f"
    using assms(1) name by (simp add: FlowConfig_tags_def f up UpstreamConfig_tags_def TLSConfig_tags_def
        zero_upstream_def zero_tls_def zero_transport_def tls_version_tag_def http2_tag_def)
  show "flow_valid f" by (simp add: flow_valid_def f up zero_upstream_def)
  show "check_http2 (flc_Upstreams f) = None" by (simp add: up zero_upstream_def zero_transport_def)
  show "flow_key f = (path, meth)" by (simp add: flow_key_def f)
qed

lemma ToConfig_flows:
  assumes "ToConfig env (Some doc) opts = (Inr cfg, ws)"
  obtains mode where "rou_Flows (cfg_Routing cfg) = map (\<lambda>(p, m, op). fst (convertOperation env doc p m op mode opts)) (operations doc)"
    "rou_Flows (cfg_Routing cfg) \<noteq> []" "RateLimiterConfig_tags (rou_RateLimiter (cfg_Routing cfg))" "srv_HTTP2 (cfg_Server cfg) = []"
proof -
  obtain mode where mode: "resolveImportMode env (io_Mode opts) = Inr mode"
    using assms by (auto simp: ToConfig_def split: sum.splits)
  define s where "s = fold (handle_operation env doc mode opts) (operations doc)
    \<lparr>is_flows = [], is_warnings = [], is_rateLimited = False, is_sawExtension = False\<rparr>"
  have flows: "is_flows s = map (\<lambda>(p, m, op). fst (convertOperation env doc p m op mode opts)) (operations doc)"
    by (simp add: s_def import_flows)
  have ne: "is_flows s \<noteq> []" using assms by (auto simp: ToConfig_def mode simp flip: s_def split: if_splits)
  then have "rou_Flows (cfg_Routing cfg) = is_flows s" "srv_HTTP2 (cfg_Server cfg) = []"
    "RateLimiterConfig_tags (rou_RateLimiter (cfg_Routing cfg))"
    using assms by (auto simp: ToConfig_def mode Let_def RateLimiterConfig_tags_def zero_config_def simp flip: s_def split: if_splits)
  with that flows ne show thesis by metis
qed

lemma ToConfig_succeeds:
  assumes "resolveImportMode env (io_Mode opts) = Inr mode" "operations doc \<noteq> []"
  shows "\<exists>cfg ws. ToConfig env (Some doc) opts = (Inr cfg, ws)"
proof -
  define s where "s = fold (handle_operation env doc mode opts) (operations doc)
    \<lparr>is_flows = [], is_warnings = [], is_rateLimited = False, is_sawExtension = False\<rparr>"
  have "is_flows s \<noteq> []" using assms(2) by (simp add: s_def import_flows)
  then show ?thesis using assms(1) by (simp add: ToConfig_def Let_def flip: s_def)
qed

text \<open>
  C30. An import of a document without extensions makes flows that pass validation.  If the paths of the document start with a
  slash, the flows are one per operation, in the order of the document, each for its path and method, and every
  flow satisfies the tags and the checks of flows and of HTTP/2.
\<close>

theorem foreign_import_valid:
  assumes "ToConfig env (Some doc) opts = (Inr cfg, ws)"
    and "\<forall>(p, m, op) \<in> set (operations doc). op_XAastro op = None" "\<forall>p \<in> set (map fst (doc_Paths doc)). HasPrefix p ''/''"
  shows "map flow_key (rou_Flows (cfg_Routing cfg)) = map operation_key (operations doc) \<and>
    rou_Flows (cfg_Routing cfg) \<noteq> [] \<and> list_all FlowConfig_tags (rou_Flows (cfg_Routing cfg)) \<and>
    validateFlows cfg = None \<and> validateHTTP2 cfg = None \<and> RateLimiterConfig_tags (rou_RateLimiter (cfg_Routing cfg))"
proof -
  obtain mode where flows: "rou_Flows (cfg_Routing cfg) =
      map (\<lambda>(p, m, op). fst (convertOperation env doc p m op mode opts)) (operations doc)"
    and rest: "rou_Flows (cfg_Routing cfg) \<noteq> []" "RateLimiterConfig_tags (rou_RateLimiter (cfg_Routing cfg))" "srv_HTTP2 (cfg_Server cfg) = []"
    by (rule ToConfig_flows [OF assms(1)])
  have conv: "FlowConfig_tags f" "flow_valid f" "check_http2 (flc_Upstreams f) = None" "flow_key f = (p, m)"
    if "(p, m, op) \<in> set (operations doc)" "f = fst (convertOperation env doc p m op mode opts)" for p m op f
  proof -
    have "f = fst (scaffoldFlow env doc p m op mode opts)" using that assms(2) by (auto simp: convertOperation_def)
    moreover have "HasPrefix p ''/''" "m \<in> set slot_methods" using operations_from_paths [OF that(1)] assms(3) by auto
    ultimately show "FlowConfig_tags f" "flow_valid f" "check_http2 (flc_Upstreams f) = None" "flow_key f = (p, m)"
      using scaffoldFlow_valid by auto
  qed
  have "list_all FlowConfig_tags (rou_Flows (cfg_Routing cfg))" "list_all flow_valid (rou_Flows (cfg_Routing cfg))"
    unfolding flows by (auto simp: list_all_iff conv)
  moreover have "map flow_key (rou_Flows (cfg_Routing cfg)) = map operation_key (operations doc)"
    unfolding flows by (auto simp: operation_key_def conv)
  moreover have "check_http2 (concat (map flc_Upstreams (rou_Flows (cfg_Routing cfg)))) = None"
    unfolding check_http2_None flows using conv(3) by (fastforce simp: check_http2_None)
  ultimately show ?thesis using rest by (simp add: validateFlows_def check_flows_None validateHTTP2_def)
qed

text \<open>A document with one operation, made into one flow.\<close>

definition sample_document :: Document where
  "sample_document = \<lparr>doc_OpenAPI = ''3.1.0'', doc_Info = \<lparr>in_Title = ''pets'', in_Description = [], in_Version = ''1.0''\<rparr>,
     doc_Servers = [''https://pets.example''], doc_Tags = [],
     doc_Paths = [(''/pets'', Some (zero_item\<lparr>it_Get := Some (zero_operation\<lparr>op_OperationID := ''listPets''\<rparr>)\<rparr>))],
     doc_Components = None, doc_XAastro = None\<rparr>"

lemma sample_document_operations:
  "operations sample_document = [(''/pets'', ''GET'', zero_operation\<lparr>op_OperationID := ''listPets''\<rparr>)]"
  by (simp add: operations_def sample_document_def sortedPaths_def item_operations_def methodSlots_def zero_item_def
      List.map_filter_simps)

theorem foreign_import_valid_witness:
  "\<exists>cfg ws. ToConfig sample_openapi_env (Some sample_document) sample_import = (Inr cfg, ws) \<and>
     map flow_key (rou_Flows (cfg_Routing cfg)) = [(''/pets'', ''GET'')] \<and> validateFlows cfg = None"
proof -
  have "resolveImportMode sample_openapi_env (io_Mode sample_import) = Inr importModeProxy"
    by (simp add: resolveImportMode_def sample_import_def importModeProxy_def)
  moreover have "operations sample_document \<noteq> []" by (simp add: sample_document_operations)
  ultimately obtain cfg ws where c: "ToConfig sample_openapi_env (Some sample_document) sample_import = (Inr cfg, ws)"
    using ToConfig_succeeds by blast
  have x: "\<forall>(p, m, op) \<in> set (operations sample_document). op_XAastro op = None"
    unfolding sample_document_operations by (simp add: zero_operation_def)
  have p: "\<forall>p \<in> set (map fst (doc_Paths sample_document)). HasPrefix p ''/''"
    by (simp add: sample_document_def)
  have "map flow_key (rou_Flows (cfg_Routing cfg)) = [(''/pets'', ''GET'')]" "validateFlows cfg = None"
    using foreign_import_valid [OF c x p] by (simp_all add: sample_document_operations operation_key_def)
  with c show ?thesis by (intro exI conjI)
qed

section \<open>Documented failures\<close>

text \<open>The documented error codes are the named ones.\<close>

lemma documented_client_errors:
  "\<exists>codes. map_of problemSchemas ''ClientError'' = Some (Schema [] ''string'' [] codes None []) \<and> distinct codes \<and>
     set codes = ClientError_String ` {e. \<forall>s. e \<noteq> OtherClientErr s}"
proof -
  have "{e. \<forall>s. e \<noteq> OtherClientErr s} = {ClientErrRateLimitExceeded, ClientErrPayloadTooLarge, ClientErrUpstreamBodyTooLarge,
      ClientErrUpstreamUnavailable, ClientErrUpstreamError, ClientErrUpstreamClientError, ClientErrUpstreamRedirect,
      ClientErrUpstreamMalformed, ClientErrInternal, ClientErrAborted, ClientErrUnauthorized, ClientErrValueConflict}"
  proof (rule set_eqI)
    show "e \<in> {e. \<forall>s. e \<noteq> OtherClientErr s} \<longleftrightarrow> e \<in> {ClientErrRateLimitExceeded, ClientErrPayloadTooLarge, ClientErrUpstreamBodyTooLarge,
      ClientErrUpstreamUnavailable, ClientErrUpstreamError, ClientErrUpstreamClientError, ClientErrUpstreamRedirect,
      ClientErrUpstreamMalformed, ClientErrInternal, ClientErrAborted, ClientErrUnauthorized, ClientErrValueConflict}" for e
      by (cases e) simp_all
  qed
  then show ?thesis by (simp add: problemSchemas_def)
qed

text \<open>
  The document lists the failures of a proxy flow: when its upstream fails and the gateway answers with a problem
  document, the status of the answer is among the responses of the exported operation, unless the client
  itself went away.
\<close>

theorem proxy_failures_documented:
  fixes resp :: upstreamResponse
  assumes "ur_err resp = Some e" "\<not> isPropagatable (ue_kind e)" "mapUpstreamError (ur_err resp) \<noteq> ClientErrAborted"
    and "\<not> flc_Streaming f" "length (flc_Upstreams f) = 1"
  shows "Itoa (rs_StatusCode (buildProxyResponse enc ctx resp)) \<in> dom (map_of (op_Responses (exported_operation env rl ext f)))"
proof -
  have "mapUpstreamError (ur_err resp) \<in> {ClientErrUpstreamUnavailable, ClientErrUpstreamError, ClientErrUpstreamMalformed,
      ClientErrUpstreamBodyTooLarge, ClientErrUpstreamClientError, ClientErrUpstreamRedirect, ClientErrInternal, ClientErrAborted}"
    using assms(1) by (cases "ue_kind e") (simp_all add: kind_simps)
  with assms(3) have "statusFromErrors [mapUpstreamError (ur_err resp)] False \<in> {502, 500}"
    by (auto simp: statusFromErrors_def selectPrimaryError_def)
  with assms(1,2) have "rs_StatusCode (buildProxyResponse enc ctx resp) \<in> {502, 500}"
    by (simp add: buildProxyResponse_def make_response_def Let_def)
  moreover have "Itoa 502 = ''502''" "Itoa 500 = ''500''" by code_simp+
  ultimately have "Itoa (rs_StatusCode (buildProxyResponse enc ctx resp)) \<in> {''502'', ''500''}" by auto
  moreover have "{''502'', ''500''} \<subseteq> dom (map_of (op_Responses (exported_operation env rl ext f)))"
    using assms(4,5) by (simp add: exported_operation_simps buildOperation_Responses Let_def dom_respond documented_statuses
        del: dom_map_of_conv_image_fst)
  ultimately show ?thesis by blast
qed

theorem proxy_failures_documented_witness:
  "Itoa (rs_StatusCode (buildProxyResponse (\<lambda>_. Inr []) empty_context
       \<lparr>ur_status = 0, ur_headers = None, ur_body = [], ur_err = Some \<lparr>ue_kind = upstreamTimeout, ue_err = ErrMsg ''timeout''\<rparr>\<rparr>))
     \<in> dom (map_of (op_Responses (exported_operation sample_openapi_env False False
         (zero_flow\<lparr>flc_Path := ''/users'', flc_Method := ''GET'', flc_Upstreams := [zero_upstream]\<rparr>))))"
  by (rule proxy_failures_documented [where e = "\<lparr>ue_kind = upstreamTimeout, ue_err = ErrMsg ''timeout''\<rparr>"])
    (simp_all add: kind_simps zero_flow_def)

section \<open>What is lost\<close>

text \<open>
  A flow without plugins and middlewares, whose upstreams have a host, no TLS files and a transport that is
  the default or leaves the HTTP/2 mode unset, comes back as it was.
\<close>

lemma plain_flow_restored:
  assumes "flc_Plugins f = []" "flc_Middlewares f = []"
    and "\<forall>u \<in> set (flc_Upstreams f). upc_Hosts u \<noteq> [] \<and> upc_TLS u = zero_tls\<lparr>tls_Enabled := tls_Enabled (upc_TLS u)\<rparr> \<and>
      (upc_Transport u = default_transport env \<or> upc_Transport u \<noteq> zero_transport \<and> trn_HTTP2 (upc_Transport u) = [])"
  shows "restored_flow env f = f"
proof -
  have "restored_upstream env u = u" if "u \<in> set (flc_Upstreams f)" for u
    using assms(3) that by (cases u; cases "upc_Transport u") (auto simp: restored_upstream_def restored_transport_def)
  then have "map (restored_upstream env) (flc_Upstreams f) = flc_Upstreams f" by (simp add: map_idI)
  with assms(1,2) show ?thesis by (cases f) (simp add: restored_flow_def)
qed

text \<open>A transport that differs from the default loses its HTTP/2 mode, without a warning.\<close>

lemma http2_mode_lost:
  assumes "upstream_durations u" "upc_Transport u \<noteq> zero_transport" "upc_Transport u \<noteq> default_transport env"
    and "upc_Hosts u \<noteq> []" "\<not> tls_Enabled (upc_TLS u)"
  shows "trn_HTTP2 (upc_Transport (fst (reconstruct_upstream env flowID (upstream_extension env u)))) = []"
  using assms by (simp add: reconstruct_printed restored_upstream_def restored_transport_def)

text \<open>
  The default of one port is not kept apart from the other port: a data port of 9090 or an admin port of 7805 alone
  makes the two equal.
\<close>

lemma import_ports_collide:
  assumes "ToConfig env (Some doc) opts = (Inr cfg, ws)"
    and "io_ServerPort opts = 9090 \<and> io_AdminPort opts = 0 \<or> io_ServerPort opts = 0 \<and> io_AdminPort opts = 7805"
  shows "srv_Port (cfg_Server cfg) = adm_Port (cfg_Admin cfg)"
  using assms by (auto simp: ToConfig_def Let_def zero_config_def intOr_def defaultServerPort_def defaultAdminPort_def
      split: sum.splits if_splits)

end
