(* ===== verification/Cert_Watcher.thy ===== *)
theory Cert_Watcher
  imports TLS_Reload
begin

unbundle bit_operations_syntax

text \<open>
  \<^verbatim>\<open>internal/certwatcher\<close>: file-system events are collected per directory and a directory is reloaded
  when it has been quiet for the debounce time.  The watcher is a machine driven by the events of
  \<^verbatim>\<open>fsnotify\<close>; a timer is the time at which it will fire, or \<open>None\<close> once it has fired.  A timer that
  is due at or before an event fires before that event is handled.
\<close>

section \<open>The watcher\<close>

type_synonym op = "32 word"

definition reloadOps :: op where
  "reloadOps = 1 OR 2 OR 8"

definition defaultDebounce :: duration where
  "defaultDebounce = 200 * 1000000"

definition WithDebounce :: "duration \<Rightarrow> duration \<Rightarrow> duration" where
  "WithDebounce d current = (if d > 0 then d else current)"

text \<open>\<^verbatim>\<open>New\<close>: the debounce time after all options.\<close>

definition watcher_New :: "duration list \<Rightarrow> duration" where
  "watcher_New opts = fold WithDebounce opts defaultDebounce"

record fs_event =
  ev_Name :: string
  ev_Op :: op

type_synonym timers = "(string, time option) gomap"

text \<open>Both branches of the code arm the timer of the directory: one resets it, one makes it.\<close>

definition handleEvent :: "duration \<Rightarrow> time \<Rightarrow> fs_event \<Rightarrow> timers \<Rightarrow> timers" where
  "handleEvent debounce now ev ts =
     (if ev_Op ev AND reloadOps = 0 then ts
      else
        let dir = filepath_Dir (ev_Name ev) in
        (case map_of ts dir of
           Some t \<Rightarrow> AList.update dir (Some (now + debounce)) ts
         | None \<Rightarrow> AList.update dir (Some (now + debounce)) ts))"

definition due :: "time \<Rightarrow> string \<times> time option \<Rightarrow> bool" where
  "due now t \<longleftrightarrow> (case snd t of None \<Rightarrow> False | Some d \<Rightarrow> d \<le> now)"

text \<open>The timers that are due: the reloads they start, and the timers after them.\<close>

definition fire :: "time \<Rightarrow> timers \<Rightarrow> (time \<times> string) list \<times> timers" where
  "fire now ts =
     (map (\<lambda>t. (the (snd t), fst t)) (filter (due now) ts),
      map (\<lambda>t. if due now t then (fst t, None) else t) ts)"

text \<open>
  \<^verbatim>\<open>Run\<close> until the context is cancelled at time \<open>stop\<close>: what is due by then still fires, the rest of
  the timers is stopped.
\<close>

fun watcher_Run :: "duration \<Rightarrow> time \<Rightarrow> (time \<times> fs_event) list \<Rightarrow> timers \<Rightarrow> (time \<times> string) list" where
  "watcher_Run debounce stop [] ts = fst (fire stop ts)"
| "watcher_Run debounce stop ((now, ev) # evs) ts =
     (let (fired, ts1) = fire now ts
      in fired @ watcher_Run debounce stop evs (handleEvent debounce now ev ts1))"

text \<open>\<^verbatim>\<open>stop\<close>: no timer is left to fire.\<close>

definition watcher_stop :: "timers \<Rightarrow> timers" where
  "watcher_stop ts = map (\<lambda>t. (fst t, None)) ts"

lemma stopped_watcher_is_quiet: "fire now (watcher_stop ts) = ([], watcher_stop ts)"
  by (simp add: fire_def watcher_stop_def due_def comp_def filter_map)

text \<open>\<^verbatim>\<open>reload\<close>: nothing once the context is cancelled, otherwise the directory of the registry.\<close>

definition watcher_reload :: "tls_env \<Rightarrow> bool \<Rightarrow> string \<Rightarrow> Registry \<Rightarrow> go_error list \<times> Registry" where
  "watcher_reload env canceled dir reg = (if canceled then ([], reg) else Registry_ReloadDir env dir reg)"

section \<open>Specification\<close>

text \<open>The ends of the bursts in a sequence of times: each is followed by a pause of \<open>w\<close> at least.\<close>

fun burst_ends :: "duration \<Rightarrow> time list \<Rightarrow> time list" where
  "burst_ends w [] = []"
| "burst_ends w [t] = [t + w]"
| "burst_ends w (t # t' # ts) =
     (if t' < t + w then burst_ends w (t' # ts) else (t + w) # burst_ends w (t' # ts))"

definition relevant :: "string \<Rightarrow> time \<times> fs_event \<Rightarrow> bool" where
  "relevant d e \<longleftrightarrow> ev_Op (snd e) AND reloadOps \<noteq> 0 \<and> filepath_Dir (ev_Name (snd e)) = d"

definition reloads_of :: "string \<Rightarrow> (time \<times> string) list \<Rightarrow> time list" where
  "reloads_of d rs = map fst (filter (\<lambda>r. snd r = d) rs)"

section \<open>Lemmas\<close>

text \<open>The same behaviour seen from one directory: its timer and the times of its events.\<close>

fun dir_run :: "duration \<Rightarrow> time \<Rightarrow> time option \<Rightarrow> (time \<times> bool) list \<Rightarrow> time list" where
  "dir_run w stop timer [] = (case timer of Some t \<Rightarrow> if t \<le> stop then [t] else [] | None \<Rightarrow> [])"
| "dir_run w stop timer ((now, mine) # evs) =
     (case timer of
        Some t \<Rightarrow>
          if t \<le> now then t # dir_run w stop (if mine then Some (now + w) else None) evs
          else dir_run w stop (if mine then Some (now + w) else timer) evs
      | None \<Rightarrow> dir_run w stop (if mine then Some (now + w) else None) evs)"

definition timer_of :: "timers \<Rightarrow> string \<Rightarrow> time option" where
  "timer_of ts d = Option.bind (map_of ts d) id"

lemma fire_of:
  assumes "distinct (map fst ts)"
  shows "reloads_of d (fst (fire now ts)) =
      (case timer_of ts d of Some t \<Rightarrow> if t \<le> now then [t] else [] | None \<Rightarrow> [])"
    and "timer_of (snd (fire now ts)) d =
      (case timer_of ts d of Some t \<Rightarrow> if t \<le> now then None else Some t | None \<Rightarrow> None)"
    and "distinct (map fst (snd (fire now ts)))"
proof -
  show "distinct (map fst (snd (fire now ts)))"
    using assms by (simp add: fire_def comp_def if_distrib cong: if_cong)
  show "reloads_of d (fst (fire now ts)) =
      (case timer_of ts d of Some t \<Rightarrow> if t \<le> now then [t] else [] | None \<Rightarrow> [])"
    using assms
  proof (induction ts)
    case (Cons x ts)
    obtain k v where x: "x = (k, v)" by force
    have "map_of ts d = None" if "k = d" using that Cons.prems x by (auto simp: map_of_eq_None_iff)
    with Cons x show ?case
      by (auto simp: fire_def reloads_of_def timer_of_def due_def split: option.splits if_splits)
  qed (simp add: fire_def reloads_of_def timer_of_def)
  show "timer_of (snd (fire now ts)) d =
      (case timer_of ts d of Some t \<Rightarrow> if t \<le> now then None else Some t | None \<Rightarrow> None)"
    using assms
    by (induction ts) (auto simp: fire_def timer_of_def due_def split: option.splits if_splits)
qed

lemma handleEvent_of:
  "timer_of (handleEvent w now ev ts) d = (if relevant d (now, ev) then Some (now + w) else timer_of ts d)"
  "distinct (map fst ts) \<Longrightarrow> distinct (map fst (handleEvent w now ev ts))"
  by (auto simp: handleEvent_def relevant_def timer_of_def update_conv' distinct_update Let_def split: option.splits)

lemma watcher_Run_dir:
  assumes "distinct (map fst ts)"
  shows "reloads_of d (watcher_Run w stop evs ts) =
    dir_run w stop (timer_of ts d) (map (\<lambda>e. (fst e, relevant d e)) evs)"
  using assms
proof (induction w stop evs ts rule: watcher_Run.induct)
  case (1 w stop ts)
  then show ?case by (simp add: fire_of)
next
  case (2 w stop now ev evs ts)
  obtain fired ts1 where f: "fire now ts = (fired, ts1)" by force
  have d: "distinct (map fst ts1)" and r: "reloads_of d fired =
      (case timer_of ts d of Some t \<Rightarrow> if t \<le> now then [t] else [] | None \<Rightarrow> [])"
    and t: "timer_of ts1 d = (case timer_of ts d of Some t \<Rightarrow> if t \<le> now then None else Some t | None \<Rightarrow> None)"
    using fire_of(1,2) [OF 2(2), where d = d and now = now] fire_of(3) [OF 2(2), of now] f by simp_all
  have IH: "reloads_of d (watcher_Run w stop evs (handleEvent w now ev ts1)) =
      dir_run w stop (if relevant d (now, ev) then Some (now + w) else timer_of ts1 d)
        (map (\<lambda>e. (fst e, relevant d e)) evs)"
    using 2(1) [OF f [symmetric] refl] d by (simp add: handleEvent_of)
  have "reloads_of d (fired @ xs) = reloads_of d fired @ reloads_of d xs" for xs
    by (simp add: reloads_of_def)
  with f r t IH show ?case by (auto split: option.splits)
qed

lemma burst_ends_ge: "sorted (t # ts) \<Longrightarrow> x \<in> set (burst_ends w (t # ts)) \<Longrightarrow> t + w \<le> x"
proof (induction ts arbitrary: t)
  case (Cons t' ts)
  then show ?case by (force split: if_splits)
qed simp

text \<open>
  Seen from one directory, in order of time, and with a timer that was armed by the last event:
  what is due by the end are the burst ends.
\<close>

lemma dir_run_bursts:
  assumes "sorted (map fst es)" "\<forall>e \<in> set es. fst e \<le> stop" "\<forall>e \<in> set es. t0 \<le> fst e"
  shows "dir_run w stop (Some (t0 + w)) es =
      filter (\<lambda>t. t \<le> stop) (burst_ends w (t0 # map fst (filter snd es))) \<and>
    dir_run w stop None es = filter (\<lambda>t. t \<le> stop) (burst_ends w (map fst (filter snd es)))"
  using assms
proof (induction es arbitrary: t0)
  case (Cons e es)
  obtain now mine where e: "e = (now, mine)" by force
  from Cons.prems have s: "sorted (map fst es)" "\<forall>e \<in> set es. fst e \<le> stop" "\<forall>e \<in> set es. now \<le> fst e"
    "\<forall>e \<in> set es. t0 \<le> fst e" and now: "now \<le> stop" "t0 \<le> now"
    by (auto simp: e)
  note A = Cons.IH [OF s(1-3)] and B = Cons.IH [OF s(1,2,4)]
  show ?case
  proof (cases mine)
    case True
    with A now e show ?thesis by auto
  next
    case False
    show ?thesis
    proof (cases "t0 + w \<le> now")
      case True
      have "burst_ends w (t0 # map fst (filter snd es)) = (t0 + w) # burst_ends w (map fst (filter snd es))"
        using True s(3) by (cases "filter snd es") (fastforce dest: filter_eq_ConsD)+
      with True False B now e show ?thesis by auto
    next
      case later: False
      with False B e show ?thesis by auto
    qed
  qed
qed auto

section \<open>Properties\<close>

text \<open>
  C20. Debouncing loses nothing: for events in the order of their times, a directory is reloaded
  once after each burst of relevant events in it, exactly one debounce time after the last event
  of the burst, and otherwise never; events of other directories and other kinds of change have
  no influence.
\<close>

theorem watcher_reloads_after_bursts:
  assumes "sorted (map fst evs)" "\<forall>e \<in> set evs. fst e \<le> stop"
  shows "reloads_of d (watcher_Run w stop evs []) =
    filter (\<lambda>t. t \<le> stop) (burst_ends w (map fst (filter (relevant d) evs)))"
proof (cases evs)
  case Nil
  then show ?thesis by (simp add: fire_def reloads_of_def)
next
  case (Cons e es)
  let ?es = "map (\<lambda>e. (fst e, relevant d e)) evs"
  have m: "map fst (filter snd ?es) = map fst (filter (relevant d) evs)"
    by (simp add: filter_map comp_def)
  have "reloads_of d (watcher_Run w stop evs []) = dir_run w stop None ?es"
    using watcher_Run_dir [of "[]" d w stop evs] by (simp add: timer_of_def)
  also have "\<dots> = filter (\<lambda>t. t \<le> stop) (burst_ends w (map fst (filter snd ?es)))"
    using dir_run_bursts [of ?es stop "fst e" w] assms Cons by (auto simp: comp_def)
  finally show ?thesis by (simp only: m)
qed

theorem watcher_reloads_after_bursts_witness:
  "reloads_of ''/c'' (watcher_Run 10 100
     [(1, \<lparr>ev_Name = ''/c/tls.crt'', ev_Op = 2\<rparr>), (5, \<lparr>ev_Name = ''/c/tls.key'', ev_Op = 1\<rparr>),
      (9, \<lparr>ev_Name = ''/d/x'', ev_Op = 2\<rparr>), (12, \<lparr>ev_Name = ''/c/tls.crt'', ev_Op = 16\<rparr>),
      (40, \<lparr>ev_Name = ''/c/tls.crt'', ev_Op = 8\<rparr>)] []) = [15, 50]"
proof -
  let ?evs = "[(1, \<lparr>ev_Name = ''/c/tls.crt'', ev_Op = 2\<rparr>), (5, \<lparr>ev_Name = ''/c/tls.key'', ev_Op = 1\<rparr>),
      (9, \<lparr>ev_Name = ''/d/x'', ev_Op = 2\<rparr>), (12, \<lparr>ev_Name = ''/c/tls.crt'', ev_Op = 16\<rparr>),
      (40, \<lparr>ev_Name = ''/c/tls.crt'', ev_Op = 8\<rparr>)] :: (time \<times> fs_event) list"
  have "map fst (filter (relevant ''/c'') ?evs) = [1, 5, 40]" by code_simp
  moreover have "sorted (map fst ?evs)" "\<forall>e \<in> set ?evs. fst e \<le> 100" by simp_all
  ultimately show ?thesis using watcher_reloads_after_bursts [of ?evs 100 "''/c''" 10] by simp
qed

end
