(* ===== verification/Server.thy ===== *)
theory Server
  imports Builder Cert_Watcher
begin

text \<open>
  The two HTTP servers around the router (\<^verbatim>\<open>internal/server/server.go\<close>) and the command that runs
  them (\<^verbatim>\<open>cmd/aastro/run.go\<close>).  Listening and draining connections is the work of \<^verbatim>\<open>net/http\<close>: a
  server is described by its settings, and what becomes of \<^verbatim>\<open>ListenAndServe\<close> and \<^verbatim>\<open>Shutdown\<close> is part of
  the environment.
\<close>

section \<open>Construction\<close>

definition buildProtocols :: "string \<Rightarrow> http_Protocols option" where
  "buildProtocols http2 =
     (if http2 = ''off'' then Some \<lparr>pr_HTTP1 = True, pr_HTTP2 = False\<rparr>
      else if http2 = ''on'' then Some \<lparr>pr_HTTP1 = True, pr_HTTP2 = True\<rparr>
      else None)"

record http_Server =
  hs_Addr :: string
  hs_ReadTimeout :: duration
  hs_WriteTimeout :: duration
  hs_ReadHeaderTimeout :: duration
  hs_TLSConfig :: "tls_Config option"
  hs_Protocols :: "http_Protocols option"

record Server =
  sv_bundle :: RouterBundle
  sv_dataServer :: http_Server
  sv_adminServer :: http_Server
  sv_pprof :: bool
  sv_providers :: "Provider list"
  sv_shuttingDown :: bool

definition bootstrapRouter :: "build_env \<Rightarrow> string \<Rightarrow> Config \<Rightarrow> (go_error + RouterBundle) go" where
  "bootstrapRouter env version cfg = pass_on (NewRouter env version cfg) (\<lambda>bundle. Some (Inr bundle))"

text \<open>The reloader of the listener joins those of the upstreams in the registry of the bundle.\<close>

definition server_New :: "build_env \<Rightarrow> string \<Rightarrow> Config \<Rightarrow> (go_error + Server) go" where
  "server_New env version cfg =
     attempt (bootstrapRouter env version cfg) ''bootstrap router: '' (\<lambda>bundle.
     attempt (Some (buildTLSConfig (be_tls env) (srv_TLS (cfg_Server cfg)) (srv_HTTP2 (cfg_Server cfg))
         (rb_TLSRegistry bundle))) ''build server TLS config: '' (\<lambda>(tlsConfig, reg).
       let c = cfg_Server cfg; a = cfg_Admin cfg; bundle' = bundle\<lparr>rb_TLSRegistry := reg\<rparr> in
       Some (Inr
         \<lparr>sv_bundle = bundle',
          sv_dataServer = \<lparr>hs_Addr = '':'' @ Itoa (srv_Port c), hs_ReadTimeout = srv_Timeout c,
            hs_WriteTimeout = srv_Timeout c, hs_ReadHeaderTimeout = srv_HeaderTimeout c,
            hs_TLSConfig = tlsConfig, hs_Protocols = buildProtocols (srv_HTTP2 c)\<rparr>,
          sv_adminServer = \<lparr>hs_Addr = adm_BindAddr a @ '':'' @ Itoa (adm_Port a), hs_ReadTimeout = adm_Timeout a,
            hs_WriteTimeout = adm_Timeout a, hs_ReadHeaderTimeout = adm_HeaderTimeout a,
            hs_TLSConfig = None, hs_Protocols = None\<rparr>,
          sv_pprof = adm_EnablePprof a,
          sv_providers = [rb_MeterProvider bundle', rb_TracerProvider bundle'],
          sv_shuttingDown = False\<rparr>)))"

section \<open>The admin endpoints\<close>

definition livenessHandler :: "ResponseWriter \<Rightarrow> ResponseWriter go" where
  "livenessHandler w =
     map_option (\<lambda>w'. snd (rw_Write ''{\"status\": \"ok\"}'' w'))
       (rw_WriteHeader StatusOK (rw_edit (hdr_Set ''Content-Type'' ''application/json'') w))"

definition readinessHandler :: "bool \<Rightarrow> ResponseWriter \<Rightarrow> ResponseWriter go" where
  "readinessHandler shuttingDown w0 =
     (let w = rw_edit (hdr_Set ''Content-Type'' ''application/json'') w0 in
      if shuttingDown
      then map_option (\<lambda>w'. snd (rw_Write ''{\"status\":\"shutting_down\"}'' w')) (rw_WriteHeader StatusServiceUnavailable w)
      else map_option (\<lambda>w'. snd (rw_Write ''{\"status\":\"ready\"}'' w')) (rw_WriteHeader StatusOK w))"

text \<open>
  What is registered with the admin mux, and the choice \<^verbatim>\<open>http.ServeMux\<close> makes for a cleaned path: an
  exact path, or the subtree of a pattern that ends in a slash; a \<^verbatim>\<open>GET\<close> pattern also takes \<^verbatim>\<open>HEAD\<close>.
\<close>

datatype admin_target =
  AdminLiveness | AdminReadiness | AdminMetrics | AdminPprof string | AdminNotFound | AdminMethodNotAllowed

definition buildAdminHandler :: "bool \<Rightarrow> bool \<Rightarrow> string \<Rightarrow> string \<Rightarrow> admin_target" where
  "buildAdminHandler prom pprofEnabled meth path =
     (if path = ''/__health'' then (if meth \<in> {''GET'', ''HEAD''} then AdminLiveness else AdminMethodNotAllowed)
      else if path = ''/__ready'' then (if meth \<in> {''GET'', ''HEAD''} then AdminReadiness else AdminMethodNotAllowed)
      else if prom \<and> path = ''/metrics'' then AdminMetrics
      else if pprofEnabled \<and> HasPrefix path ''/debug/pprof/'' then
        AdminPprof (if path \<in> {''/debug/pprof/cmdline'', ''/debug/pprof/profile'', ''/debug/pprof/symbol'',
                               ''/debug/pprof/trace''} then drop (length ''/debug/pprof/'') path else ''index'')
      else AdminNotFound)"

definition admin_target_of :: "Server \<Rightarrow> string \<Rightarrow> string \<Rightarrow> admin_target" where
  "admin_target_of s = buildAdminHandler (rb_PromRegistry (sv_bundle s)) (sv_pprof s)"

section \<open>Starting and stopping\<close>

text \<open>
  The end of a server's \<^verbatim>\<open>ListenAndServe\<close>: never, or at a time with an error, \<open>None\<close> standing for
  \<^verbatim>\<open>http.ErrServerClosed\<close>.  The group waits for both and returns the error that came first.
\<close>

type_synonym serve_end = "(time \<times> go_error option) option"

definition server_Start :: "serve_end \<Rightarrow> serve_end \<Rightarrow> serve_end" where
  "server_Start data admin =
     (case (data, admin) of
        (Some (td, ed), Some (ta, ea)) \<Rightarrow>
          let errD = map_option (ErrWrap ''data server: '') ed;
              errA = map_option (ErrWrap ''admin server: '') ea;
              first = (if td \<le> ta then (errD, errA) else (errA, errD))
          in Some (max td ta, case first of (Some e, _) \<Rightarrow> Some e | (None, e') \<Rightarrow> e')
      | _ \<Rightarrow> None)"

text \<open>The data server's end: that of \<^verbatim>\<open>ListenAndServeTLS\<close> or of \<^verbatim>\<open>ListenAndServe\<close>.\<close>

definition startDataServer :: "serve_end \<Rightarrow> serve_end \<Rightarrow> Server \<Rightarrow> serve_end" where
  "startDataServer tls plain s = (if hs_TLSConfig (sv_dataServer s) \<noteq> None then tls else plain)"

record shutdown_env =
  sd_data :: "go_error option"
  sd_admin :: "go_error option"
  sd_provider :: "Provider \<Rightarrow> go_error option"

datatype stop_event = StopData | StopAdmin | StopRouter | StopProvider Provider

text \<open>\<^verbatim>\<open>errors.Join\<close> drops nil errors and is nil when all are.\<close>

definition errors_Join :: "go_error list \<Rightarrow> go_error option" where
  "errors_Join errs = (if errs = [] then None else Some (ErrJoin errs))"

text \<open>\<^verbatim>\<open>Stop\<close>: the events in their order, the error and the server.\<close>

definition server_Stop :: "shutdown_env \<Rightarrow> Server \<Rightarrow> stop_event list \<times> go_error option \<times> Server" where
  "server_Stop env s =
     (let s' = s\<lparr>sv_shuttingDown := True\<rparr>;
          errs1 = (case sd_data env of None \<Rightarrow> [] | Some e \<Rightarrow> [ErrWrap ''data server shutdown: '' e]);
          errs2 = errs1 @ (case sd_admin env of None \<Rightarrow> [] | Some e \<Rightarrow> [ErrWrap ''admin server shutdown: '' e]);
          errs3 = errs2 @ (case snd (Router_Close (rb_Router (sv_bundle s'))) of
             None \<Rightarrow> [] | Some e \<Rightarrow> [ErrWrap ''router close: '' e]);
          errs4 = errs3 @ concat (map (\<lambda>p. case sd_provider env p of
             None \<Rightarrow> [] | Some e \<Rightarrow> [ErrWrap ''provider shutdown: '' e]) (sv_providers s'))
      in ([StopData, StopAdmin, StopRouter] @ map StopProvider (sv_providers s'), errors_Join errs4, s'))"

section \<open>Running the gateway\<close>

record run_env =
  rn_libs :: config_libs
  rn_zap :: "zap_config \<Rightarrow> go_error option"
  rn_build :: build_env
  rn_version :: string
  rn_NewWatcher :: "go_error option"
  rn_Add :: "string \<Rightarrow> go_error option"
  rn_Start :: "go_error option"

fun add_dirs :: "(string \<Rightarrow> go_error option) \<Rightarrow> string list \<Rightarrow> bool" where
  "add_dirs add [] = True"
| "add_dirs add (d # ds) = (case add d of Some err \<Rightarrow> False | None \<Rightarrow> add_dirs add ds)"

text \<open>
  The exit code, and the server with the directories under watch while it runs, if it does:
  \<open>rn_Start\<close> is what \<^verbatim>\<open>Start\<close> has returned by the time the process ends.
\<close>

definition runGateway :: "run_env \<Rightarrow> string \<Rightarrow> (int \<times> (Server \<times> string list) option) go" where
  "runGateway env cfgPath =
     (case LoadConfig (rn_libs env) cfgPath of
        Inl err \<Rightarrow> Some (2, None)
      | Inr cfg \<Rightarrow>
          (case logger_New (rn_zap env) (cfg_Debug cfg) of
             Inl err \<Rightarrow> Some (1, None)
           | Inr lg \<Rightarrow>
               (case server_New (rn_build env) (rn_version env) cfg of
                  None \<Rightarrow> None
                | Some (Inl err) \<Rightarrow> Some (1, None)
                | Some (Inr srv) \<Rightarrow>
                    let dirs = Registry_Dirs (rb_TLSRegistry (sv_bundle srv)) in
                    if dirs \<noteq> [] \<and> (rn_NewWatcher env \<noteq> None \<or> \<not> add_dirs (rn_Add env) dirs) then Some (1, None)
                    else Some (if rn_Start env \<noteq> None then 1 else 0, Some (srv, dirs)))))"

section \<open>Lemmas: directories under watch\<close>

definition file_dirs :: "string list \<Rightarrow> string set" where
  "file_dirs fs = filepath_Dir ` (set fs - {[]})"

definition upstream_tls_dirs :: "UpstreamConfig \<Rightarrow> string set" where
  "upstream_tls_dirs c =
     (if tls_Enabled (upc_TLS c)
      then file_dirs [tls_CertFile (upc_TLS c), tls_KeyFile (upc_TLS c), tls_CAFile (upc_TLS c)] else {})"

definition listener_tls_dirs :: "ServerTLSConfig \<Rightarrow> string set" where
  "listener_tls_dirs c =
     (if stls_Enabled c then file_dirs [stls_CertFile c, stls_KeyFile c, stls_ClientCAFile c] else {})"

abbreviation reg_dirs :: "Registry \<Rightarrow> string set" where
  "reg_dirs reg \<equiv> set (Registry_Dirs reg)"

lemma Register_dirs:
  "reg_dirs (Registry_Register r reg) = reg_dirs reg \<union> set (WatchDirs (rd_cfg r))"
  "distinct (Registry_Dirs reg) \<Longrightarrow> distinct (Registry_Dirs (Registry_Register r reg))"
proof -
  define add where "add = (\<lambda>d (g :: Registry).
    g\<lparr>rg_byDir := AList.update d (dir_reloaders g d @ [length (rg_reloaders reg)]) (rg_byDir g)\<rparr>)"
  have "reg_dirs (fold add ds g) = reg_dirs g \<union> set ds" for ds g
    by (induction ds arbitrary: g) (auto simp: add_def Registry_Dirs_def dom_update)
  then show "reg_dirs (Registry_Register r reg) = reg_dirs reg \<union> set (WatchDirs (rd_cfg r))"
    by (simp add: Registry_Register_def add_def) (simp add: Registry_Dirs_def)
  have "distinct (Registry_Dirs g) \<Longrightarrow> distinct (Registry_Dirs (fold add ds g))" for ds g
    by (induction ds arbitrary: g) (auto simp: add_def Registry_Dirs_def distinct_update)
  then show "distinct (Registry_Dirs reg) \<Longrightarrow> distinct (Registry_Dirs (Registry_Register r reg))"
    by (simp add: Registry_Register_def add_def) (simp add: Registry_Dirs_def)
qed

lemma buildUpstreamTLSConfig_dirs:
  assumes "buildUpstreamTLSConfig env (upc_TLS c) http2 reg = Inr (tc, reg')"
  shows "reg_dirs reg' = reg_dirs reg \<union> upstream_tls_dirs c"
    and "distinct (Registry_Dirs reg) \<Longrightarrow> distinct (Registry_Dirs reg')"
  using assms
  by (auto simp: buildUpstreamTLSConfig_def upstream_tls_dirs_def file_dirs_def Register_dirs WatchDirs_props
      dest!: NewReloader_cfg split: if_splits sum.splits)

lemma buildTLSConfig_dirs:
  assumes "buildTLSConfig env c http2 reg = Inr (tc, reg')"
  shows "reg_dirs reg' = reg_dirs reg \<union> listener_tls_dirs c"
    and "distinct (Registry_Dirs reg) \<Longrightarrow> distinct (Registry_Dirs reg')"
  using assms
  by (auto simp: buildTLSConfig_def listener_tls_dirs_def file_dirs_def Register_dirs WatchDirs_props
      dest!: NewReloader_cfg split: if_splits sum.splits)

lemma initUpstreams_dirs:
  assumes "initUpstreams env nets cs bs = Inr (us, bs')" "distinct (Registry_Dirs (bs_reg bs))"
  shows "reg_dirs (bs_reg bs') = reg_dirs (bs_reg bs) \<union> (\<Union>c \<in> set cs. upstream_tls_dirs c) \<and>
    distinct (Registry_Dirs (bs_reg bs'))"
  using assms
proof (induction cs arbitrary: bs us)
  case (Cons c cs)
  then obtain u us' bs1 where b: "buildUpstream env nets c bs = Inr (u, bs1)"
    and rest: "initUpstreams env nets cs bs1 = Inr (us', bs')"
    by (auto split: sum.splits prod.splits)
  from b obtain tc where t:
    "buildUpstreamTLSConfig (be_tls env) (upc_TLS c) (trn_HTTP2 (upc_Transport c)) (bs_reg bs) = Inr (tc, bs_reg bs1)"
    by (auto simp: buildUpstream_def Let_def split: sum.splits prod.splits)
  from Cons.IH [OF rest] buildUpstreamTLSConfig_dirs [OF t] Cons.prems(2) show ?case by auto
qed simp

lemma compile_flows_dirs:
  assumes "compile_flows env nets cs bs = Some (Inr (ts, bs'))" "distinct (Registry_Dirs (bs_reg bs))"
  shows "reg_dirs (bs_reg bs') =
      reg_dirs (bs_reg bs) \<union> (\<Union>f \<in> set cs. \<Union>c \<in> set (flc_Upstreams f). upstream_tls_dirs c) \<and>
    distinct (Registry_Dirs (bs_reg bs'))"
  using assms
proof (induction cs arbitrary: bs ts)
  case (Cons f fs)
  then obtain t ts' bs1 where t: "compileFlow env nets f bs = Some (Inr (t, bs1))"
    and rest: "compile_flows env nets fs bs1 = Some (Inr (ts', bs'))"
    by (auto simp: attempt_Inr pass_on_Inr)
  from t obtain us where "initUpstreams env nets (flc_Upstreams f) bs = Inr (us, bs1)"
    by (auto simp: compileFlow_def attempt_Inr Let_def split: if_splits)
  from Cons.IH [OF rest] initUpstreams_dirs [OF this Cons.prems(2)] show ?case by auto
qed simp

lemma add_dirs_all: "add_dirs add ds \<longleftrightarrow> (\<forall>d \<in> set ds. add d = None)"
  by (induction ds) (auto split: option.splits)

lemma server_New_dirs:
  assumes "server_New env version cfg = Some (Inr srv)"
  shows "reg_dirs (rb_TLSRegistry (sv_bundle srv)) =
      (\<Union>f \<in> set (rou_Flows (cfg_Routing cfg)). \<Union>c \<in> set (flc_Upstreams f). upstream_tls_dirs c) \<union>
      listener_tls_dirs (srv_TLS (cfg_Server cfg)) \<and>
    distinct (Registry_Dirs (rb_TLSRegistry (sv_bundle srv)))"
proof -
  from assms obtain b tc where n: "NewRouter env version cfg = Some (Inr b)"
    and t: "buildTLSConfig (be_tls env) (srv_TLS (cfg_Server cfg)) (srv_HTTP2 (cfg_Server cfg)) (rb_TLSRegistry b) =
      Inr (tc, rb_TLSRegistry (sv_bundle srv))"
    by (auto simp: server_New_def bootstrapRouter_def attempt_Inr pass_on_Inr Let_def)
  from n obtain nets ts bs where c: "compile_flows env nets (rou_Flows (cfg_Routing cfg))
      \<lparr>bs_reg = NewRegistry, bs_drawn = 0\<rparr> = Some (Inr (ts, bs))" and r: "rb_TLSRegistry b = bs_reg bs"
    by (auto simp: NewRouter_def attempt_Inr pass_on_Inr Let_def)
  have "distinct (Registry_Dirs NewRegistry)" "reg_dirs NewRegistry = {}"
    by (simp_all add: Registry_Dirs_def NewRegistry_def)
  with compile_flows_dirs [OF c] buildTLSConfig_dirs [OF t] r show ?thesis by auto
qed

section \<open>Properties\<close>

text \<open>
  C29. A running gateway watches exactly the directories of the TLS files in its configuration, each
  once: those of the listener and of every upstream of every flow with TLS enabled.  If any of
  them cannot be watched the gateway does not start.
\<close>

theorem running_gateway_watches_tls_files:
  assumes "runGateway env path = Some (code, Some (srv, dirs))"
  shows "\<exists>cfg. LoadConfig (rn_libs env) path = Inr cfg \<and> distinct dirs \<and>
    set dirs = (\<Union>f \<in> set (rou_Flows (cfg_Routing cfg)). \<Union>c \<in> set (flc_Upstreams f). upstream_tls_dirs c) \<union>
      listener_tls_dirs (srv_TLS (cfg_Server cfg)) \<and>
    (\<forall>d \<in> set dirs. rn_Add env d = None)"
proof -
  from assms obtain cfg where l: "LoadConfig (rn_libs env) path = Inr cfg"
    by (auto simp: runGateway_def split: sum.splits)
  with assms have n: "server_New (rn_build env) (rn_version env) cfg = Some (Inr srv)"
    and d: "dirs = Registry_Dirs (rb_TLSRegistry (sv_bundle srv))"
    and a: "dirs = [] \<or> add_dirs (rn_Add env) dirs"
    by (auto simp: runGateway_def Let_def split: if_splits option.splits sum.splits)
  from server_New_dirs [OF n] l a d show ?thesis by (auto simp: add_dirs_all)
qed

definition sample_tls_config :: Config where
  "sample_tls_config = sample_config
     \<lparr>cfg_Server := (cfg_Server sample_config)\<lparr>srv_TLS := \<lparr>stls_Enabled = True, stls_CertFile = ''/c/tls.crt'',
        stls_KeyFile = ''/k/tls.key'', stls_MinVersion = ''1.3'', stls_ClientAuth = ''none'', stls_ClientCAFile = []\<rparr>\<rparr>\<rparr>"

definition sample_run_env :: run_env where
  "sample_run_env = \<lparr>rn_libs = sample_libs\<lparr>lib_ReadFile := (\<lambda>p. Inr []), lib_Unmarshal := (\<lambda>b. Inr sample_tls_config),
       lib_Struct := (\<lambda>c. None)\<rparr>,
     rn_zap = (\<lambda>d. None), rn_build = sample_build_env, rn_version = ''1.0'', rn_NewWatcher = None,
     rn_Add = (\<lambda>d. None), rn_Start = None\<rparr>"

lemma sample_tls_config_loads: "LoadConfig (rn_libs sample_run_env) p = Inr sample_tls_config"
proof -
  have "validateHTTP2 sample_tls_config = None"
    by (simp add: validateHTTP2_def sample_tls_config_def sample_config_def sample_flow_section_def
        sample_upstream_section_def)
  then have "ValidateConfig (rn_libs sample_run_env) sample_tls_config = Inr sample_tls_config"
    using sample_flow_valid
    by (simp add: ValidateConfig_Inr sample_run_env_def sample_libs_def)
      (simp add: sample_tls_config_def sample_config_def)
  then show ?thesis by (simp add: LoadConfig_def) (simp add: sample_run_env_def sample_libs_def)
qed

lemma sample_tls_config_runs:
  "\<exists>srv dirs. runGateway sample_run_env ''aastro.yaml'' = Some (0, Some (srv, dirs))"
proof -
  from sample_config_builds obtain rb where b: "NewRouter sample_build_env ''1.0'' sample_config = Some (Inr rb)" by blast
  have "NewRouter sample_build_env ''1.0'' sample_tls_config = NewRouter sample_build_env ''1.0'' sample_config"
    by (simp add: NewRouter_def sample_tls_config_def)
  with b have "NewRouter sample_build_env ''1.0'' sample_tls_config = Some (Inr rb)" by simp
  then have "\<exists>srv. server_New sample_build_env ''1.0'' sample_tls_config = Some (Inr srv)"
    by (simp add: server_New_def bootstrapRouter_def pass_on_def attempt_def Let_def)
      (simp add: sample_tls_config_def sample_config_def buildTLSConfig_def ParseVersion_def ParseClientAuth_def
        NewReloader_def Reloader_Load_def sample_build_env_def sample_tls_env_def Let_def)
  then obtain srv where "server_New sample_build_env ''1.0'' sample_tls_config = Some (Inr srv)" by blast
  moreover have "add_dirs (\<lambda>d. None) ds" for ds by (simp add: add_dirs_all)
  ultimately show ?thesis
    by (simp add: runGateway_def sample_tls_config_loads Let_def) (simp add: sample_run_env_def logger_New_def)
qed

theorem running_gateway_watches_tls_files_witness:
  "\<exists>srv dirs. runGateway sample_run_env ''aastro.yaml'' = Some (0, Some (srv, dirs)) \<and> set dirs = {''/c'', ''/k''}"
proof -
  from sample_tls_config_runs obtain srv dirs where r: "runGateway sample_run_env ''aastro.yaml'' = Some (0, Some (srv, dirs))"
    by blast
  have "filepath_Dir ''/c/tls.crt'' = ''/c''" "filepath_Dir ''/k/tls.key'' = ''/k''" by code_simp+
  moreover have "set dirs = (\<Union>f \<in> set (rou_Flows (cfg_Routing sample_tls_config)). \<Union>c \<in> set (flc_Upstreams f). upstream_tls_dirs c) \<union>
      listener_tls_dirs (srv_TLS (cfg_Server sample_tls_config))"
    using running_gateway_watches_tls_files [OF r] by (auto simp: sample_tls_config_loads)
  ultimately have "set dirs = {''/c'', ''/k''}"
    by (simp add: sample_tls_config_def sample_config_def sample_flow_section_def sample_upstream_section_def
        upstream_tls_dirs_def listener_tls_dirs_def file_dirs_def insert_Diff_if)
  with r show ?thesis by blast
qed

text \<open>
  Stopping is complete and ordered: whatever fails on the way, both servers are drained before
  the router is closed and the providers are flushed last, the readiness endpoint turns to 503,
  and the result is nil exactly when nothing failed.
\<close>

theorem stop_is_complete:
  "case server_Stop env s of (events, err, s') \<Rightarrow>
     events = [StopData, StopAdmin, StopRouter] @ map StopProvider (sv_providers s) \<and>
     (err = None \<longleftrightarrow> sd_data env = None \<and> sd_admin env = None \<and> list_all (\<lambda>p. sd_provider env p = None) (sv_providers s)) \<and>
     (\<exists>w h. readinessHandler (sv_shuttingDown s') new_writer = Some w \<and> rw_sent w = Some (503, h))"
proof -
  have "concat (map (\<lambda>p. case sd_provider env p of None \<Rightarrow> [] | Some e \<Rightarrow> [ErrWrap ''provider shutdown: '' e]) ps) = [] \<longleftrightarrow>
      list_all (\<lambda>p. sd_provider env p = None) ps" for ps
    by (induction ps) (auto split: option.splits)
  moreover have "\<exists>w h. readinessHandler True new_writer = Some w \<and> rw_sent w = Some (503, h)"
    by (simp add: readinessHandler_def new_writer_def rw_WriteHeader_def rw_edit_def rw_Write_def Let_def)
  ultimately show ?thesis
    by (simp add: server_Stop_def Let_def Router_Close_def errors_Join_def split: option.splits)
qed

text \<open>
  The group waits for both servers: while one of them runs, the failure of the other is not
  returned, and the command does not learn that, say, the port of the data server was taken.
\<close>

lemma start_waits_for_both: "server_Start data admin = None \<longleftrightarrow> data = None \<or> admin = None"
  by (auto simp: server_Start_def Let_def split: option.splits prod.splits)

text \<open>A listener that is configured with TLS never serves without it, and the other way round.\<close>

lemma tls_listener_as_configured:
  assumes "server_New env version cfg = Some (Inr srv)"
  shows "startDataServer tls plain srv = (if stls_Enabled (srv_TLS (cfg_Server cfg)) then tls else plain)"
proof -
  have "tc \<noteq> None \<longleftrightarrow> stls_Enabled c" if "buildTLSConfig te c http2 reg = Inr (tc, reg')" for te c http2 reg tc reg'
    using that by (auto simp: buildTLSConfig_def split: if_splits sum.splits)
  with assms show ?thesis
    by (fastforce simp: server_New_def startDataServer_def attempt_Inr Let_def)
qed

end
