(* ===== verification/Commands.thy ===== *)
theory Commands
  imports OpenAPI_Roundtrip Server
begin

text \<open>
  The two programs around the gateway: \<^verbatim>\<open>aastroctl\<close> (\<^verbatim>\<open>cmd/aastroctl\<close>), which exports and imports OpenAPI
  documents and makes plugin skeletons, and the command line of \<^verbatim>\<open>aastro\<close> (\<^verbatim>\<open>cmd/aastro\<close>).  A command returns what
  it wrote, in order, and its error or exit code.  The codecs, the templates and the system calls are
  parameters.
\<close>

section \<open>Effects\<close>

datatype effect = Stdout bytes | Stderr string | WriteFile string bytes | MkdirAll string

definition nl :: string where "nl = [CHR 0x0A]"

fun Error :: "go_error \<Rightarrow> string" where
  "Error ErrCanceled = ''context canceled''"
| "Error ErrDeadlineExceeded = ''context deadline exceeded''"
| "Error (ErrMsg s) = s"
| "Error (ErrWrap m e) = m @ Error e"
| "Error (ErrJoin es) = Join (map Error es) nl"

text \<open>A node of the YAML library, as the pruning sees it.\<close>

datatype yaml_Kind = KindDocument | KindSequence | KindMapping | KindScalar | KindAlias | KindOther

datatype yaml_Node = Node (yn_Kind: yaml_Kind) (yn_Tag: string) (yn_Value: string) (yn_Content: "yaml_Node list")

record plugin_data =
  pd_Name :: string
  pd_Description :: string
  pd_Author :: string

text \<open>
  An encoder fails when it encodes or when it is closed: the outer and the inner error of \<open>ct_EncodeDocument\<close> and
  \<open>ct_EncodeNode\<close>.
\<close>

record ctl_env =
  ct_libs :: config_libs
  ct_openapi :: openapi_env
  ct_Stat :: "string \<Rightarrow> go_error option"
  ct_MkdirAll :: "string \<Rightarrow> go_error option"
  ct_WriteFile :: "string \<Rightarrow> bytes \<Rightarrow> go_error option"
  ct_Stdout :: "bytes \<Rightarrow> go_error option"
  ct_DecodeDocument :: "bytes \<Rightarrow> go_error + Document"
  ct_EncodeDocument :: "Document \<Rightarrow> go_error + go_error + bytes"
  ct_MarshalIndent :: "Document \<Rightarrow> go_error + bytes"
  ct_Marshal :: "Config \<Rightarrow> go_error + bytes"
  ct_DecodeNode :: "bytes \<Rightarrow> go_error + yaml_Node"
  ct_EncodeNode :: "yaml_Node \<Rightarrow> go_error + go_error + bytes"
  ct_ParseFS :: "string \<Rightarrow> go_error + (plugin_data \<Rightarrow> go_error + bytes)"
  ct_Source :: "bytes \<Rightarrow> go_error + bytes"
  ct_version :: string

type_synonym command = "effect list \<times> go_error option"

definition valueOr :: "string \<Rightarrow> string \<Rightarrow> string" where
  "valueOr s fallback = (if s = [] then fallback else s)"

section \<open>Output\<close>

definition printWarnings :: "oa_Warning list \<Rightarrow> effect list" where
  "printWarnings ws = map (\<lambda>w. Stderr (''warning: '' @ Warning_String w @ nl)) ws"

definition writeOutput :: "ctl_env \<Rightarrow> string \<Rightarrow> bytes \<Rightarrow> command" where
  "writeOutput env path data =
     (if path = [] \<or> path = ''-'' then ([Stdout data], ct_Stdout env data)
      else case ct_WriteFile env path data of
        Some err \<Rightarrow> ([WriteFile path data], Some (ErrWrap ''write output: '' err))
      | None \<Rightarrow> ([WriteFile path data, Stderr (''created '' @ path @ nl)], None))"

text \<open>\<^verbatim>\<open>filepath.Ext\<close>: from the last dot of the last element of the path.\<close>

definition filepath_Ext :: "string \<Rightarrow> string" where
  "filepath_Ext p =
     (let r = takeWhile (\<lambda>c. c \<noteq> CHR ''/'') (rev p) in
      if CHR ''.'' \<in> set r then CHR ''.'' # rev (takeWhile (\<lambda>c. c \<noteq> CHR ''.'') r) else [])"

definition resolveOpenAPIFormat :: "ctl_env \<Rightarrow> string \<Rightarrow> string \<Rightarrow> string" where
  "resolveOpenAPIFormat env fmt outPath =
     (if fmt \<noteq> [] then ToLower (ct_openapi env) fmt
      else if ToLower (ct_openapi env) (filepath_Ext outPath) = ''.json'' then ''json'' else ''yaml'')"

definition marshalOpenAPIDoc :: "ctl_env \<Rightarrow> Document \<Rightarrow> string \<Rightarrow> go_error + bytes" where
  "marshalOpenAPIDoc env doc fmt =
     (if fmt = ''yaml'' then
        (case ct_EncodeDocument env doc of
           Inl err \<Rightarrow> Inl (ErrWrap ''marshal yaml: '' err)
         | Inr (Inl err) \<Rightarrow> Inl (ErrWrap ''close yaml encoder: '' err)
         | Inr (Inr data) \<Rightarrow> Inr data)
      else if fmt = ''json'' then
        (case ct_MarshalIndent env doc of
           Inl err \<Rightarrow> Inl (ErrWrap ''marshal json: '' err)
         | Inr data \<Rightarrow> Inr (data @ nl))
      else Inl (ErrMsg (''unsupported format '' @ Quote (oe_print (ct_openapi env)) fmt @ '' (must be yaml or json)'')))"

section \<open>Pruning\<close>

definition isZeroNode :: "yaml_Node \<Rightarrow> bool" where
  "isZeroNode n =
     (case yn_Kind n of
        KindScalar \<Rightarrow> yn_Tag n = ''!!null'' \<or> yn_Value n \<in> {[], ''0'', ''false'', ''0s''}
      | KindMapping \<Rightarrow> yn_Content n = []
      | KindSequence \<Rightarrow> yn_Content n = []
      | _ \<Rightarrow> False)"

text \<open>The content of a mapping holds keys and values in turn.\<close>

fun pruneZeroNodes :: "yaml_Node \<Rightarrow> yaml_Node" and prune_entries :: "yaml_Node list \<Rightarrow> yaml_Node list" where
  "pruneZeroNodes (Node KindDocument tag val cs) = Node KindDocument tag val (map pruneZeroNodes cs)"
| "pruneZeroNodes (Node KindMapping tag val cs) = Node KindMapping tag val (prune_entries cs)"
| "pruneZeroNodes (Node KindSequence tag val cs) = Node KindSequence tag val (map pruneZeroNodes cs)"
| "pruneZeroNodes (Node k tag val cs) = Node k tag val cs"
| "prune_entries (key # val # rest) =
     (let val' = pruneZeroNodes val in
      if isZeroNode val' then prune_entries rest else key # val' # prune_entries rest)"
| "prune_entries _ = []"

definition cloneConfig :: "ctl_env \<Rightarrow> Config \<Rightarrow> go_error + Config" where
  "cloneConfig env cfg =
     (case ct_Marshal env cfg of
        Inl err \<Rightarrow> Inl (ErrWrap ''marshal config: '' err)
      | Inr raw \<Rightarrow>
          (case lib_Unmarshal (ct_libs env) raw of
             Inl err \<Rightarrow> Inl (ErrWrap ''clone config: '' err)
           | Inr clone \<Rightarrow> Inr clone))"

definition marshalConfigPruned :: "ctl_env \<Rightarrow> Config \<Rightarrow> go_error + bytes" where
  "marshalConfigPruned env cfg =
     (case ct_Marshal env cfg of
        Inl err \<Rightarrow> Inl (ErrWrap ''marshal config: '' err)
      | Inr raw \<Rightarrow>
          (case ct_DecodeNode env raw of
             Inl err \<Rightarrow> Inl (ErrWrap ''reparse config: '' err)
           | Inr node \<Rightarrow>
               (case ct_EncodeNode env (pruneZeroNodes node) of
                  Inl err \<Rightarrow> Inl (ErrWrap ''encode pruned config: '' err)
                | Inr (Inl err) \<Rightarrow> Inl (ErrWrap ''close yaml encoder: '' err)
                | Inr (Inr data) \<Rightarrow> Inr data)))"

section \<open>Export and import\<close>

record openapiExportFlags =
  xf_config :: string
  xf_output :: string
  xf_format :: string
  xf_oasVersion :: string
  xf_servers :: "string list"
  xf_title :: string
  xf_apiVersion :: string
  xf_extensions :: bool

definition export_options :: "ctl_env \<Rightarrow> openapiExportFlags \<Rightarrow> Options" where
  "export_options env f = \<lparr>eo_OASVersion = xf_oasVersion f, eo_Title = xf_title f, eo_APIVersion = xf_apiVersion f,
     eo_Servers = xf_servers f, eo_Extensions = xf_extensions f, eo_GeneratorVersion = valueOr (ct_version env) ''dev''\<rparr>"

definition runOpenAPIExport :: "ctl_env \<Rightarrow> openapiExportFlags \<Rightarrow> command" where
  "runOpenAPIExport env f =
     (case LoadConfig (ct_libs env) (xf_config f) of
        Inl err \<Rightarrow> ([], Some (ErrWrap ''load config: '' err))
      | Inr cfg \<Rightarrow>
          (case FromConfig (ct_openapi env) cfg (export_options env f) of
             Inl err \<Rightarrow> ([], Some err)
           | Inr (doc, warnings) \<Rightarrow>
               (case marshalOpenAPIDoc env doc (resolveOpenAPIFormat env (xf_format f) (xf_output f)) of
                  Inl err \<Rightarrow> (printWarnings warnings, Some err)
                | Inr data \<Rightarrow> (case writeOutput env (xf_output f) data of (es, r) \<Rightarrow> (printWarnings warnings @ es, r)))))"

record openapiImportFlags =
  if_input :: string
  if_output :: string
  if_defaultHost :: string
  if_mode :: string
  if_serverPort :: int
  if_adminPort :: int
  if_force :: bool

definition import_options :: "openapiImportFlags \<Rightarrow> ImportOptions" where
  "import_options f = \<lparr>io_DefaultHost = if_defaultHost f, io_Mode = if_mode f, io_ServerPort = if_serverPort f,
     io_AdminPort = if_adminPort f\<rparr>"

definition runOpenAPIImport :: "ctl_env \<Rightarrow> openapiImportFlags \<Rightarrow> command" where
  "runOpenAPIImport env f =
     (if if_output f \<noteq> ''-'' \<and> \<not> if_force f \<and> ct_Stat env (if_output f) = None
      then ([], Some (ErrMsg (''file already exists: '' @ if_output f @ '' (use --force to overwrite)'')))
      else
     (case lib_ReadFile (ct_libs env) (if_input f) of
        Inl err \<Rightarrow> ([], Some (ErrWrap ''read document: '' err))
      | Inr data \<Rightarrow>
     (case ct_DecodeDocument env data of
        Inl err \<Rightarrow> ([], Some (ErrWrap ''parse OpenAPI document: '' err))
      | Inr doc \<Rightarrow>
     (case ToConfig (ct_openapi env) (Some doc) (import_options f) of
        (Inl err, warnings) \<Rightarrow> ([], Some err)
      | (Inr cfg, warnings) \<Rightarrow>
     (case cloneConfig env cfg of
        Inl err \<Rightarrow> (printWarnings warnings, Some err)
      | Inr clone \<Rightarrow>
     (case ValidateConfig (ct_libs env) clone of
        Inl err \<Rightarrow> (printWarnings warnings,
          Some (ErrWrap (''generated configuration failed validation (this is a bug, please report it):'' @ nl) err))
      | Inr _ \<Rightarrow>
     (case marshalConfigPruned env cfg of
        Inl err \<Rightarrow> (printWarnings warnings, Some err)
      | Inr out \<Rightarrow> (case writeOutput env (if_output f) out of (es, r) \<Rightarrow> (printWarnings warnings @ es, r)))))))))"

section \<open>Plugin skeletons\<close>

record pluginInitFlags =
  pf_pluginType :: string
  pf_name :: string
  pf_description :: string
  pf_author :: string
  pf_output :: string

definition templateNameForType :: "ctl_env \<Rightarrow> string \<Rightarrow> go_error + string" where
  "templateNameForType env t =
     (if t = ''request'' then Inr ''request_plugin.go.tmpl''
      else if t = ''response'' then Inr ''response_plugin.go.tmpl''
      else if t = ''middleware'' then Inr ''middleware.go.tmpl''
      else Inl (ErrMsg (''unknown plugin type: '' @ Quote (oe_print (ct_openapi env)) t @ '' (must be request, response, middleware)'')))"

definition runPluginInit :: "ctl_env \<Rightarrow> pluginInitFlags \<Rightarrow> command" where
  "runPluginInit env f =
     (case templateNameForType env (pf_pluginType f) of
        Inl err \<Rightarrow> ([], Some err)
      | Inr tmplName \<Rightarrow>
          let out = (if pf_output f = [] then pf_name f @ ''.go'' else pf_output f) in
          if ct_Stat env out = None then ([], Some (ErrMsg (''file already exists: '' @ out)))
          else
     (case ct_ParseFS env (''templates/'' @ tmplName) of
        Inl err \<Rightarrow> ([], Some (ErrWrap ''load template: '' err))
      | Inr tmpl \<Rightarrow>
     (case tmpl \<lparr>pd_Name = pf_name f, pd_Description = pf_description f, pd_Author = pf_author f\<rparr> of
        Inl err \<Rightarrow> ([], Some (ErrWrap ''execute template: '' err))
      | Inr buf \<Rightarrow>
     (case ct_Source env buf of
        Inl err \<Rightarrow> ([], Some (ErrWrap ''format generated code: '' err))
      | Inr formatted \<Rightarrow>
     (case ct_MkdirAll env (filepath_Dir out) of
        Some err \<Rightarrow> ([MkdirAll (filepath_Dir out)], Some (ErrWrap ''create output dir: '' err))
      | None \<Rightarrow>
     (case ct_WriteFile env out formatted of
        Some err \<Rightarrow> ([MkdirAll (filepath_Dir out), WriteFile out formatted], Some (ErrWrap ''write output: '' err))
      | None \<Rightarrow> ([MkdirAll (filepath_Dir out), WriteFile out formatted, Stderr (''created '' @ out @ nl)], None)))))))"

section \<open>The gateway's command line\<close>

record cliFlags =
  cl_configPath :: string
  cl_test :: bool
  cl_testDump :: bool
  cl_quiet :: bool
  cl_showVersion :: bool
  cl_showVersionVerbose :: bool

text \<open>
  \<open>ga_Parse\<close> is the flag parser: the flags and the arguments left over.  \<open>ga_now\<close> is the formatted time of a dump, and the
  three names are those of \<^verbatim>\<open>runtime.Version\<close>, \<^verbatim>\<open>GOOS\<close> and \<^verbatim>\<open>GOARCH\<close>.
\<close>

record gateway_env =
  ga_run :: run_env
  ga_ctl :: ctl_env
  ga_Parse :: "string list \<Rightarrow> go_error + cliFlags \<times> string list"
  ga_Getenv :: "string \<Rightarrow> string"
  ga_now :: string
  ga_commit :: string
  ga_buildDate :: string
  ga_runtime :: string
  ga_GOOS :: string
  ga_GOARCH :: string

definition ErrHelp :: go_error where "ErrHelp = ErrMsg ''pflag: help requested''"

definition parseFlags :: "gateway_env \<Rightarrow> string list \<Rightarrow> effect list \<times> (go_error + cliFlags)" where
  "parseFlags env args =
     (case ga_Parse env args of
        Inl err \<Rightarrow> ([], Inl err)
      | Inr (f, rest) \<Rightarrow>
          (case rest of
             [] \<Rightarrow> ([], Inr f)
           | a # _ \<Rightarrow> ([Stderr (''aastro: unexpected argument: '' @ Quote (oe_print (ct_openapi (ga_ctl env))) a @ nl)],
                        Inl (ErrMsg ''unexpected positional argument''))))"

definition fallbackConfigPath :: string where "fallbackConfigPath = ''/etc/aastro/config.yaml''"

definition resolveConfigPath :: "gateway_env \<Rightarrow> string \<Rightarrow> string" where
  "resolveConfigPath env explicit =
     (if explicit \<noteq> [] then explicit
      else let v = ga_Getenv env ''AASTRO_CONFIG'' in if v \<noteq> [] then v else fallbackConfigPath)"

definition versionOrDev :: "gateway_env \<Rightarrow> string" where
  "versionOrDev env = (if rn_version (ga_run env) = [] then ''dev'' else rn_version (ga_run env))"

definition valueOrUnknown :: "string \<Rightarrow> string" where
  "valueOrUnknown s = (if s = [] then ''unknown'' else s)"

definition printVersion :: "gateway_env \<Rightarrow> effect list" where
  "printVersion env = [Stdout (''aastro/'' @ versionOrDev env @ nl)]"

definition printVersionVerbose :: "gateway_env \<Rightarrow> effect list" where
  "printVersionVerbose env =
     [Stdout (''aastro version: aastro/'' @ versionOrDev env @ nl),
      Stdout (''built with:     '' @ ga_runtime env @ '' ('' @ ga_GOOS env @ ''/'' @ ga_GOARCH env @ '')'' @ nl),
      Stdout (''built at:       '' @ valueOrUnknown (ga_buildDate env) @ nl),
      Stdout (''commit:         '' @ valueOrUnknown (ga_commit env) @ nl)]"

definition Config_WriteTo :: "gateway_env \<Rightarrow> Config \<Rightarrow> command" where
  "Config_WriteTo env cfg =
     (case ct_Marshal (ga_ctl env) cfg of
        Inl err \<Rightarrow> ([], Some (ErrWrap ''marshal config: '' err))
      | Inr data \<Rightarrow> ([Stdout data], ct_Stdout (ga_ctl env) data))"

definition writeDump :: "gateway_env \<Rightarrow> Config \<Rightarrow> string \<Rightarrow> command" where
  "writeDump env cfg cfgPath =
     (let header = ''# configuration file '' @ cfgPath @ '' test is successful'' @ nl @
            ''# aastro/'' @ versionOrDev env @ '' at '' @ ga_now env @ nl @ ''#'' @ nl
      in case ct_Stdout (ga_ctl env) header of
        Some err \<Rightarrow> ([Stdout header], Some err)
      | None \<Rightarrow> (case Config_WriteTo env cfg of (es, r) \<Rightarrow> (Stdout header # es, r)))"

definition runTest :: "gateway_env \<Rightarrow> string \<Rightarrow> bool \<Rightarrow> bool \<Rightarrow> effect list \<times> int" where
  "runTest env cfgPath dump quiet =
     (case LoadConfig (rn_libs (ga_run env)) cfgPath of
        Inl err \<Rightarrow> ([Stderr (''aastro: configuration file '' @ cfgPath @ '' test failed'' @ nl),
                     Stderr (''aastro: '' @ Error err @ nl)], 2)
      | Inr cfg \<Rightarrow>
          let es = (if quiet then [] else [Stderr (''aastro: configuration file '' @ cfgPath @ '' test is successful'' @ nl)]) in
          if dump then
            (case writeDump env cfg cfgPath of
               (ds, Some err) \<Rightarrow> (es @ ds @ [Stderr (''aastro: dump failed: '' @ Error err @ nl)], 1)
             | (ds, None) \<Rightarrow> (es @ ds, 0))
          else (es, 0))"

text \<open>What the gateway itself logs while it runs is not among the effects.\<close>

definition aastro_run :: "gateway_env \<Rightarrow> string list \<Rightarrow> (effect list \<times> int) go" where
  "aastro_run env args =
     (case parseFlags env args of
        (es, Inl err) \<Rightarrow>
          if errors_Is err ErrHelp then Some (es, 0)
          else Some (es @ [Stderr (''Try '' @ [CHR 0x27] @ ''aastro --help'' @ [CHR 0x27] @ '' for more information.'' @ nl)], 1)
      | (es, Inr flags) \<Rightarrow>
          let path = resolveConfigPath env (cl_configPath flags) in
          if cl_showVersionVerbose flags then Some (es @ printVersionVerbose env, 0)
          else if cl_showVersion flags then Some (es @ printVersion env, 0)
          else if cl_testDump flags then Some (case runTest env path True (cl_quiet flags) of (ds, c) \<Rightarrow> (es @ ds, c))
          else if cl_test flags then Some (case runTest env path False (cl_quiet flags) of (ds, c) \<Rightarrow> (es @ ds, c))
          else map_option (\<lambda>(c, _). (es, c)) (runGateway (ga_run env) path))"

section \<open>Lemmas\<close>

lemma printWarnings_files: "WriteFile p d \<notin> set (printWarnings ws)" "Stdout d \<notin> set (printWarnings ws)"
  by (auto simp: printWarnings_def)

lemma writeOutput_effects:
  assumes "writeOutput env path data = (es, r)"
  shows "WriteFile p d \<in> set es \<longleftrightarrow> path \<noteq> [] \<and> path \<noteq> ''-'' \<and> p = path \<and> d = data"
    and "Stdout d \<in> set es \<longleftrightarrow> (path = [] \<or> path = ''-'') \<and> d = data"
  using assms by (auto simp: writeOutput_def split: if_splits option.splits)

text \<open>The entries of a mapping, and what it means that none of them is zero at any depth.\<close>

fun entries :: "yaml_Node list \<Rightarrow> (yaml_Node \<times> yaml_Node) list" where
  "entries (key # val # rest) = (key, val) # entries rest"
| "entries _ = []"

fun pruned :: "yaml_Node \<Rightarrow> bool" and pruned_entries :: "yaml_Node list \<Rightarrow> bool" where
  "pruned (Node KindDocument tag val cs) = list_all pruned cs"
| "pruned (Node KindMapping tag val cs) = pruned_entries cs"
| "pruned (Node KindSequence tag val cs) = list_all pruned cs"
| "pruned (Node k tag val cs) = True"
| "pruned_entries (key # val # rest) = (\<not> isZeroNode val \<and> pruned val \<and> pruned_entries rest)"
| "pruned_entries [key] = False"
| "pruned_entries [] = True"

lemma prune_pruned:
  "pruned (pruneZeroNodes n)" "pruned_entries (prune_entries cs)"
  by (induction n and cs rule: pruneZeroNodes_prune_entries.induct) (auto simp: list_all_iff Let_def)

lemma pruned_prune:
  "pruned n \<Longrightarrow> pruneZeroNodes n = n" "pruned_entries cs \<Longrightarrow> prune_entries cs = cs"
  by (induction n and cs rule: pruneZeroNodes_prune_entries.induct) (auto simp: list_all_iff Let_def intro: map_idI)

lemma entries_prune:
  "entries (prune_entries cs) = filter (\<lambda>(k, x). \<not> isZeroNode x) (map (\<lambda>(k, x). (k, pruneZeroNodes x)) (entries cs))"
  by (induction cs rule: entries.induct) (auto simp: Let_def)

section \<open>Properties\<close>

text \<open>
  The pruning of a generated configuration removes every zero-valued entry at every depth and changes nothing else: the
  entries that remain of a mapping are those whose pruned value is not zero, in their order, and pruning
  again does nothing.
\<close>

theorem prune_normal_form:
  "pruned (pruneZeroNodes n) \<and> pruneZeroNodes (pruneZeroNodes n) = pruneZeroNodes n \<and>
   entries (yn_Content (pruneZeroNodes (Node KindMapping tag val cs))) =
     filter (\<lambda>(k, x). \<not> isZeroNode x) (map (\<lambda>(k, x). (k, pruneZeroNodes x)) (entries cs))"
  by (simp add: prune_pruned pruned_prune entries_prune)

text \<open>The text of a scalar is compared whatever its tag: a string \<^verbatim>\<open>"0"\<close> or \<^verbatim>\<open>"false"\<close> goes with the zeros.\<close>

lemma prune_drops_strings:
  "s \<in> {''0'', ''false'', ''0s''} \<Longrightarrow>
   pruneZeroNodes (Node KindMapping ''!!map'' [] [Node KindScalar ''!!str'' ''name'' [], Node KindScalar ''!!str'' s []]) =
     Node KindMapping ''!!map'' [] []"
  by (simp add: isZeroNode_def)

text \<open>A successful or failed import, taken apart.\<close>

lemma runOpenAPIImport_outputs:
  assumes "runOpenAPIImport env f = (es, r)" "WriteFile p d \<in> set es \<or> Stdout d \<in> set es \<or> r = None"
  obtains data doc cfg ws clone out cfg' where
    "if_output f = ''-'' \<or> if_force f \<or> ct_Stat env (if_output f) \<noteq> None"
    "lib_ReadFile (ct_libs env) (if_input f) = Inr data" "ct_DecodeDocument env data = Inr doc"
    "ToConfig (ct_openapi env) (Some doc) (import_options f) = (Inr cfg, ws)" "cloneConfig env cfg = Inr clone"
    "ValidateConfig (ct_libs env) clone = Inr cfg'" "marshalConfigPruned env cfg = Inr out"
    "es = printWarnings ws @ fst (writeOutput env (if_output f) out)" "r = snd (writeOutput env (if_output f) out)"
  using assms
  by (auto simp: runOpenAPIImport_def printWarnings_files split: if_splits sum.splits prod.splits)


text \<open>
  A sample run: the document exported from the sample configuration, imported again.  The codecs know the one document
  and the one configuration.
\<close>

definition sample_exported :: Document where
  "sample_exported = (case FromConfig sample_openapi_env sample_config sample_options of Inr (doc, ws) \<Rightarrow> doc | Inl _ \<Rightarrow> sample_document)"

definition sample_ctl :: ctl_env where
  "sample_ctl = \<lparr>ct_libs = sample_libs\<lparr>lib_ReadFile := Inr, lib_Unmarshal := (\<lambda>_. Inr sample_config)\<rparr>,
     ct_openapi = sample_openapi_env, ct_Stat = (\<lambda>_. Some (ErrMsg ''no such file'')), ct_MkdirAll = (\<lambda>_. None),
     ct_WriteFile = (\<lambda>_ _. None), ct_Stdout = (\<lambda>_. None), ct_DecodeDocument = (\<lambda>_. Inr sample_exported),
     ct_EncodeDocument = (\<lambda>_. Inr (Inr ''api.yaml'')), ct_MarshalIndent = (\<lambda>_. Inr []), ct_Marshal = (\<lambda>_. Inr ''cfg''),
     ct_DecodeNode = (\<lambda>b. Inr (Node KindScalar ''!!str'' b [])), ct_EncodeNode = (\<lambda>n. Inr (Inr (yn_Value n))),
     ct_ParseFS = (\<lambda>_. Inl (ErrMsg ''no template'')), ct_Source = Inr, ct_version = []\<rparr>"

definition sample_import_flags :: openapiImportFlags where
  "sample_import_flags = \<lparr>if_input = ''api.yaml'', if_output = ''aastro.yaml'', if_defaultHost = [], if_mode = ''proxy'',
     if_serverPort = 0, if_adminPort = 0, if_force = False\<rparr>"

definition sample_export_flags :: openapiExportFlags where
  "sample_export_flags = \<lparr>xf_config = ''aastro.yaml'', xf_output = ''api.yaml'', xf_format = ''yaml'', xf_oasVersion = ''3.1'',
     xf_servers = [], xf_title = [], xf_apiVersion = [], xf_extensions = True\<rparr>"

lemma sample_export_doc: "\<exists>ws. FromConfig sample_openapi_env sample_config sample_options = Inr (sample_exported, ws)"
  using sample_export by (auto simp: sample_exported_def)

lemma sample_loads: "LoadConfig (ct_libs sample_ctl) path = Inr sample_config"
  using sample_config_valid by (simp add: LoadConfig_def sample_ctl_def ValidateConfig_Inr)

lemma sample_import_options: "import_options sample_import_flags = sample_import"
  by (simp add: import_options_def sample_import_flags_def sample_import_def)

lemma sample_import_runs:
  "\<exists>es. runOpenAPIImport sample_ctl sample_import_flags = (es, None) \<and> WriteFile ''aastro.yaml'' ''cfg'' \<in> set es"
proof -
  obtain ws where d: "FromConfig sample_openapi_env sample_config sample_options = Inr (sample_exported, ws)"
    using sample_export_doc by blast
  have "resolveImportMode sample_openapi_env (io_Mode sample_import) = Inr importModeProxy"
    by (simp add: resolveImportMode_def sample_import_def importModeProxy_def)
  from reimported_flows [OF validated_tags [OF sample_libs_sound sample_config_valid] refl _ sample_durations _ d this]
  obtain cfg' ws' where c: "ToConfig sample_openapi_env (Some sample_exported) sample_import = (Inr cfg', ws')"
    by (auto simp: sample_config_def sample_options_def)
  have v: "ValidateConfig (ct_libs sample_ctl) sample_config = Inr sample_config"
    using sample_loads by (simp add: LoadConfig_def sample_ctl_def)
  have "runOpenAPIImport sample_ctl sample_import_flags =
      (printWarnings ws' @ [WriteFile ''aastro.yaml'' ''cfg'', Stderr (''created aastro.yaml'' @ nl)], None)"
    using c v unfolding runOpenAPIImport_def sample_import_options
    by (simp add: sample_ctl_def sample_import_flags_def cloneConfig_def marshalConfigPruned_def writeOutput_def)
  then show ?thesis by simp
qed

lemma sample_export_options: "export_options sample_ctl sample_export_flags = sample_options"
  by (simp add: export_options_def sample_export_flags_def sample_options_def sample_ctl_def valueOr_def)

lemma sample_ctl_openapi: "ct_openapi sample_ctl = sample_openapi_env"
  by (simp add: sample_ctl_def)

lemma sample_export_runs:
  obtains ws where "FromConfig sample_openapi_env sample_config sample_options = Inr (sample_exported, ws)"
    "runOpenAPIExport sample_ctl sample_export_flags =
      (printWarnings ws @ [WriteFile ''api.yaml'' ''api.yaml'', Stderr (''created '' @ ''api.yaml'' @ nl)], None)"
proof -
  obtain ws where d: "FromConfig sample_openapi_env sample_config sample_options = Inr (sample_exported, ws)"
    using sample_export_doc by blast
  have fmt: "resolveOpenAPIFormat sample_ctl (xf_format sample_export_flags) (xf_output sample_export_flags) = ''yaml''"
    by (simp add: sample_export_flags_def resolveOpenAPIFormat_def ToLower_ascii to_lower_def is_upper_def del: ToLower.simps)
  have "runOpenAPIExport sample_ctl sample_export_flags =
      (printWarnings ws @ [WriteFile ''api.yaml'' ''api.yaml'', Stderr (''created '' @ ''api.yaml'' @ nl)], None)"
    unfolding runOpenAPIExport_def sample_loads sample_export_options sample_ctl_openapi fmt
    by (simp add: d marshalOpenAPIDoc_def sample_ctl_def writeOutput_def sample_export_flags_def)
  with d show thesis by (rule that)
qed


text \<open>
  The two commands together restore a configuration: an export with extensions writes a file; if the decoder reads
  back the document that the encoder wrote, an import of that file that succeeds writes the pruned form of a
  validated configuration that has exactly the exported flows, up to order and to what extensions do not hold.
\<close>

theorem export_import_files:
  assumes "validator_sound (ct_libs env)" "LoadConfig (ct_libs env) (xf_config xf) = Inr cfg"
    and "flows = rou_Flows (cfg_Routing cfg)" "distinct (map flow_key flows)"
    and "list_all (\<lambda>f. list_all upstream_durations (flc_Upstreams f)) flows"
    and "runOpenAPIExport env xf = (es, None)" "WriteFile p d \<in> set es" "xf_extensions xf"
    and "\<forall>doc ws. FromConfig (ct_openapi env) cfg (export_options env xf) = Inr (doc, ws) \<longrightarrow> ct_DecodeDocument env d = Inr doc"
    and "lib_ReadFile (ct_libs env) (if_input f) = Inr d"
    and "runOpenAPIImport env f = (es', None)"
  shows "\<exists>cfg' out. mset (rou_Flows (cfg_Routing cfg')) = mset (map (restored_flow (ct_openapi env)) flows) \<and>
    marshalConfigPruned env cfg' = Inr out \<and> (\<exists>ws. es' = printWarnings ws @ fst (writeOutput env (if_output f) out)) \<and>
    (\<exists>clone v. cloneConfig env cfg' = Inr clone \<and> ValidateConfig (ct_libs env) clone = Inr v)"
proof -
  obtain cfg0 where v: "ValidateConfig (ct_libs env) cfg0 = Inr cfg"
    using assms(2) by (auto simp: LoadConfig_def split: sum.splits)
  obtain doc ws where e: "FromConfig (ct_openapi env) cfg (export_options env xf) = Inr (doc, ws)"
    using assms(2,6) by (auto simp: runOpenAPIExport_def split: sum.splits)
  obtain data doc' cfg' ws' clone out v' where i: "lib_ReadFile (ct_libs env) (if_input f) = Inr data"
    "ct_DecodeDocument env data = Inr doc'" "ToConfig (ct_openapi env) (Some doc') (import_options f) = (Inr cfg', ws')"
    "cloneConfig env cfg' = Inr clone" "ValidateConfig (ct_libs env) clone = Inr v'" "marshalConfigPruned env cfg' = Inr out"
    "es' = printWarnings ws' @ fst (writeOutput env (if_output f) out)"
    using runOpenAPIImport_outputs [OF assms(11)] by metis
  have doc: "doc' = doc" using i(1,2) assms(9,10) e by auto
  obtain mode where m: "resolveImportMode (ct_openapi env) (io_Mode (import_options f)) = Inr mode"
    using i(3) by (auto simp: ToConfig_def split: sum.splits)
  have x: "eo_Extensions (export_options env xf)" using assms(8) by (simp add: export_options_def)
  from reimported_flows [OF validated_tags [OF assms(1) v] assms(3-5) x e m] i(3)
  have "mset (rou_Flows (cfg_Routing cfg')) = mset (map (restored_flow (ct_openapi env)) flows)" by (auto simp: doc)
  with i show ?thesis by blast
qed

theorem export_import_files_witness:
  "\<exists>cfg' out. mset (rou_Flows (cfg_Routing cfg')) = mset [restored_flow sample_openapi_env sample_flow_section] \<and>
     marshalConfigPruned sample_ctl cfg' = Inr out"
proof -
  have libs: "validator_sound (ct_libs sample_ctl)"
    using sample_libs_sound by (simp add: sample_ctl_def validator_sound_def)
  obtain ws where d: "FromConfig sample_openapi_env sample_config sample_options = Inr (sample_exported, ws)"
    and x: "runOpenAPIExport sample_ctl sample_export_flags =
      (printWarnings ws @ [WriteFile ''api.yaml'' ''api.yaml'', Stderr (''created '' @ ''api.yaml'' @ nl)], None)"
    by (rule sample_export_runs)
  note opts = sample_export_options and env = sample_ctl_openapi
  obtain es where m: "runOpenAPIImport sample_ctl sample_import_flags = (es, None)" using sample_import_runs by blast
  have fl: "rou_Flows (cfg_Routing sample_config) = [sample_flow_section]" by (simp add: sample_config_def)
  have keys: "distinct (map flow_key (rou_Flows (cfg_Routing sample_config)))" by (simp add: fl)
  have "\<forall>doc ws. FromConfig (ct_openapi sample_ctl) sample_config (export_options sample_ctl sample_export_flags) = Inr (doc, ws) \<longrightarrow>
      ct_DecodeDocument sample_ctl ''api.yaml'' = Inr doc"
    unfolding opts env d by (simp add: sample_ctl_def)
  moreover have "WriteFile ''api.yaml'' ''api.yaml'' \<in> set (printWarnings ws @ [WriteFile ''api.yaml'' ''api.yaml'', Stderr (''created '' @ ''api.yaml'' @ nl)])"
    by simp
  moreover have "xf_extensions sample_export_flags" "lib_ReadFile (ct_libs sample_ctl) (if_input sample_import_flags) = Inr ''api.yaml''"
    by (simp_all add: sample_export_flags_def sample_ctl_def sample_import_flags_def)
  ultimately obtain cfg' out where "mset (rou_Flows (cfg_Routing cfg')) = mset (map (restored_flow sample_openapi_env) [sample_flow_section])"
    "marshalConfigPruned sample_ctl cfg' = Inr out"
    using export_import_files [OF libs sample_loads refl keys sample_durations x] m unfolding env fl by metis
  then show ?thesis by (intro exI conjI) simp_all
qed

text \<open>
  Testing a configuration and running the gateway agree on it: the test exits with 2 if and only if the run does,
  and a test without a dump exits with 0 otherwise.
\<close>

theorem test_agrees_with_run:
  assumes "runGateway (ga_run env) path = Some (code, running)"
  shows "(snd (runTest env path dump quiet) = 2 \<longleftrightarrow> code = 2) \<and>
    snd (runTest env path False quiet) = (if code = 2 then 2 else 0)"
proof -
  have "code = 2 \<longleftrightarrow> (\<exists>err. LoadConfig (rn_libs (ga_run env)) path = Inl err)"
    using assms by (auto simp: runGateway_def Let_def split: sum.splits option.splits if_splits)
  then show ?thesis
    by (cases "LoadConfig (rn_libs (ga_run env)) path") (auto simp: runTest_def Let_def split: prod.splits option.splits)
qed

theorem test_agrees_with_run_witness:
  "snd (runTest \<lparr>ga_run = sample_run_env, ga_ctl = sample_ctl, ga_Parse = (\<lambda>_. Inl ErrHelp), ga_Getenv = (\<lambda>_. []), ga_now = [],
     ga_commit = [], ga_buildDate = [], ga_runtime = [], ga_GOOS = [], ga_GOARCH = []\<rparr> ''aastro.yaml'' False True) = 0"
proof -
  let ?env = "\<lparr>ga_run = sample_run_env, ga_ctl = sample_ctl, ga_Parse = (\<lambda>_. Inl ErrHelp), ga_Getenv = (\<lambda>_. []), ga_now = [],
     ga_commit = [], ga_buildDate = [], ga_runtime = [], ga_GOOS = [], ga_GOARCH = []\<rparr>"
  obtain srv dirs where "runGateway sample_run_env ''aastro.yaml'' = Some (0, Some (srv, dirs))"
    using sample_tls_config_runs by blast
  then have "runGateway (ga_run ?env) ''aastro.yaml'' = Some (0, Some (srv, dirs))" by simp
  from test_agrees_with_run [OF this, of False True] show ?thesis by simp
qed

end
