(* ===== verification/Control_CLI.thy ===== *)
theory Control_CLI
  imports Commands
begin

text \<open>
  The command tree of \<^verbatim>\<open>aastroctl\<close> (\<^verbatim>\<open>cmd/aastroctl\<close>): which commands and flags it registers, with which defaults, how the
  values of the flags reach the commands of \<open>Commands\<close>, and its exit code.  The library \<^verbatim>\<open>cobra\<close>, which parses the
  arguments and answers help, version and usage errors itself, is a parameter; \<open>cobra_sound\<close> says what is
  documented of it.
\<close>

section \<open>Commands and flags\<close>

datatype flag_value = FString string | FStrings "string list" | FInt int | FBool bool

record cobra_Flag =
  cf_Name :: string
  cf_Short :: string
  cf_Default :: flag_value
  cf_Usage :: string
  cf_Required :: bool

datatype ctl_action = NoRun | RunExport | RunImport | RunPluginInit

datatype cobra_Command =
  Command (co_Use: string) (co_Short: string) (co_Long: string) (co_Flags: "cobra_Flag list") (co_Run: ctl_action)
    (co_Children: "cobra_Command list")

definition str_flag :: "string \<Rightarrow> string \<Rightarrow> string \<Rightarrow> string \<Rightarrow> cobra_Flag" where
  "str_flag name short dflt usage = \<lparr>cf_Name = name, cf_Short = short, cf_Default = FString dflt, cf_Usage = usage, cf_Required = False\<rparr>"

definition int_flag :: "string \<Rightarrow> int \<Rightarrow> string \<Rightarrow> cobra_Flag" where
  "int_flag name dflt usage = \<lparr>cf_Name = name, cf_Short = [], cf_Default = FInt dflt, cf_Usage = usage, cf_Required = False\<rparr>"

definition bool_flag :: "string \<Rightarrow> bool \<Rightarrow> string \<Rightarrow> cobra_Flag" where
  "bool_flag name dflt usage = \<lparr>cf_Name = name, cf_Short = [], cf_Default = FBool dflt, cf_Usage = usage, cf_Required = False\<rparr>"

definition strings_flag :: "string \<Rightarrow> string \<Rightarrow> cobra_Flag" where
  "strings_flag name usage = \<lparr>cf_Name = name, cf_Short = [], cf_Default = FStrings [], cf_Usage = usage, cf_Required = False\<rparr>"

definition MarkFlagRequired :: "string \<Rightarrow> cobra_Flag list \<Rightarrow> cobra_Flag list" where
  "MarkFlagRequired name = map (\<lambda>f. if cf_Name f = name then f\<lparr>cf_Required := True\<rparr> else f)"

definition newOpenAPIExportCmd :: cobra_Command where
  "newOpenAPIExportCmd = Command ''export'' ''Generate an OpenAPI document from a gateway configuration''
     (''Loads the configuration through the same pipeline as the gateway '' @
      ''(defaults + validation), so a broken config fails here before any deploy.'')
     [str_flag ''config'' ''c'' ''aastro.yaml'' ''path to the gateway configuration'',
      str_flag ''out'' ''o'' ''-'' (''output file ('' @ [CHR 0x27] @ ''-'' @ [CHR 0x27] @ '' for stdout)''),
      str_flag ''format'' [] [] ''yaml or json (default: by output extension, else yaml)'',
      str_flag ''oas-version'' [] ''3.1'' ''OpenAPI version: 3.1 or 3.0'',
      strings_flag ''server'' ''server URL for servers[] (repeatable)'',
      str_flag ''title'' [] [] ''info.title (default: gateway service name)'',
      str_flag ''api-version'' [] [] ''info.version (default: 0.0.0)'',
      bool_flag ''extensions'' False ''include x-aastro round-trip extensions'']
     RunExport []"

definition newOpenAPIImportCmd :: cobra_Command where
  "newOpenAPIImportCmd = Command ''import'' ''Generate a gateway configuration from an OpenAPI document''
     (''Documents produced by '' @ [CHR 0x27] @ ''openapi export --extensions'' @ [CHR 0x27] @ '' are reconstructed losslessly '' @
      ''(except middleware configs, which are never stored in specs). Foreign documents are '' @
      ''scaffolded as single-upstream flows. The result passes gateway validation but should '' @
      ''be reviewed: check warnings for placeholders and inferred settings.'')
     (MarkFlagRequired ''in''
       [str_flag ''in'' ''i'' [] ''OpenAPI document to import (yaml or json)'',
        str_flag ''out'' ''o'' ''-'' (''output configuration file ('' @ [CHR 0x27] @ ''-'' @ [CHR 0x27] @ '' for stdout)''),
        str_flag ''default-host'' [] [] ''upstream host for scaffolded flows (default: servers[0] from the document)'',
        str_flag ''mode'' [] ''proxy'' ''flow shape for scaffolded operations: proxy or streaming'',
        int_flag ''server-port'' 0 ''gateway data port for the generated config (default: 7805)'',
        int_flag ''admin-port'' 0 ''gateway admin port for the generated config (default: 9090)'',
        bool_flag ''force'' False ''overwrite the output file if it exists''])
     RunImport []"

text \<open>\<^verbatim>\<open>init\<close> of \<^verbatim>\<open>pluginit.go\<close>, of \<^verbatim>\<open>openapi.go\<close>, of \<^verbatim>\<open>plugin.go\<close> and of \<^verbatim>\<open>root.go\<close>.\<close>

definition pluginInitCmd :: cobra_Command where
  "pluginInitCmd = Command ''init'' ''Generate a new plugin or middleware skeleton'' []
     (MarkFlagRequired ''name'' (MarkFlagRequired ''type''
       [str_flag ''type'' [] [] ''plugin type: request, response, middleware'',
        str_flag ''name'' [] [] ''plugin name (required)'',
        str_flag ''description'' [] [] ''plugin description'',
        str_flag ''author'' [] [] ''plugin author'',
        str_flag ''out'' [] [] ''output file path (default: <name>.go in current directory)'']))
     RunPluginInit []"

definition openapiCmd :: cobra_Command where
  "openapiCmd = Command ''openapi'' ''OpenAPI tooling for Aastro configurations'' [] [] NoRun [newOpenAPIExportCmd, newOpenAPIImportCmd]"

definition pluginCmd :: cobra_Command where
  "pluginCmd = Command ''plugin'' ''Generate and manage Aastro plugins'' [] [] NoRun [pluginInitCmd]"

definition rootCmd :: cobra_Command where
  "rootCmd = Command ''aastroctl'' ''Aastro control and developer tool''
     (''aastroctl is a companion tool for the Aastro API gateway. It manages a running daemon and '' @
      ''generates plugin scaffolding.'')
     [] NoRun [openapiCmd, pluginCmd]"

definition versionString :: "gateway_env \<Rightarrow> string" where
  "versionString env =
     valueOr (ct_version (ga_ctl env)) ''dev'' @ '' (commit '' @ valueOr (ga_commit env) ''unknown'' @ '', built '' @
     valueOr (ga_buildDate env) ''unknown'' @ '', '' @ ga_runtime env @ '' '' @ ga_GOOS env @ ''/'' @ ga_GOARCH env @ '')''"

section \<open>Running\<close>

text \<open>
  What \<^verbatim>\<open>cobra\<close> does with the arguments: it answers them itself, or runs the command at the end of a path of names with the
  flags that were given.  An error of the command is printed by \<open>cb_PrintError\<close>.
\<close>

type_synonym flag_values = "(string \<times> flag_value) list"

datatype cobra_outcome = Handled "effect list" "go_error option" | Run "string list" flag_values

record cobra_lib =
  cb_Execute :: "cobra_Command \<Rightarrow> string \<Rightarrow> string list \<Rightarrow> cobra_outcome"
  cb_PrintError :: "go_error \<Rightarrow> effect list"

fun find_command :: "string list \<Rightarrow> cobra_Command \<Rightarrow> cobra_Command option" where
  "find_command [] c = Some c"
| "find_command (n # ns) c =
     (case List.find (\<lambda>d. co_Use d = n) (co_Children c) of None \<Rightarrow> None | Some d \<Rightarrow> find_command ns d)"

text \<open>The variable a flag is bound to, after parsing: the value given, or the default.\<close>

definition flag_var :: "cobra_Command \<Rightarrow> flag_values \<Rightarrow> string \<Rightarrow> flag_value option" where
  "flag_var c vals name =
     (case map_of vals name of
        Some v \<Rightarrow> Some v
      | None \<Rightarrow> map_option cf_Default (List.find (\<lambda>f. cf_Name f = name) (co_Flags c)))"

definition str_var :: "cobra_Command \<Rightarrow> flag_values \<Rightarrow> string \<Rightarrow> string" where
  "str_var c vals name = (case flag_var c vals name of Some (FString s) \<Rightarrow> s | _ \<Rightarrow> [])"

definition strings_var :: "cobra_Command \<Rightarrow> flag_values \<Rightarrow> string \<Rightarrow> string list" where
  "strings_var c vals name = (case flag_var c vals name of Some (FStrings s) \<Rightarrow> s | _ \<Rightarrow> [])"

definition int_var :: "cobra_Command \<Rightarrow> flag_values \<Rightarrow> string \<Rightarrow> int" where
  "int_var c vals name = (case flag_var c vals name of Some (FInt n) \<Rightarrow> n | _ \<Rightarrow> 0)"

definition bool_var :: "cobra_Command \<Rightarrow> flag_values \<Rightarrow> string \<Rightarrow> bool" where
  "bool_var c vals name = (case flag_var c vals name of Some (FBool b) \<Rightarrow> b | _ \<Rightarrow> False)"

definition export_flags :: "flag_values \<Rightarrow> openapiExportFlags" where
  "export_flags vals = (let c = newOpenAPIExportCmd in
     \<lparr>xf_config = str_var c vals ''config'', xf_output = str_var c vals ''out'', xf_format = str_var c vals ''format'',
      xf_oasVersion = str_var c vals ''oas-version'', xf_servers = strings_var c vals ''server'',
      xf_title = str_var c vals ''title'', xf_apiVersion = str_var c vals ''api-version'', xf_extensions = bool_var c vals ''extensions''\<rparr>)"

definition import_flags :: "flag_values \<Rightarrow> openapiImportFlags" where
  "import_flags vals = (let c = newOpenAPIImportCmd in
     \<lparr>if_input = str_var c vals ''in'', if_output = str_var c vals ''out'', if_defaultHost = str_var c vals ''default-host'',
      if_mode = str_var c vals ''mode'', if_serverPort = int_var c vals ''server-port'', if_adminPort = int_var c vals ''admin-port'',
      if_force = bool_var c vals ''force''\<rparr>)"

definition plugin_init_flags :: "flag_values \<Rightarrow> pluginInitFlags" where
  "plugin_init_flags vals = (let c = pluginInitCmd in
     \<lparr>pf_pluginType = str_var c vals ''type'', pf_name = str_var c vals ''name'', pf_description = str_var c vals ''description'',
      pf_author = str_var c vals ''author'', pf_output = str_var c vals ''out''\<rparr>)"

text \<open>The \<^verbatim>\<open>RunE\<close> of a command.\<close>

definition run_action :: "ctl_env \<Rightarrow> ctl_action \<Rightarrow> flag_values \<Rightarrow> command" where
  "run_action env a vals =
     (case a of
        NoRun \<Rightarrow> ([], None)
      | RunExport \<Rightarrow> runOpenAPIExport env (export_flags vals)
      | RunImport \<Rightarrow> runOpenAPIImport env (import_flags vals)
      | RunPluginInit \<Rightarrow> runPluginInit env (plugin_init_flags vals))"

text \<open>\<^verbatim>\<open>main\<close>, with the arguments after the program's name: what it wrote and its exit code.\<close>

definition aastroctl_main :: "cobra_lib \<Rightarrow> gateway_env \<Rightarrow> string list \<Rightarrow> effect list \<times> int" where
  "aastroctl_main cb env args =
     (let (es, err) =
        (case cb_Execute cb rootCmd (versionString env) args of
           Handled es err \<Rightarrow> (es, err)
         | Run path vals \<Rightarrow>
             (case find_command path rootCmd of
                None \<Rightarrow> ([], None)
              | Some c \<Rightarrow>
                  (case run_action (ga_ctl env) (co_Run c) vals of
                     (es, None) \<Rightarrow> (es, None)
                   | (es, Some e) \<Rightarrow> (es @ cb_PrintError cb e, Some e))))
      in (es, if err = None then 0 else 1))"

section \<open>What is relied on\<close>

text \<open>
  \<^verbatim>\<open>cobra\<close> writes no files of its own, runs only commands of the tree that have something to run, and only with flags that are
  declared there, with values of their type, the required ones among them.
\<close>

fun same_type :: "flag_value \<Rightarrow> flag_value \<Rightarrow> bool" where
  "same_type (FString a) (FString b) = True"
| "same_type (FStrings a) (FStrings b) = True"
| "same_type (FInt a) (FInt b) = True"
| "same_type (FBool a) (FBool b) = True"
| "same_type _ _ = False"

definition flags_ok :: "cobra_Command \<Rightarrow> flag_values \<Rightarrow> bool" where
  "flags_ok c vals \<longleftrightarrow>
     (\<forall>(n, v) \<in> set vals. \<exists>f \<in> set (co_Flags c). cf_Name f = n \<and> same_type v (cf_Default f)) \<and>
     (\<forall>f \<in> set (co_Flags c). cf_Required f \<longrightarrow> cf_Name f \<in> fst ` set vals)"

definition writes_no_file :: "effect list \<Rightarrow> bool" where
  "writes_no_file es \<longleftrightarrow> (\<forall>p d. WriteFile p d \<notin> set es)"

definition cobra_sound :: "cobra_lib \<Rightarrow> bool" where
  "cobra_sound cb \<longleftrightarrow>
     (\<forall>e. writes_no_file (cb_PrintError cb e)) \<and>
     (\<forall>root ver args. case cb_Execute cb root ver args of
        Handled es err \<Rightarrow> writes_no_file es
      | Run path vals \<Rightarrow> \<exists>c. find_command path root = Some c \<and> co_Run c \<noteq> NoRun \<and> flags_ok c vals)"

section \<open>Lemmas\<close>

lemmas command_defs = newOpenAPIExportCmd_def newOpenAPIImportCmd_def pluginInitCmd_def openapiCmd_def pluginCmd_def rootCmd_def

lemmas flag_defs = str_flag_def int_flag_def bool_flag_def strings_flag_def MarkFlagRequired_def

text \<open>The commands that can be run, by their paths.\<close>

lemma find_command_tree:
  "find_command (n # ns) rootCmd =
     (if n = ''openapi'' then find_command ns openapiCmd else if n = ''plugin'' then find_command ns pluginCmd else None)"
  "find_command (n # ns) openapiCmd =
     (if n = ''export'' then find_command ns newOpenAPIExportCmd else if n = ''import'' then find_command ns newOpenAPIImportCmd else None)"
  "find_command (n # ns) pluginCmd = (if n = ''init'' then find_command ns pluginInitCmd else None)"
  by (auto simp: rootCmd_def openapiCmd_def pluginCmd_def newOpenAPIExportCmd_def newOpenAPIImportCmd_def pluginInitCmd_def)

lemma find_command_leaf: "co_Children d = [] \<Longrightarrow> find_command ns d = Some c \<longleftrightarrow> ns = [] \<and> c = d"
  by (cases ns) auto

lemma find_command_runs:
  assumes "find_command path rootCmd = Some c" "co_Run c \<noteq> NoRun"
  shows "(path, c) \<in> {([''openapi'', ''export''], newOpenAPIExportCmd), ([''openapi'', ''import''], newOpenAPIImportCmd),
    ([''plugin'', ''init''], pluginInitCmd)}"
proof -
  have leaves: "co_Children newOpenAPIExportCmd = []" "co_Children newOpenAPIImportCmd = []" "co_Children pluginInitCmd = []"
    by (simp_all add: newOpenAPIExportCmd_def newOpenAPIImportCmd_def pluginInitCmd_def)
  have inner: "co_Run rootCmd = NoRun" "co_Run openapiCmd = NoRun" "co_Run pluginCmd = NoRun"
    by (simp_all add: rootCmd_def openapiCmd_def pluginCmd_def)
  obtain n ns where path: "path = n # ns" using assms inner by (cases path) auto
  have ns: "ns \<noteq> []"
    using assms inner unfolding path by (auto simp: find_command_tree simp del: find_command.simps(2) split: if_splits)
  then obtain m ms where ns: "ns = m # ms" by (cases ns) auto
  from assms(1) show ?thesis
    unfolding path ns find_command_tree
    by (auto simp: find_command_tree find_command_leaf leaves simp del: find_command.simps(2) split: if_splits)
qed

lemma runPluginInit_no_clobber:
  assumes "runPluginInit env f = (es, r)" "WriteFile p d \<in> set es"
  shows "ct_Stat env p \<noteq> None"
  using assms by (auto simp: runPluginInit_def Let_def split: sum.splits option.splits if_splits)

lemma runOpenAPIExport_writes:
  assumes "runOpenAPIExport env f = (es, r)" "WriteFile p d \<in> set es"
  shows "p = xf_output f"
  using assms
  by (auto simp: runOpenAPIExport_def printWarnings_files dest: writeOutput_effects(1) [THEN iffD1] split: sum.splits prod.splits)

lemma runOpenAPIImport_writes:
  assumes "runOpenAPIImport env f = (es, r)" "WriteFile p d \<in> set es"
  shows "p = if_output f \<and> (if_force f \<or> ct_Stat env p \<noteq> None)"
proof -
  obtain ws out where "if_output f = ''-'' \<or> if_force f \<or> ct_Stat env (if_output f) \<noteq> None"
    "es = printWarnings ws @ fst (writeOutput env (if_output f) out)"
    using runOpenAPIImport_outputs [OF assms(1)] assms(2) by metis
  with assms(2) show ?thesis
    using writeOutput_effects(1) [OF surjective_pairing, of p d env "if_output f" out] by (auto simp: printWarnings_files)
qed

lemma flag_var_given: "map_of vals name = Some v \<Longrightarrow> flag_var c vals name = Some v"
  by (simp add: flag_var_def)

text \<open>What the commands do when no flag but the required ones is given.\<close>

lemma default_flags:
  "export_flags [] = \<lparr>xf_config = ''aastro.yaml'', xf_output = ''-'', xf_format = [], xf_oasVersion = ''3.1'', xf_servers = [],
     xf_title = [], xf_apiVersion = [], xf_extensions = False\<rparr>"
  "import_flags [(''in'', FString i)] = \<lparr>if_input = i, if_output = ''-'', if_defaultHost = [], if_mode = ''proxy'',
     if_serverPort = 0, if_adminPort = 0, if_force = False\<rparr>"
  "plugin_init_flags [(''type'', FString t), (''name'', FString n)] = \<lparr>pf_pluginType = t, pf_name = n, pf_description = [],
     pf_author = [], pf_output = []\<rparr>"
  by (simp_all add: export_flags_def import_flags_def plugin_init_flags_def str_var_def strings_var_def int_var_def bool_var_def
      flag_var_def command_defs flag_defs Let_def)

section \<open>Overwriting\<close>

text \<open>
  Whatever its arguments, \<^verbatim>\<open>aastroctl\<close> writes over an existing file only when it exports a document to that file or is told
  to with \<^verbatim>\<open>--force\<close>, and it ends with exit code 0 exactly when there was no error.
\<close>

theorem ctl_overwrites_only_when_told:
  assumes "cobra_sound cb" "aastroctl_main cb env args = (es, code)" "WriteFile p d \<in> set es" "ct_Stat (ga_ctl env) p = None"
  shows "\<exists>vals. cb_Execute cb rootCmd (versionString env) args = Run [''openapi'', ''export''] vals \<and> p = xf_output (export_flags vals) \<or>
    cb_Execute cb rootCmd (versionString env) args = Run [''openapi'', ''import''] vals \<and> p = if_output (import_flags vals) \<and>
      map_of vals ''force'' = Some (FBool True)"
proof -
  have outcome: "case cb_Execute cb rootCmd (versionString env) args of Handled es err \<Rightarrow> writes_no_file es
      | Run path vals \<Rightarrow> \<exists>c. find_command path rootCmd = Some c \<and> co_Run c \<noteq> NoRun \<and> flags_ok c vals"
    using assms(1) unfolding cobra_sound_def by blast
  obtain path vals where Run: "cb_Execute cb rootCmd (versionString env) args = Run path vals"
  proof (cases "cb_Execute cb rootCmd (versionString env) args")
    case (Handled es' err)
    with outcome assms(2,3) show thesis by (auto simp: aastroctl_main_def writes_no_file_def)
  qed
  with outcome obtain c where c: "find_command path rootCmd = Some c" "co_Run c \<noteq> NoRun" by auto
  have quiet: "WriteFile p d \<notin> set (cb_PrintError cb e)" for e
    using assms(1) by (auto simp: cobra_sound_def writes_no_file_def)
  obtain es1 r where act: "run_action (ga_ctl env) (co_Run c) vals = (es1, r)" by force
  with Run c assms(2,3) quiet have w: "WriteFile p d \<in> set es1"
    by (auto simp: aastroctl_main_def split: option.splits)
  from find_command_runs [OF c] consider
      (export) "path = [''openapi'', ''export'']" "co_Run c = RunExport"
    | (imp) "path = [''openapi'', ''import'']" "co_Run c = RunImport"
    | (init) "co_Run c = RunPluginInit"
    by (auto simp: command_defs)
  then show ?thesis
  proof cases
    case export
    with act w have "p = xf_output (export_flags vals)" by (auto simp: run_action_def dest: runOpenAPIExport_writes)
    with Run export show ?thesis by blast
  next
    case imp
    with act have "runOpenAPIImport (ga_ctl env) (import_flags vals) = (es1, r)" by (simp add: run_action_def)
    from runOpenAPIImport_writes [OF this w] assms(4) have p: "p = if_output (import_flags vals)" "if_force (import_flags vals)"
      by auto
    then have "map_of vals ''force'' = Some (FBool True)"
      by (auto simp: import_flags_def bool_var_def flag_var_def command_defs flag_defs Let_def split: option.splits flag_value.splits)
    with Run imp p show ?thesis by blast
  next
    case init
    with act w assms(4) show ?thesis by (auto simp: run_action_def dest: runPluginInit_no_clobber)
  qed
qed

text \<open>A library that runs the export for every line of arguments, over files that are all there.\<close>

definition sample_cobra :: cobra_lib where
  "sample_cobra = \<lparr>cb_Execute = (\<lambda>root ver args.
       if root = rootCmd
       then Run [''openapi'', ''export'']
              [(''out'', FString ''api.yaml''), (''format'', FString ''yaml''), (''extensions'', FBool True)]
       else Handled [] None),
     cb_PrintError = (\<lambda>e. [Stderr (''Error: '' @ Error e @ nl)])\<rparr>"

definition sample_shell :: gateway_env where
  "sample_shell = \<lparr>ga_run = sample_run_env, ga_ctl = sample_ctl\<lparr>ct_Stat := (\<lambda>_. None)\<rparr>, ga_Parse = (\<lambda>_. Inl ErrHelp),
     ga_Getenv = (\<lambda>_. []), ga_now = [], ga_commit = [], ga_buildDate = [], ga_runtime = [], ga_GOOS = [], ga_GOARCH = []\<rparr>"

lemma sample_cobra_sound: "cobra_sound sample_cobra"
  by (auto simp: cobra_sound_def sample_cobra_def writes_no_file_def find_command_tree flags_ok_def
      command_defs flag_defs)

theorem ctl_overwrites_only_when_told_witness:
  "\<exists>es. aastroctl_main sample_cobra sample_shell [] = (es, 0) \<and> WriteFile ''api.yaml'' ''api.yaml'' \<in> set es \<and>
     (\<exists>vals. ''api.yaml'' = xf_output (export_flags vals) \<or> ''api.yaml'' = if_output (import_flags vals) \<and>
        map_of vals ''force'' = Some (FBool True))"
proof -
  obtain ws where x: "runOpenAPIExport sample_ctl sample_export_flags =
      (printWarnings ws @ [WriteFile ''api.yaml'' ''api.yaml'', Stderr (''created '' @ ''api.yaml'' @ nl)], None)"
    by (rule sample_export_runs)
  have fl: "export_flags [(''out'', FString ''api.yaml''), (''format'', FString ''yaml''), (''extensions'', FBool True)] = sample_export_flags"
    by (simp add: export_flags_def sample_export_flags_def str_var_def strings_var_def bool_var_def flag_var_def
        command_defs flag_defs Let_def)
  have same: "runOpenAPIExport (sample_ctl\<lparr>ct_Stat := s\<rparr>) f = runOpenAPIExport sample_ctl f" for s f
  proof -
    let ?e = "sample_ctl\<lparr>ct_Stat := s\<rparr>"
    have "ct_libs ?e = ct_libs sample_ctl" "ct_openapi ?e = ct_openapi sample_ctl" "export_options ?e = export_options sample_ctl"
      "marshalOpenAPIDoc ?e = marshalOpenAPIDoc sample_ctl" "resolveOpenAPIFormat ?e = resolveOpenAPIFormat sample_ctl"
      "writeOutput ?e = writeOutput sample_ctl"
      by (simp_all add: fun_eq_iff export_options_def marshalOpenAPIDoc_def resolveOpenAPIFormat_def writeOutput_def)
    then show ?thesis unfolding runOpenAPIExport_def by (simp only:)
  qed
  have "aastroctl_main sample_cobra sample_shell [] =
      (printWarnings ws @ [WriteFile ''api.yaml'' ''api.yaml'', Stderr (''created '' @ ''api.yaml'' @ nl)], 0)"
    by (simp add: aastroctl_main_def sample_cobra_def sample_shell_def find_command_tree newOpenAPIExportCmd_def run_action_def
        fl same x del: find_command.simps(2))
  moreover from ctl_overwrites_only_when_told [OF sample_cobra_sound this, of "''api.yaml''" "''api.yaml''"]
  have "\<exists>vals. ''api.yaml'' = xf_output (export_flags vals) \<or> ''api.yaml'' = if_output (import_flags vals) \<and>
      map_of vals ''force'' = Some (FBool True)"
    by (auto simp: sample_shell_def)
  ultimately show ?thesis by auto
qed

end
