(* ===== verification/Metrics.thy ===== *)
theory Metrics
  imports Router Observability
begin

text \<open>
  The measurements that the gateway records while it handles a request (\<^verbatim>\<open>internal/metric/otel.go\<close> and the calls
  of it in \<^verbatim>\<open>upstream.go\<close>, \<^verbatim>\<open>scatter.go\<close> and \<^verbatim>\<open>router.go\<close>).  Every function that records something is here once more,
  with its measurements beside its result; the lemmas show that they do not change the result and what they
  count.  The measurements of a call that ends in a panic are not kept, and those of concurrent calls stand in the
  order in which the calls finish.
\<close>

section \<open>Instruments\<close>

datatype FailReason = FailReasonNoMatchedFlow | FailReasonBodyTooLarge | FailReasonTooManyRequests

fun FailReason_string :: "FailReason \<Rightarrow> string" where
  "FailReason_string FailReasonNoMatchedFlow = ''no_matched_flow''"
| "FailReason_string FailReasonBodyTooLarge = ''body_too_large''"
| "FailReason_string FailReasonTooManyRequests = ''too_many_requests''"

datatype instrument =
    requestsTotal
  | requestsDuration
  | requestsInFlight
  | failedRequestsTotal
  | upstreamLatency
  | upstreamRequestsTotal
  | upstreamErrorsTotal
  | upstreamRetriesTotal
  | circuitBreakerState

datatype attribute = AttrString string string | AttrInt string int

text \<open>
  A counter is added to and a histogram or gauge records a value.  A duration is kept exactly; the source rounds it to
  binary64.
\<close>

datatype measurement = Add instrument int "attribute list" | Record instrument rat "attribute list"

definition Seconds :: "duration \<Rightarrow> rat" where
  "Seconds d = of_int d / 1000000000"

definition IncRequestsTotal :: "string \<Rightarrow> string \<Rightarrow> int \<Rightarrow> measurement" where
  "IncRequestsTotal route meth status =
     Add requestsTotal 1 [AttrString ''route'' route, AttrString ''method'' meth, AttrInt ''status'' status]"

definition UpdateRequestsDuration :: "string \<Rightarrow> string \<Rightarrow> duration \<Rightarrow> measurement" where
  "UpdateRequestsDuration route meth elapsed =
     Record requestsDuration (Seconds elapsed) [AttrString ''route'' route, AttrString ''method'' meth]"

definition IncRequestsInFlight :: measurement where "IncRequestsInFlight = Add requestsInFlight 1 []"

definition DecRequestsInFlight :: measurement where "DecRequestsInFlight = Add requestsInFlight (- 1) []"

definition IncFailedRequestsTotal :: "FailReason \<Rightarrow> measurement" where
  "IncFailedRequestsTotal reason = Add failedRequestsTotal 1 [AttrString ''reason'' (FailReason_string reason)]"

definition UpdateUpstreamLatency :: "string \<Rightarrow> string \<Rightarrow> duration \<Rightarrow> measurement" where
  "UpdateUpstreamLatency route upstream elapsed =
     Record upstreamLatency (Seconds elapsed) [AttrString ''route'' route, AttrString ''upstream'' upstream]"

definition IncUpstreamRequestsTotal :: "string \<Rightarrow> string \<Rightarrow> measurement" where
  "IncUpstreamRequestsTotal route upstream =
     Add upstreamRequestsTotal 1 [AttrString ''route'' route, AttrString ''upstream'' upstream]"

definition IncUpstreamErrorsTotal :: "string \<Rightarrow> string \<Rightarrow> string \<Rightarrow> measurement" where
  "IncUpstreamErrorsTotal route upstream kind =
     Add upstreamErrorsTotal 1 [AttrString ''route'' route, AttrString ''upstream'' upstream, AttrString ''kind'' kind]"

definition IncUpstreamRetriesTotal :: "string \<Rightarrow> string \<Rightarrow> measurement" where
  "IncUpstreamRetriesTotal route upstream =
     Add upstreamRetriesTotal 1 [AttrString ''route'' route, AttrString ''upstream'' upstream]"

definition SetCircuitBreakerState :: "string \<Rightarrow> rat \<Rightarrow> measurement" where
  "SetCircuitBreakerState upstream st = Record circuitBreakerState st [AttrString ''upstream'' upstream]"

fun instrument_of :: "measurement \<Rightarrow> instrument" where
  "instrument_of (Add i n as) = i"
| "instrument_of (Record i x as) = i"

lemmas metric_defs = IncRequestsTotal_def UpdateRequestsDuration_def IncRequestsInFlight_def DecRequestsInFlight_def
  IncFailedRequestsTotal_def UpdateUpstreamLatency_def IncUpstreamRequestsTotal_def IncUpstreamErrorsTotal_def
  IncUpstreamRetriesTotal_def SetCircuitBreakerState_def

definition count_of :: "instrument \<Rightarrow> measurement list \<Rightarrow> nat" where
  "count_of i ms = length (filter (\<lambda>m. instrument_of m = i) ms)"

lemma count_of_simps [simp]:
  "count_of i [] = 0" "count_of i (m # ms) = (if instrument_of m = i then 1 else 0) + count_of i ms"
  "count_of i (ms @ ms') = count_of i ms + count_of i ms'"
  by (simp_all add: count_of_def)

section \<open>Meters\<close>

text \<open>
  A function beside the one that also makes records (measurements here, spans in the theory of traces): the same
  result, and a result whenever there was one.
\<close>

locale meter =
  fixes plain :: "'a \<Rightarrow> 'b option"
    and metered :: "'a \<Rightarrow> ('b \<times> 'm) option"
  assumes transparent: "map_option fst (metered a) = plain a"
begin

lemma result: "metered a = Some (b, ms) \<Longrightarrow> plain a = Some b"
  using transparent [of a] by simp

lemma returns: "plain a = Some b \<Longrightarrow> \<exists>ms. metered a = Some (b, ms)"
  using transparent [of a] by (cases "metered a") auto

end

section \<open>Upstream calls\<close>

fun kind_string :: "upstreamErrorKind \<Rightarrow> string" where
  "kind_string upstreamTimeout = ''timeout''"
| "kind_string upstreamCanceled = ''canceled''"
| "kind_string upstreamConnection = ''connection''"
| "kind_string upstreamRedirect = ''redirect''"
| "kind_string upstreamClientError = ''client_error''"
| "kind_string upstreamBadStatus = ''bad_status''"
| "kind_string upstreamReadError = ''read_error''"
| "kind_string upstreamBodyTooLarge = ''body_too_large''"
| "kind_string upstreamCircuitOpen = ''circuit_open''"
| "kind_string upstreamInternal = ''internal''"
| "kind_string upstreamPolicyViolation = ''policy_violation''"
| "kind_string (OtherKind s) = s"

fun State_float :: "State \<Rightarrow> rat" where
  "State_float Closed = 0"
| "State_float Open = 1"
| "State_float HalfOpen = 2"

definition breaker_gauge :: "httpUpstream \<Rightarrow> measurement list" where
  "breaker_gauge u =
     (case hu_breaker u of
        None \<Rightarrow> []
      | Some b \<Rightarrow> [SetCircuitBreakerState (uc_name (hu_cfg u)) (State_float (breaker_State b))])"

function retry_loop_m ::
  "externals \<Rightarrow> (nat \<Rightarrow> attempt_env) \<Rightarrow> retryPolicy \<Rightarrow> string \<Rightarrow> Context \<Rightarrow> Request \<Rightarrow> bytes \<Rightarrow>
     nat \<Rightarrow> upstreamResponse option \<Rightarrow> Request list \<Rightarrow> measurement list \<Rightarrow> httpUpstream \<Rightarrow>
     ((upstreamResponse option \<times> httpUpstream \<times> Request list) \<times> measurement list) go" where
  "retry_loop_m ext env rp meth ctx original body attempt resp sent ms u =
     (if int attempt > maxRetries rp then Some ((resp, u, sent), ms)
      else
        let ms1 = (if attempt > 0 then ms @ [IncUpstreamRetriesTotal (routeFromContext ctx) (uc_name (hu_cfg u))] else ms) in
        case at_ctxErr (env attempt) of
          Some err \<Rightarrow> Some ((Some (failed_with upstreamCanceled err), u, sent), ms1)
        | None \<Rightarrow>
            let (allowed, u1) = breaker_admits (at_now (env attempt)) u in
            if \<not> allowed then
              Some ((Some (failed_with upstreamCircuitOpen (ErrMsg ''upstream circuit breaker is open'')), u1, sent),
                    ms1 @ breaker_gauge u1)
            else
              (case doCall ext ctx original body (env attempt) u1 of
                 None \<Rightarrow> None
               | Some (r, u2, reqs) \<Rightarrow>
                   if int attempt = maxRetries rp \<or> \<not> shouldRetry meth r rp
                   then Some ((Some r, u2, sent @ reqs), ms1)
                   else
                     (case (if backoffDelay rp > 0 then at_backoff (env attempt) else None) of
                        Some err \<Rightarrow> Some ((Some (failed_with upstreamCanceled err), u2, sent @ reqs), ms1)
                      | None \<Rightarrow>
                          retry_loop_m ext env rp meth ctx original body (attempt + 1) (Some r)
                            (sent @ reqs) ms1 u2)))"
  by pat_completeness auto

termination retry_loop_m
  by (relation "measure (\<lambda>(ext, env, rp, m, ctx, orig, b, attempt, r, s, ms, u). nat (maxRetries rp + 1 - int attempt))")
    auto

declare retry_loop_m.simps [simp del]

definition applyPolicy_m :: "Context \<Rightarrow> upstreamConfig \<Rightarrow> upstreamResponse \<Rightarrow> measurement list" where
  "applyPolicy_m ctx cfg resp =
     (if (case ur_err resp of None \<Rightarrow> False | Some e \<Rightarrow> \<not> isStatusFailure (ue_kind e)) then []
      else if requireBody (uc_policy cfg) \<and> length (ur_body resp) = 0
      then [IncUpstreamErrorsTotal (routeFromContext ctx) (uc_name cfg) ''policy_violation''] else [])"

definition upstream_call_m ::
  "externals \<Rightarrow> (nat \<Rightarrow> attempt_env) \<Rightarrow> time \<Rightarrow> Context \<Rightarrow> Request \<Rightarrow> bytes \<Rightarrow> httpUpstream \<Rightarrow>
     ((upstreamResponse \<times> httpUpstream \<times> Request list) \<times> measurement list) go" where
  "upstream_call_m ext env now ctx original body u =
     (case retry_loop_m ext env (retry (uc_policy (hu_cfg u))) (effective_method (hu_cfg u) original)
             ctx original body 0 None [] [] u of
        None \<Rightarrow> None
      | Some ((None, u1, sent), ms) \<Rightarrow> None
      | Some ((Some resp, u1, sent), ms) \<Rightarrow>
          let u2 = updateCircuitBreaker now resp u1 in
          Some ((applyPolicy (uc_policy (hu_cfg u2)) resp, u2, sent),
                ms @ breaker_gauge u2 @ applyPolicy_m ctx (hu_cfg u2) resp))"

text \<open>\<open>elapsed\<close> is the time that the call took.\<close>

definition callUpstream_m ::
  "externals \<Rightarrow> call_env \<Rightarrow> duration \<Rightarrow> string \<Rightarrow> Request \<Rightarrow> bytes \<Rightarrow> httpUpstream \<Rightarrow>
     ((upstreamResponse \<times> httpUpstream \<times> Request list) \<times> measurement list) go" where
  "callUpstream_m ext env elapsed path original body u =
     (let name = uc_name (hu_cfg u) in
      map_option
        (\<lambda>((resp, u', sent), ms).
          ((resp, u', sent),
           IncUpstreamRequestsTotal path name # ms @
           (case ur_err resp of None \<Rightarrow> [] | Some e \<Rightarrow> [IncUpstreamErrorsTotal path name (kind_string (ue_kind e))]) @
           [UpdateUpstreamLatency path name elapsed]))
        (upstream_call_m ext (ce_attempts env) (ce_now env) (req_Context original) original body u))"

section \<open>Scatter and dispatch\<close>

text \<open>The times that the upstream calls and the request take.\<close>

record elapsed_env =
  el_call :: "nat \<Rightarrow> duration"
  el_request :: duration

definition scatter_readBody_m :: "body_stream \<Rightarrow> bytes option \<times> measurement list" where
  "scatter_readBody_m body =
     (let (data, err) = ReadAll (LimitReader body (maxBodySize + 1)) in
      if err \<noteq> None then (None, [])
      else if int (length data) > maxBodySize then (None, [IncFailedRequestsTotal FailReasonBodyTooLarge])
      else (Some data, []))"

fun scatter_steps_m ::
  "externals \<Rightarrow> (nat \<Rightarrow> call_env) \<Rightarrow> elapsed_env \<Rightarrow> string \<Rightarrow> Request \<Rightarrow> bytes \<Rightarrow> nat list \<Rightarrow>
     (upstreamResponse \<times> httpUpstream \<times> Request list) list \<Rightarrow> measurement list \<Rightarrow>
     ((upstreamResponse \<times> httpUpstream \<times> Request list) list \<times> measurement list) go" where
  "scatter_steps_m ext envs el path original body [] slots ms = Some (slots, ms)"
| "scatter_steps_m ext envs el path original body (i # order) slots ms =
     (case callUpstream_m ext (envs i) (el_call el i) path original body (fst (snd (slots ! i))) of
        None \<Rightarrow> None
      | Some (result, ms') \<Rightarrow> scatter_steps_m ext envs el path original body order (slots[i := result]) (ms @ ms'))"

definition dispatch_m ::
  "'j handler_env \<Rightarrow> elapsed_env \<Rightarrow> ResponseWriter \<Rightarrow> store \<Rightarrow> req_obj \<Rightarrow> flow \<Rightarrow>
     ((http_resp option \<times> ResponseWriter \<times> store \<times> flow \<times> Request list) \<times> measurement list) go" where
  "dispatch_m he el w st req f =
     (let original = deref st req;
          (body, ms0) = scatter_readBody_m (req_Body original)
      in
      case body of
        None \<Rightarrow> map_option (\<lambda>w'. ((None, w', st, f, []), ms0))
          (WriteError (he_enc he) w ClientErrPayloadTooLarge StatusRequestEntityTooLarge)
      | Some b \<Rightarrow>
          if length (fl_upstreams f) = 1 then
            (case fl_upstreams f of
               [] \<Rightarrow> None
             | u # us \<Rightarrow>
                 map_option
                   (\<lambda>((resp, u', sent), ms).
                      ((Some (buildProxyResponse (he_enc he) (ro_Context req) resp), w, drain req st,
                        f\<lparr>fl_upstreams := [u']\<rparr>, sent), ms0 @ ms))
                   (callUpstream_m (he_ext he) (he_calls he 0) (el_call el 0) (fl_path f) original b u))
          else
            (case scatter_steps_m (he_ext he) (he_calls he) el (fl_path f) original b
                    (he_order he (length (fl_upstreams f))) (map (\<lambda>u. (zero_response, u, [])) (fl_upstreams f)) ms0 of
               None \<Rightarrow> None
             | Some (slots, ms) \<Rightarrow>
                 map_option
                   (\<lambda>resp. ((Some resp, w, drain req st,
                            f\<lparr>fl_upstreams := map (\<lambda>s. fst (snd s)) slots\<rparr>, concat (map (\<lambda>s. snd (snd s)) slots)), ms))
                   (buildResponse (he_codec he) (he_enc he) (ro_Context req) (map fst slots) f)))"

section \<open>Requests\<close>

type_synonym handler_m =
  "ResponseWriter \<Rightarrow> store \<Rightarrow> req_obj \<Rightarrow> flow \<Rightarrow> ((ResponseWriter \<times> flow \<times> Request list) \<times> measurement list) go"

text \<open>The deferred measurement of the duration comes last.\<close>

definition newFlowHandler_m :: "'j handler_env \<Rightarrow> elapsed_env \<Rightarrow> plugin list \<Rightarrow> handler_m" where
  "newFlowHandler_m he el ps w st req0 f =
     (let req = WithContext (request_context he st req0 f) req0;
          deferred = [UpdateRequestsDuration (fl_path f) (fl_method f) (el_request el)]
      in
      if fl_streaming f
      then map_option (\<lambda>out. (out, deferred)) (handleStreaming (he_enc he) (he_ext he) (he_stream he) ps w st req f)
      else
        case executePlugins (he_enc he) PluginTypeRequest ps w st (newContext req) of
          None \<Rightarrow> None
        | Some (ok1, w1, st1, actx1) \<Rightarrow>
            if \<not> ok1 then Some ((w1, f, []), deferred)
            else
              (case dispatch_m he el w1 st1 req f of
                 None \<Rightarrow> None
               | Some ((None, w2, st2, f2, sent), ms) \<Rightarrow> Some ((w2, f2, sent), ms @ deferred)
               | Some ((Some httpResp, w2, st2, f2, sent), ms) \<Rightarrow>
                   (case executePlugins (he_enc he) PluginTypeResponse ps w2 st2
                       (SetResponse (Some httpResp) actx1) of
                      None \<Rightarrow> None
                    | Some (ok3, w3, st3, actx3) \<Rightarrow>
                        if \<not> ok3 then Some ((w3, f2, sent), ms @ deferred)
                        else
                          (case ac_resp actx3 of
                             None \<Rightarrow> None
                           | Some resp \<Rightarrow>
                               map_option
                                 (\<lambda>w4. ((w4, f2, sent),
                                    ms @ IncRequestsTotal (fl_path f) (req_Method (deref st3 req)) (rs_StatusCode resp) # deferred))
                                 (finish w3 (Some resp))))))"

text \<open>
  \<^verbatim>\<open>ServeHTTP\<close> around the handlers of the routes; \<open>rh\<close> gives each route its handler with the measurements it
  makes, behind the route's middlewares.
\<close>

definition allowRequest_m :: "bool \<Rightarrow> measurement list" where
  "allowRequest_m allowed = (if allowed then [] else [IncFailedRequestsTotal FailReasonTooManyRequests])"

definition serve_mux_m ::
  "chi_mux \<Rightarrow> (route \<Rightarrow> handler_m) \<Rightarrow> ResponseWriter \<Rightarrow> store \<Rightarrow> req_obj \<Rightarrow> Router \<Rightarrow>
     ((ResponseWriter \<times> Router \<times> Request list) \<times> measurement list) go" where
  "serve_mux_m chi rh w st req r =
     (case chi_match chi (registered r) (deref st req) of
        NoRoute \<Rightarrow> map_option (\<lambda>w'. ((w', r, []), [IncFailedRequestsTotal FailReasonNoMatchedFlow])) (http_NotFound w)
      | WrongMethod \<Rightarrow> map_option (\<lambda>w'. ((w', r, []), [])) (chi_MethodNotAllowed chi w)
      | Routed i params \<Rightarrow>
          if i < length (rr_flows r) then
            let t = rr_flows r ! i;
                ctx = (ro_Context req)\<lparr>ctx_params := Some params\<rparr>
            in map_option (\<lambda>((w', f', sent), ms). ((w', r\<lparr>rr_flows := (rr_flows r)[i := t\<lparr>rt_flow := f'\<rparr>]\<rparr>, sent), ms))
                 (rh t w st (WithContext ctx req) (rt_flow t))
          else None)"

definition ServeHTTP_m ::
  "chi_mux \<Rightarrow> 'j handler_env \<Rightarrow> rate_env \<Rightarrow> (route \<Rightarrow> handler_m) \<Rightarrow> ResponseWriter \<Rightarrow> store \<Rightarrow> req_obj \<Rightarrow> Router \<Rightarrow>
     ((ResponseWriter \<times> Router \<times> Request list) \<times> measurement list) go" where
  "ServeHTTP_m chi he re rh w st req0 r =
     (let clientIP = extractClientIP (deref st req0) (rr_trustedProxies r);
          req = WithContext (withClientIP (ro_Context req0) clientIP) req0
      in
      case allowRequest (he_enc he) re w clientIP r of
        None \<Rightarrow> None
      | Some (allowed, w1, r1) \<Rightarrow>
          map_option (\<lambda>(out, ms). (out, IncRequestsInFlight # allowRequest_m allowed @ ms @ [DecRequestsInFlight]))
            (if \<not> allowed then Some ((w1, r1, []), []) else serve_mux_m chi rh w1 st req r1))"

section \<open>Lemmas: calls\<close>

lemma retry_loop_transparent:
  "map_option fst (retry_loop_m ext env rp meth ctx original body n resp sent ms u) =
     retry_loop ext env rp meth ctx original body n resp sent u"
proof (induction "nat (maxRetries rp + 1 - int n)" arbitrary: n resp sent ms u)
  case 0
  then show ?case by (simp add: retry_loop_m.simps [of _ _ _ _ _ _ _ n] retry_loop.simps [of _ _ _ _ _ _ _ n])
next
  case (Suc k)
  then have le: "\<not> int n > maxRetries rp" and k: "k = nat (maxRetries rp + 1 - int (Suc n))" by simp_all
  define ms1 where "ms1 = (if n > 0 then ms @ [IncUpstreamRetriesTotal (routeFromContext ctx) (uc_name (hu_cfg u))] else ms)"
  show ?case
    unfolding retry_loop_m.simps [of _ _ _ _ _ _ _ n] retry_loop.simps [of _ _ _ _ _ _ _ n] if_not_P [OF le] Let_def
      ms1_def [symmetric]
    using Suc.hyps(1) [OF k] by (auto split: option.splits prod.splits)
qed

lemma upstream_call_transparent:
  "map_option fst (upstream_call_m ext env now ctx original body u) = upstream_call ext env now ctx original body u"
proof -
  let ?loop = "retry_loop_m ext env (retry (uc_policy (hu_cfg u))) (effective_method (hu_cfg u) original) ctx original body 0 None [] [] u"
  have "callWithRetry ext env ctx original body u = map_option fst ?loop"
    by (simp add: callWithRetry_def retry_loop_transparent)
  then show ?thesis
    by (cases ?loop) (auto simp: upstream_call_m_def upstream_call_def Let_def split: option.splits)
qed

lemma callUpstream_transparent:
  "map_option fst (callUpstream_m ext env elapsed path original body u) = callUpstream ext env original body u"
  unfolding callUpstream_def upstream_call_transparent [symmetric]
  by (cases "upstream_call_m ext (ce_attempts env) (ce_now env) (req_Context original) original body u")
    (auto simp: callUpstream_m_def Let_def)

interpretation call: meter "\<lambda>(ext, env, elapsed, path, original, body, u). callUpstream ext env original body u"
  "\<lambda>(ext, env, elapsed, path, original, body, u). callUpstream_m ext env elapsed path original body u"
  by unfold_locales (auto simp: callUpstream_transparent)

text \<open>What the loop records from an attempt on: a retry for every attempt but the first, and gauges.\<close>

definition loop_measures :: "retryPolicy \<Rightarrow> nat \<Rightarrow> nat \<Rightarrow> measurement list \<Rightarrow> bool" where
  "loop_measures rp n sends ms \<longleftrightarrow>
     instrument_of ` set ms \<subseteq> {upstreamRetriesTotal, circuitBreakerState} \<and>
     int (count_of upstreamRetriesTotal ms) \<le> max 0 (maxRetries rp + 1 - max 1 (int n)) \<and>
     sends \<le> count_of upstreamRetriesTotal ms + (if n = 0 then 1 else 0)"

lemma retry_loop_measures:
  assumes "retry_loop_m ext env rp meth ctx original body n resp sent ms u = Some ((r, u', sent'), ms')"
  shows "\<exists>ms2 reqs. ms' = ms @ ms2 \<and> sent' = sent @ reqs \<and> loop_measures rp n (length reqs) ms2"
  using assms
proof (induction "nat (maxRetries rp + 1 - int n)" arbitrary: n resp sent ms u)
  case 0
  then show ?case by (auto simp: retry_loop_m.simps [of _ _ _ _ _ _ _ n] loop_measures_def)
next
  case (Suc k)
  then have le: "\<not> int n > maxRetries rp" and k: "k = nat (maxRetries rp + 1 - int (Suc n))" by simp_all
  define m1 where "m1 = (if n > 0 then [IncUpstreamRetriesTotal (routeFromContext ctx) (uc_name (hu_cfg u))] else [])"
  have ms1: "(if n > 0 then ms @ [IncUpstreamRetriesTotal (routeFromContext ctx) (uc_name (hu_cfg u))] else ms) = ms @ m1"
    by (simp add: m1_def)
  have gauge: "instrument_of ` set (breaker_gauge v) \<subseteq> {circuitBreakerState}" "count_of upstreamRetriesTotal (breaker_gauge v) = 0" for v
    by (auto simp: breaker_gauge_def metric_defs split: option.splits)
  have m1: "instrument_of ` set m1 \<subseteq> {upstreamRetriesTotal}" "count_of upstreamRetriesTotal m1 = (if n > 0 then 1 else 0)"
    by (auto simp: m1_def metric_defs)
  have stop: "loop_measures rp n sends (m1 @ ms2)"
    if "instrument_of ` set ms2 \<subseteq> {circuitBreakerState}" "count_of upstreamRetriesTotal ms2 = 0" "sends \<le> 1" for sends ms2
    using that m1 le by (auto simp: loop_measures_def)
  note unfold = Suc.prems [unfolded retry_loop_m.simps [of _ _ _ _ _ _ _ n] if_not_P [OF le] Let_def ms1]
  show ?case
  proof (cases "\<exists>v r1 reqs msx. retry_loop_m ext env rp meth ctx original body (Suc n) (Some r1) (sent @ reqs) (ms @ m1) v =
      Some ((r, u', sent'), ms') \<and> length reqs \<le> 1 \<and> int n < maxRetries rp")
    case True
    then obtain v r1 reqs where rest: "retry_loop_m ext env rp meth ctx original body (Suc n) (Some r1) (sent @ reqs) (ms @ m1) v =
        Some ((r, u', sent'), ms')" "length reqs \<le> 1" "int n < maxRetries rp" by blast
    from Suc.hyps(1) [OF k rest(1)] obtain ms2 reqs2 where
      "ms' = (ms @ m1) @ ms2" "sent' = (sent @ reqs) @ reqs2" "loop_measures rp (Suc n) (length reqs2) ms2" by blast
    with m1 rest(2,3) have "ms' = ms @ (m1 @ ms2) \<and> sent' = sent @ (reqs @ reqs2) \<and> loop_measures rp n (length (reqs @ reqs2)) (m1 @ ms2)"
      by (auto simp: loop_measures_def)
    then show ?thesis by blast
  next
    case False
    with unfold show ?thesis
      using stop [of "[]" 0] stop [of "[]"] stop [of "breaker_gauge v" 0 for v] gauge le
      by (fastforce dest: doCall_frame(3) split: option.splits prod.splits if_splits)
  qed
qed

lemma retry_loop_kind:
  assumes "retry_loop ext env rp meth ctx original body 0 None [] u = Some (Some r, u', sent')"
  shows "\<forall>e. ur_err r = Some e \<longrightarrow> ue_kind e \<noteq> upstreamPolicyViolation"
proof -
  let ?ok = "\<lambda>r. \<forall>e. ur_err r = Some e \<longrightarrow> ue_kind e \<noteq> upstreamPolicyViolation"
  have ex: "?ok (fst (exchange ext cfg ctx original body host env))" for cfg host env
    by (auto simp: exchange_def Let_def failed_with_def classifyStatus_def classifyDoError_def readBody_def
        split: sum.splits option.splits if_splits prod.splits)
  have call: "?ok r" if "doCall ext ctx original body env u = Some (r, u', reqs)" for env u r u' reqs
    using doCall_frame(4) [OF that] ex by auto
  have "(\<lambda>(r, v, s). \<forall>x. r = Some x \<longrightarrow> ?ok x) (Some r, u', sent')"
    by (rule retry_loop_rule [OF assms, where I = "\<lambda>n r s v. \<forall>x. r = Some x \<longrightarrow> ?ok x"])
      (auto simp: failed_with_def dest: call)
  then show ?thesis by simp
qed

text \<open>The policy's own measurement, in terms of the response that the policy leaves.\<close>

lemma policy_measures:
  assumes "\<forall>e. ur_err r = Some e \<longrightarrow> ue_kind e \<noteq> upstreamPolicyViolation"
  shows "count_of upstreamErrorsTotal (applyPolicy_m ctx cfg r) =
    (case ur_err (applyPolicy (uc_policy cfg) r) of
       None \<Rightarrow> 0
     | Some e \<Rightarrow> if ue_kind e = upstreamPolicyViolation \<or>
                  ue_kind e = upstreamBadStatus \<and> requireBody (uc_policy cfg) \<and> ur_body r = [] then 1 else 0)"
proof (cases "ur_err r")
  case None
  then show ?thesis by (simp add: applyPolicy_m_def applyPolicy_def Let_def metric_defs)
next
  case (Some e)
  with assms have "ue_kind e \<noteq> upstreamPolicyViolation" by simp
  with Some show ?thesis
    by (cases "ue_kind e") (simp_all add: applyPolicy_m_def applyPolicy_def Let_def metric_defs kind_simps)
qed

lemma callUpstream_m_cases:
  assumes "callUpstream_m ext env elapsed path original body u = Some ((resp, u', sent), ms)"
  obtains r ms1 where "\<forall>e. ur_err r = Some e \<longrightarrow> ue_kind e \<noteq> upstreamPolicyViolation"
    "resp = applyPolicy (uc_policy (hu_cfg u)) r" "hu_cfg u' = hu_cfg u"
    "loop_measures (retry (uc_policy (hu_cfg u))) 0 (length sent) ms1"
    "ms = IncUpstreamRequestsTotal path (uc_name (hu_cfg u)) # ms1 @ breaker_gauge u' @ applyPolicy_m (req_Context original) (hu_cfg u) r @
      (case ur_err resp of None \<Rightarrow> [] | Some e \<Rightarrow> [IncUpstreamErrorsTotal path (uc_name (hu_cfg u)) (kind_string (ue_kind e))]) @
      [UpdateUpstreamLatency path (uc_name (hu_cfg u)) elapsed]"
proof -
  let ?rp = "retry (uc_policy (hu_cfg u))" and ?ctx = "req_Context original"
  let ?loop = "retry_loop_m ext (ce_attempts env) ?rp (effective_method (hu_cfg u) original) ?ctx original body 0 None [] [] u"
  obtain r u1 ms1 where loop: "?loop = Some ((Some r, u1, sent), ms1)"
    and u': "u' = updateCircuitBreaker (ce_now env) r u1" and resp: "resp = applyPolicy (uc_policy (hu_cfg u')) r"
    and ms: "ms = IncUpstreamRequestsTotal path (uc_name (hu_cfg u)) # ms1 @ breaker_gauge u' @ applyPolicy_m ?ctx (hu_cfg u') r @
      (case ur_err resp of None \<Rightarrow> [] | Some e \<Rightarrow> [IncUpstreamErrorsTotal path (uc_name (hu_cfg u)) (kind_string (ue_kind e))]) @
      [UpdateUpstreamLatency path (uc_name (hu_cfg u)) elapsed]"
    using assms by (auto simp: callUpstream_m_def upstream_call_m_def Let_def split: option.splits)
  have plain: "retry_loop ext (ce_attempts env) ?rp (effective_method (hu_cfg u) original) ?ctx original body 0 None [] u = Some (Some r, u1, sent)"
    using retry_loop_transparent [of ext "ce_attempts env" ?rp "effective_method (hu_cfg u) original" ?ctx original body 0 None "[]" "[]" u]
    by (simp add: loop)
  have cfg: "hu_cfg u' = hu_cfg u"
    using retry_loop_frame [OF plain] by (auto simp: u' updateCircuitBreaker_def split: option.splits breakerOutcome.splits)
  have "loop_measures ?rp 0 (length sent) ms1" using retry_loop_measures [OF loop] by auto
  then show thesis using that [OF retry_loop_kind [OF plain] _ cfg] resp ms cfg by simp
qed

text \<open>Which instruments the parts of a call leave alone.\<close>

lemma loop_measures_none:
  "loop_measures rp n sends ms \<Longrightarrow> i \<notin> {upstreamRetriesTotal, circuitBreakerState} \<Longrightarrow> count_of i ms = 0"
  by (fastforce simp: loop_measures_def count_of_def filter_empty_conv)

lemma gauge_measures: "i \<noteq> circuitBreakerState \<Longrightarrow> count_of i (breaker_gauge u) = 0"
  by (auto simp: breaker_gauge_def metric_defs split: option.splits)

lemma policy_measures_none: "i \<noteq> upstreamErrorsTotal \<Longrightarrow> count_of i (applyPolicy_m ctx cfg r) = 0"
  by (auto simp: applyPolicy_m_def metric_defs)

section \<open>Lemmas: requests\<close>

lemma scatter_readBody_transparent: "fst (scatter_readBody_m body) = scatter_readBody body"
  by (simp add: scatter_readBody_m_def scatter_readBody_def split: prod.splits)

lemma scatter_steps_transparent:
  "map_option fst (scatter_steps_m ext envs el path original body order slots ms) =
     scatter_steps ext envs original body order slots"
proof (induction order arbitrary: slots ms)
  case (Cons i order)
  have c: "callUpstream ext (envs i) original body (fst (snd (slots ! i))) =
      map_option fst (callUpstream_m ext (envs i) (el_call el i) path original body (fst (snd (slots ! i))))"
    by (rule callUpstream_transparent [symmetric])
  show ?case
    by (cases "callUpstream_m ext (envs i) (el_call el i) path original body (fst (snd (slots ! i)))")
      (auto simp: c Cons.IH)
qed simp

lemma dispatch_transparent: "map_option fst (dispatch_m he el w st req f) = dispatch he w st req f"
proof -
  obtain b ms0 where b: "scatter_readBody_m (req_Body (deref st req)) = (b, ms0)" by force
  then have b': "scatter_readBody (req_Body (deref st req)) = b" using scatter_readBody_transparent by (metis fst_conv)
  show ?thesis
  proof (cases "length (fl_upstreams f) = 1")
    case True
    then obtain u where u: "fl_upstreams f = [u]" by (cases "fl_upstreams f") auto
    let ?call = "callUpstream_m (he_ext he) (he_calls he 0) (el_call el 0) (fl_path f) (deref st req) (the b) u"
    have c: "callUpstream (he_ext he) (he_calls he 0) (deref st req) (the b) u = map_option fst ?call"
      by (simp add: callUpstream_transparent)
    show ?thesis
    proof (cases b)
      case None
      then show ?thesis by (simp add: dispatch_m_def dispatch_def scatter_call_def b b' u option.map_comp o_def)
    next
      case (Some body)
      with c show ?thesis
        by (cases ?call) (auto simp: dispatch_m_def dispatch_def scatter_call_def b b' u)
    qed
  next
    case False
    let ?steps = "scatter_steps_m (he_ext he) (he_calls he) el (fl_path f) (deref st req) (the b)
      (he_order he (length (fl_upstreams f))) (map (\<lambda>u. (zero_response, u, [])) (fl_upstreams f)) ms0"
    have c: "scatter_steps (he_ext he) (he_calls he) (deref st req) (the b) (he_order he (length (fl_upstreams f)))
        (map (\<lambda>u. (zero_response, u, [])) (fl_upstreams f)) = map_option fst ?steps"
      by (simp add: scatter_steps_transparent)
    show ?thesis
    proof (cases b)
      case None
      with False show ?thesis by (simp add: dispatch_m_def dispatch_def scatter_def b b' option.map_comp o_def)
    next
      case (Some body)
      with False c show ?thesis
        by (cases ?steps) (auto simp: dispatch_m_def dispatch_def scatter_def b b' option.map_comp o_def)
    qed
  qed
qed

lemma newFlowHandler_transparent:
  "map_option fst (newFlowHandler_m he el ps w st req f) = newFlowHandler he ps w st req f"
proof (cases "fl_streaming f")
  case True
  then show ?thesis by (simp add: newFlowHandler_m_def newFlowHandler_def Let_def option.map_comp o_def option.map_ident)
next
  case False
  let ?req = "WithContext (request_context he st req f) req"
  have d: "dispatch he w1 st1 ?req f = map_option fst (dispatch_m he el w1 st1 ?req f)" for w1 st1
    by (simp add: dispatch_transparent)
  have fin: "finish w3 None = None" for w3 by (simp add: finish_def)
  show ?thesis
    unfolding newFlowHandler_m_def newFlowHandler_def Let_def if_not_P [OF False] d
    by (auto simp: option.map_comp o_def fin split: option.splits)
qed

definition add_total :: "instrument \<Rightarrow> measurement list \<Rightarrow> int" where
  "add_total i ms = sum_list (map (\<lambda>m. case m of Add j n as \<Rightarrow> if j = i then n else 0 | Record j x as \<Rightarrow> 0) ms)"

lemma add_total_simps [simp]:
  "add_total i [] = 0"
  "add_total i (m # ms) = (case m of Add j n as \<Rightarrow> if j = i then n else 0 | Record j x as \<Rightarrow> 0) + add_total i ms"
  "add_total i (ms @ ms') = add_total i ms + add_total i ms'"
  by (simp_all add: add_total_def)

lemma add_total_0: "count_of i ms = 0 \<Longrightarrow> add_total i ms = 0"
  by (induction ms) (auto split: measurement.splits if_splits)

text \<open>
  What the upstream side of a request records: every call is counted and timed, every request sent is the first of a
  call or a retry, and the instruments of the router are left alone.
\<close>

definition calls_measured :: "nat \<Rightarrow> measurement list \<Rightarrow> bool" where
  "calls_measured sends ms \<longleftrightarrow>
     count_of upstreamLatency ms = count_of upstreamRequestsTotal ms \<and>
     sends \<le> count_of upstreamRequestsTotal ms + count_of upstreamRetriesTotal ms \<and>
     (\<forall>i \<in> {requestsTotal, requestsDuration, requestsInFlight, failedRequestsTotal}. count_of i ms = 0)"

lemma calls_measured_append:
  "calls_measured n ms \<Longrightarrow> calls_measured n' ms' \<Longrightarrow> calls_measured (n + n') (ms @ ms')"
  by (auto simp: calls_measured_def)

lemma calls_measured_mono: "calls_measured n ms \<Longrightarrow> n' \<le> n \<Longrightarrow> calls_measured n' ms"
  by (auto simp: calls_measured_def)
lemma callUpstream_measured:
  assumes "callUpstream_m ext env elapsed path original body u = Some ((resp, u', sent), ms)"
  shows "calls_measured (length sent) ms"
proof -
  obtain r ms1 where lm: "loop_measures (retry (uc_policy (hu_cfg u))) 0 (length sent) ms1"
    and ms: "ms = IncUpstreamRequestsTotal path (uc_name (hu_cfg u)) # ms1 @ breaker_gauge u' @ applyPolicy_m (req_Context original) (hu_cfg u) r @
      (case ur_err resp of None \<Rightarrow> [] | Some e \<Rightarrow> [IncUpstreamErrorsTotal path (uc_name (hu_cfg u)) (kind_string (ue_kind e))]) @
      [UpdateUpstreamLatency path (uc_name (hu_cfg u)) elapsed]"
    by (rule callUpstream_m_cases [OF assms])
  note parts = loop_measures_none [OF lm] gauge_measures policy_measures_none
  show ?thesis using lm unfolding ms calls_measured_def
    by (auto simp: parts metric_defs loop_measures_def split: option.splits)
qed

definition sends_of :: "(upstreamResponse \<times> httpUpstream \<times> Request list) list \<Rightarrow> nat" where
  "sends_of slots = sum_list (map (\<lambda>s. length (snd (snd s))) slots)"

lemma sends_of_update: "sends_of (slots[i := s]) \<le> sends_of slots + length (snd (snd s))"
proof (induction slots arbitrary: i)
  case (Cons x slots)
  then show ?case by (cases i) (auto simp: sends_of_def add.assoc [symmetric] intro: order_trans)
qed (simp add: sends_of_def)

lemma scatter_steps_measured:
  "scatter_steps_m ext envs el path original body order slots ms = Some (slots', ms') \<Longrightarrow>
     calls_measured (sends_of slots) ms \<Longrightarrow> calls_measured (sends_of slots') ms'"
proof (induction order arbitrary: slots ms)
  case (Cons i order)
  obtain resp u' sent ms1 where c: "callUpstream_m ext (envs i) (el_call el i) path original body (fst (snd (slots ! i))) =
      Some ((resp, u', sent), ms1)"
    using Cons.prems(1) by (auto split: option.splits)
  have "calls_measured (sends_of slots + length sent) (ms @ ms1)"
    by (rule calls_measured_append [OF Cons.prems(2) callUpstream_measured [OF c]])
  moreover have "sends_of (slots[i := (resp, u', sent)]) \<le> sends_of slots + length sent"
    using sends_of_update [of slots i "(resp, u', sent)"] by simp
  ultimately have "calls_measured (sends_of (slots[i := (resp, u', sent)])) (ms @ ms1)" by (rule calls_measured_mono)
  with Cons.IH Cons.prems(1) c show ?case by simp
qed simp

text \<open>A dispatch that refuses the body records at most that; one that does not records its calls.\<close>

lemma dispatch_measured:
  assumes "dispatch_m he el w st req f = Some ((ro, w', st', f', sent), ms)"
  shows "case ro of
      None \<Rightarrow> sent = [] \<and> (ms = [] \<or> ms = [IncFailedRequestsTotal FailReasonBodyTooLarge])
    | Some resp \<Rightarrow> calls_measured (length sent) ms"
proof -
  obtain b ms0 where b: "scatter_readBody_m (req_Body (deref st req)) = (b, ms0)" by force
  then have ms0: "ms0 = [] \<or> ms0 = [IncFailedRequestsTotal FailReasonBodyTooLarge]" "b \<noteq> None \<Longrightarrow> ms0 = []"
    by (auto simp: scatter_readBody_m_def Let_def split: prod.splits if_splits)
  have start: "calls_measured (sends_of (map (\<lambda>u. (zero_response, u, [])) us)) []" for us
    by (simp add: sends_of_def calls_measured_def o_def sum_list_triv)
  have sends: "sends_of slots = length (concat (map (\<lambda>s. snd (snd s)) slots))" for slots
    by (simp add: sends_of_def length_concat o_def)
  show ?thesis
  proof (cases b)
    case None
    with assms ms0 show ?thesis by (auto simp: dispatch_m_def Let_def b)
  next
    case (Some body)
    with assms ms0(2) show ?thesis
      by (auto simp: dispatch_m_def Let_def b split: if_splits list.splits option.splits
          dest!: callUpstream_measured scatter_steps_measured [OF _ start] simp: sends)
  qed
qed

lemma newFlowHandler_measured:
  assumes "newFlowHandler_m he el ps w st req f = Some ((w', f', sent), ms)"
  shows "count_of requestsDuration ms = 1 \<and> count_of requestsInFlight ms = 0 \<and>
    count_of requestsTotal ms + count_of failedRequestsTotal ms \<le> 1 \<and>
    count_of upstreamLatency ms = count_of upstreamRequestsTotal ms \<and>
    (if fl_streaming f then count_of requestsTotal ms = 0
     else length sent \<le> count_of upstreamRequestsTotal ms + count_of upstreamRetriesTotal ms)"
proof (cases "fl_streaming f")
  case True
  with assms show ?thesis by (auto simp: newFlowHandler_m_def Let_def metric_defs)
next
  case False
  let ?d = "UpdateRequestsDuration (fl_path f) (fl_method f) (el_request el)"
  let ?req = "WithContext (request_context he st req f) req"
  obtain ok1 w1 st1 actx1 where p1: "executePlugins (he_enc he) PluginTypeRequest ps w st (newContext ?req) = Some (ok1, w1, st1, actx1)"
    using assms False unfolding newFlowHandler_m_def Let_def if_not_P [OF False] by (auto split: option.splits)
  note rest = assms [unfolded newFlowHandler_m_def Let_def if_not_P [OF False] p1 option.case prod.case]
  show ?thesis
  proof (cases ok1)
    case ok: False
    with rest have "ms = [?d]" "sent = []" by auto
    with False show ?thesis by (simp add: metric_defs)
  next
    case True
    with rest obtain ro w2 st2 f2 sent2 ms0 where d: "dispatch_m he el w1 st1 ?req f = Some ((ro, w2, st2, f2, sent2), ms0)"
      by (auto split: option.splits)
    show ?thesis
    proof (cases ro)
      case None
      with True rest d have "ms = ms0 @ [?d]" "sent = sent2" by auto
      with False None dispatch_measured [OF d] show ?thesis by (auto simp: metric_defs)
    next
      case (Some resp)
      with True rest d have "ms = ms0 @ [?d] \<or> (\<exists>m s. ms = ms0 @ [IncRequestsTotal (fl_path f) m s, ?d])" "sent = sent2"
        by (auto split: option.splits if_splits) blast+
      with False Some dispatch_measured [OF d] show ?thesis by (auto simp: metric_defs calls_measured_def)
    qed
  qed
qed

lemma serve_mux_transparent:
  assumes "\<forall>t \<in> set (rr_flows r). rt_middlewares t = []"
  shows "map_option fst (serve_mux_m chi (\<lambda>t. newFlowHandler_m he el (rt_plugins t)) w st req r) = serve_mux chi he w st req r"
proof -
  have rh: "route_handler he t w st q f = map_option fst (newFlowHandler_m he el (rt_plugins t) w st q f)"
    if "t \<in> set (rr_flows r)" for t q f
    using that assms by (simp add: route_handler_def newFlowHandler_transparent)
  show ?thesis
    by (cases "chi_match chi (registered r) (deref st req)")
      (auto simp: serve_mux_m_def serve_mux_def Let_def option.map_comp o_def rh case_prod_unfold)
qed

lemma ServeHTTP_transparent:
  assumes "\<forall>t \<in> set (rr_flows r). rt_middlewares t = []"
  shows "map_option fst (ServeHTTP_m chi he re (\<lambda>t. newFlowHandler_m he el (rt_plugins t)) w st req r) = ServeHTTP chi he re w st req r"
proof (cases "allowRequest (he_enc he) re w (extractClientIP (deref st req) (rr_trustedProxies r)) r")
  case None
  then show ?thesis by (simp add: ServeHTTP_m_def ServeHTTP_def)
next
  case (Some out)
  obtain allowed w1 r1 where out: "out = (allowed, w1, r1)" by (cases out)
  with Some assms have "\<forall>t \<in> set (rr_flows r1). rt_middlewares t = []"
    by (auto simp: allowRequest_def Let_def split: option.splits prod.splits if_splits)
  from serve_mux_transparent [OF this] Some out show ?thesis
    by (auto simp: ServeHTTP_m_def ServeHTTP_def option.map_comp o_def case_prod_unfold)
qed

interpretation request: meter
  "\<lambda>(chi, he, re, el, w, st, req, r). if \<forall>t \<in> set (rr_flows r). rt_middlewares t = [] then ServeHTTP chi he re w st req r else None"
  "\<lambda>(chi, he, re, el, w, st, req, r). if \<forall>t \<in> set (rr_flows r). rt_middlewares t = []
     then ServeHTTP_m chi he re (\<lambda>t. newFlowHandler_m he el (rt_plugins t)) w st req r else None"
  by unfold_locales (auto simp: ServeHTTP_transparent)

lemma serve_mux_measured:
  assumes "serve_mux_m chi (\<lambda>t. newFlowHandler_m he el (rt_plugins t)) w st req r = Some ((w', r', sent), ms)"
  shows "count_of requestsInFlight ms = 0 \<and> count_of requestsTotal ms + count_of failedRequestsTotal ms \<le> 1 \<and>
    count_of upstreamLatency ms = count_of upstreamRequestsTotal ms \<and>
    ((\<forall>t \<in> set (rr_flows r). \<not> fl_streaming (rt_flow t)) \<longrightarrow>
      length sent \<le> count_of upstreamRequestsTotal ms + count_of upstreamRetriesTotal ms)"
  using assms
  by (cases "chi_match chi (registered r) (deref st req)")
    (auto simp: serve_mux_m_def Let_def metric_defs dest!: newFlowHandler_measured split: if_splits)

section \<open>Properties\<close>

text \<open>
  C34. The metrics of an upstream call are an account of it, and do not change it: the result is that of the call without
  them; the call is counted once and timed once; its retries are at most the configured ones and at least the
  requests sent but one; a call without an error counts no error, and one with an error counts one, or two when a
  missing body broke the policy; and the last gauge shows the state of the breaker after the call.
\<close>

theorem upstream_call_measured:
  assumes "callUpstream_m ext env elapsed path original body u = Some ((resp, u', sent), ms)"
  shows "callUpstream ext env original body u = Some (resp, u', sent) \<and>
    count_of upstreamRequestsTotal ms = 1 \<and> count_of upstreamLatency ms = 1 \<and>
    length sent \<le> count_of upstreamRetriesTotal ms + 1 \<and>
    int (count_of upstreamRetriesTotal ms) \<le> max 0 (maxRetries (retry (uc_policy (hu_cfg u)))) \<and>
    count_of upstreamErrorsTotal ms =
      (case ur_err resp of None \<Rightarrow> 0
       | Some e \<Rightarrow> if ue_kind e = upstreamPolicyViolation \<or>
                    ue_kind e = upstreamBadStatus \<and> requireBody (uc_policy (hu_cfg u)) \<and> ur_body resp = [] then 2 else 1) \<and>
    (\<forall>b. hu_breaker u' = Some b \<longrightarrow>
      last (filter (\<lambda>m. instrument_of m = circuitBreakerState) ms) =
        SetCircuitBreakerState (uc_name (hu_cfg u)) (State_float (breaker_State b)))"
proof -
  let ?ctx = "req_Context original"
  obtain r ms1 where plain: "\<forall>e. ur_err r = Some e \<longrightarrow> ue_kind e \<noteq> upstreamPolicyViolation"
    and resp: "resp = applyPolicy (uc_policy (hu_cfg u)) r" and cfg: "hu_cfg u' = hu_cfg u"
    and lm: "loop_measures (retry (uc_policy (hu_cfg u))) 0 (length sent) ms1"
    and ms: "ms = IncUpstreamRequestsTotal path (uc_name (hu_cfg u)) # ms1 @ breaker_gauge u' @ applyPolicy_m ?ctx (hu_cfg u) r @
      (case ur_err resp of None \<Rightarrow> [] | Some e \<Rightarrow> [IncUpstreamErrorsTotal path (uc_name (hu_cfg u)) (kind_string (ue_kind e))]) @
      [UpdateUpstreamLatency path (uc_name (hu_cfg u)) elapsed]"
    by (rule callUpstream_m_cases [OF assms])
  note parts = loop_measures_none [OF lm] gauge_measures policy_measures_none
  have "last (filter (\<lambda>m. instrument_of m = circuitBreakerState) ms) =
      SetCircuitBreakerState (uc_name (hu_cfg u)) (State_float (breaker_State b))" if "hu_breaker u' = Some b" for b
    using that unfolding ms
    by (auto simp: breaker_gauge_def metric_defs applyPolicy_m_def cfg split: option.splits)
  moreover have "callUpstream ext env original body u = Some (resp, u', sent)"
    using call.result [of "(ext, env, elapsed, path, original, body, u)"] assms by simp
  moreover have "count_of upstreamErrorsTotal ms =
      (case ur_err resp of None \<Rightarrow> 0
       | Some e \<Rightarrow> if ue_kind e = upstreamPolicyViolation \<or>
                    ue_kind e = upstreamBadStatus \<and> requireBody (uc_policy (hu_cfg u)) \<and> ur_body resp = [] then 2 else 1)"
    unfolding ms using policy_measures [OF plain, of ?ctx "hu_cfg u"]
    by (auto simp: parts metric_defs resp split: option.splits)
  ultimately show ?thesis
    using lm unfolding ms
    by (auto simp: parts metric_defs loop_measures_def split: option.splits)
qed

theorem upstream_call_measured_witness:
  "\<exists>resp u' sent ms. callUpstream_m sample_externals \<lparr>ce_attempts = (\<lambda>n. refused), ce_now = 100\<rparr> 5000000 ''/u'' sample_request ''x''
      sample_upstream = Some ((resp, u', sent), ms) \<and>
     count_of upstreamRequestsTotal ms = 1 \<and> length sent \<le> count_of upstreamRetriesTotal ms + 1"
proof -
  let ?env = "\<lparr>ce_attempts = (\<lambda>n. refused), ce_now = 100\<rparr>"
  obtain resp u' sent where "callUpstream sample_externals ?env sample_request ''x'' sample_upstream = Some (resp, u', sent)"
    unfolding callUpstream_def using sample_call_returns by blast
  then obtain ms where m: "callUpstream_m sample_externals ?env 5000000 ''/u'' sample_request ''x'' sample_upstream = Some ((resp, u', sent), ms)"
    using call.returns [of "(sample_externals, ?env, 5000000, ''/u'', sample_request, ''x'', sample_upstream)"] by auto
  from upstream_call_measured [OF m] have "count_of upstreamRequestsTotal ms = 1" "length sent \<le> count_of upstreamRetriesTotal ms + 1"
    by blast+
  with m show ?thesis by (intro exI conjI)
qed



text \<open>A streaming flow is never counted among the requests.\<close>

lemma streaming_not_counted:
  assumes "newFlowHandler_m he el ps w st req f = Some (out, ms)" "fl_streaming f"
  shows "count_of requestsTotal ms = 0"
  using assms by (auto simp: newFlowHandler_m_def Let_def metric_defs)

end
