(* ===== verification/Tracing.thy ===== *)
theory Tracing
  imports Metrics
begin

text \<open>
  The spans that the gateway records while it handles a request (the calls of the OpenTelemetry tracer in
  \<^verbatim>\<open>router.go\<close>, \<^verbatim>\<open>scatter.go\<close>, \<^verbatim>\<open>streaming.go\<close> and \<^verbatim>\<open>upstream.go\<close>).  A span is what it is started with and the calls
  that the gateway makes on it, in their order; what the SDK does with them is outside the repository, except for
  two documented rules: a call on a span that has ended is ignored, and an error status stays.  Every function
  that records something is here once more, with its spans beside its result.  The parent of a span is the one
  in the context it is started from and is not kept; the spans of a call that ends in a panic are not kept
  either.
\<close>

section \<open>Spans\<close>

datatype SpanKind = SpanKindInternal | SpanKindServer | SpanKindClient

datatype codes = codes_Unset | codes_Error | codes_Ok

datatype span_call =
    SetAttributes "attribute list"
  | RecordError go_error
  | SetStatus codes string
  | End

record span =
  sp_name :: string
  sp_kind :: SpanKind
  sp_attributes :: "attribute list"
  sp_calls :: "span_call list"

text \<open>What reaches the exporter: the calls before the end.\<close>

definition delivered :: "span \<Rightarrow> span_call list" where
  "delivered s = takeWhile (\<lambda>c. c \<noteq> End) (sp_calls s)"

fun failed_call :: "span_call \<Rightarrow> bool" where
  "failed_call (SetStatus code descr) \<longleftrightarrow> code = codes_Error"
| "failed_call c \<longleftrightarrow> False"

definition marked_failed :: "span \<Rightarrow> bool" where
  "marked_failed s \<longleftrightarrow> list_ex failed_call (delivered s)"

fun status_codes :: "span_call list \<Rightarrow> int list" where
  "status_codes [] = []"
| "status_codes (SetAttributes as # cs) =
     List.map_filter (\<lambda>a. case a of AttrInt k v \<Rightarrow> if k = ''http.status_code'' then Some v else None | _ \<Rightarrow> None) as @
     status_codes cs"
| "status_codes (c # cs) = status_codes cs"

text \<open>The requests that are described by their address.\<close>

fun described :: "span_call list \<Rightarrow> string list" where
  "described [] = []"
| "described (SetAttributes as # cs) =
     List.map_filter (\<lambda>a. case a of AttrString k v \<Rightarrow> if k = ''http.url'' then Some v else None | _ \<Rightarrow> None) as @
     described cs"
| "described (c # cs) = described cs"

section \<open>Upstream calls\<close>

text \<open>\<open>us\<close> is \<^verbatim>\<open>URL.String\<close> of package \<^verbatim>\<open>net/url\<close>.\<close>

definition request_attributes :: "(URL \<Rightarrow> string) \<Rightarrow> string \<Rightarrow> Request \<Rightarrow> span_call" where
  "request_attributes us host req = SetAttributes
     [AttrString ''http.method'' (req_Method req), AttrString ''http.url'' (us (req_URL req)),
      AttrString ''server.address'' (url_Host (req_URL req)), AttrString ''aastro.upstream.host'' host]"

definition exchange_t ::
  "(URL \<Rightarrow> string) \<Rightarrow> externals \<Rightarrow> upstreamConfig \<Rightarrow> Context \<Rightarrow> Request \<Rightarrow> bytes \<Rightarrow> string \<Rightarrow> attempt_env \<Rightarrow>
     (upstreamResponse \<times> Request list) \<times> span_call list" where
  "exchange_t us ext cfg ctx original originalBody host env =
     (case newRequest ext cfg ctx original originalBody host of
        Inl err \<Rightarrow> ((failed_with upstreamInternal err, []), [])
      | Inr req0 \<Rightarrow>
          let cs0 = [request_attributes us host req0];
              req = req0\<lparr>req_Header := otel_Inject ext ctx (req_Header req0)\<rparr>
          in
          (case at_transport env req of
             Inl err \<Rightarrow>
               ((failed_with (classifyDoError err) err, [req]),
                cs0 @ [RecordError err, SetStatus codes_Error ''upstream request failed''])
           | Inr httpResp \<Rightarrow>
               let cs1 = cs0 @ [SetAttributes [AttrInt ''http.status_code'' (hr_status httpResp)]] in
               (case readBody (maxResponseBodySize (uc_policy cfg)) (at_readCtxErr env) (hr_body httpResp) of
                  Inl uerr \<Rightarrow>
                    ((\<lparr>ur_status = hr_status httpResp, ur_headers = None, ur_body = [],
                       ur_err = Some uerr\<rparr>, [req]),
                     cs1 @ [RecordError (ue_err uerr), SetStatus codes_Error (kind_string (ue_kind uerr))])
                | Inr body \<Rightarrow>
                    ((\<lparr>ur_status = hr_status httpResp,
                       ur_headers = Some (filterHeaders (uc_policy cfg) (hr_header httpResp)),
                       ur_body = body,
                       ur_err = (case classifyStatus (hr_status httpResp) of
                           None \<Rightarrow> None
                         | Some kind \<Rightarrow>
                             Some \<lparr>ue_kind = kind,
                               ue_err = ErrMsg (''upstream returned '' @ Itoa (hr_status httpResp))\<rparr>)\<rparr>,
                      [req]),
                     cs1 @ (if classifyStatus (hr_status httpResp) = Some upstreamBadStatus
                            then [SetStatus codes_Error (StatusText (hr_status httpResp))] else [])))))"

definition doCall_t ::
  "(URL \<Rightarrow> string) \<Rightarrow> externals \<Rightarrow> Context \<Rightarrow> Request \<Rightarrow> bytes \<Rightarrow> attempt_env \<Rightarrow> httpUpstream \<Rightarrow>
     ((upstreamResponse \<times> httpUpstream \<times> Request list) \<times> span_call list) go" where
  "doCall_t us ext ctx original originalBody env u =
     (case selectHost (hu_cfg u) (hu_state u) of
        None \<Rightarrow> None
      | Some (h, st) \<Rightarrow>
          let counted = (uc_lbMode (hu_cfg u) = lbModeLeastConns) in
          (case (if counted then conn_add h 1 st else Some st) of
             None \<Rightarrow> None
           | Some st1 \<Rightarrow>
               let ((resp, sent), cs) =
                 exchange_t us ext (hu_cfg u) ctx original originalBody (uc_hosts (hu_cfg u) ! h) env in
               (case (if counted then conn_add h (- 1) st1 else Some st1) of
                  None \<Rightarrow> None
                | Some st2 \<Rightarrow> Some ((resp, u\<lparr>hu_state := st2\<rparr>, sent), cs))))"

text \<open>The attempts of a call all write to the span of the call.\<close>

function retry_loop_t ::
  "(URL \<Rightarrow> string) \<Rightarrow> externals \<Rightarrow> (nat \<Rightarrow> attempt_env) \<Rightarrow> retryPolicy \<Rightarrow> string \<Rightarrow> Context \<Rightarrow> Request \<Rightarrow> bytes \<Rightarrow>
     nat \<Rightarrow> upstreamResponse option \<Rightarrow> Request list \<Rightarrow> span_call list \<Rightarrow> httpUpstream \<Rightarrow>
     ((upstreamResponse option \<times> httpUpstream \<times> Request list) \<times> span_call list) go" where
  "retry_loop_t us ext env rp meth ctx original body attempt resp sent cs u =
     (if int attempt > maxRetries rp then Some ((resp, u, sent), cs)
      else
        case at_ctxErr (env attempt) of
          Some err \<Rightarrow> Some ((Some (failed_with upstreamCanceled err), u, sent), cs)
        | None \<Rightarrow>
            let (allowed, u1) = breaker_admits (at_now (env attempt)) u in
            if \<not> allowed then
              Some ((Some (failed_with upstreamCircuitOpen (ErrMsg ''upstream circuit breaker is open'')), u1, sent), cs)
            else
              (case doCall_t us ext ctx original body (env attempt) u1 of
                 None \<Rightarrow> None
               | Some ((r, u2, reqs), cs') \<Rightarrow>
                   if int attempt = maxRetries rp \<or> \<not> shouldRetry meth r rp
                   then Some ((Some r, u2, sent @ reqs), cs @ cs')
                   else
                     (case (if backoffDelay rp > 0 then at_backoff (env attempt) else None) of
                        Some err \<Rightarrow> Some ((Some (failed_with upstreamCanceled err), u2, sent @ reqs), cs @ cs')
                      | None \<Rightarrow>
                          retry_loop_t us ext env rp meth ctx original body (attempt + 1) (Some r)
                            (sent @ reqs) (cs @ cs') u2)))"
  by pat_completeness auto

termination retry_loop_t
  by (relation "measure (\<lambda>(us, ext, env, rp, m, ctx, orig, b, attempt, r, s, cs, u). nat (maxRetries rp + 1 - int attempt))")
    auto

declare retry_loop_t.simps [simp del]

definition upstream_call_t ::
  "(URL \<Rightarrow> string) \<Rightarrow> externals \<Rightarrow> (nat \<Rightarrow> attempt_env) \<Rightarrow> time \<Rightarrow> Context \<Rightarrow> Request \<Rightarrow> bytes \<Rightarrow> httpUpstream \<Rightarrow>
     ((upstreamResponse \<times> httpUpstream \<times> Request list) \<times> span_call list) go" where
  "upstream_call_t us ext env now ctx original body u =
     (case retry_loop_t us ext env (retry (uc_policy (hu_cfg u))) (effective_method (hu_cfg u) original)
             ctx original body 0 None [] [] u of
        None \<Rightarrow> None
      | Some ((None, u1, sent), cs) \<Rightarrow> None
      | Some ((Some resp, u1, sent), cs) \<Rightarrow>
          let u2 = updateCircuitBreaker now resp u1 in
          Some ((applyPolicy (uc_policy (hu_cfg u2)) resp, u2, sent), cs))"

definition error_calls :: "upstreamError option \<Rightarrow> span_call list" where
  "error_calls err =
     (case err of
        None \<Rightarrow> []
      | Some e \<Rightarrow> [RecordError (ue_err e), SetAttributes [AttrString ''aastro.upstream.error_kind'' (kind_string (ue_kind e))],
                   SetStatus codes_Error ''upstream call failed''])"

definition callUpstream_t ::
  "(URL \<Rightarrow> string) \<Rightarrow> externals \<Rightarrow> call_env \<Rightarrow> string \<Rightarrow> Request \<Rightarrow> bytes \<Rightarrow> httpUpstream \<Rightarrow>
     ((upstreamResponse \<times> httpUpstream \<times> Request list) \<times> span) go" where
  "callUpstream_t us ext env path original body u =
     map_option
       (\<lambda>((resp, u', sent), cs).
         ((resp, u', sent),
          \<lparr>sp_name = ''aastro.upstream'', sp_kind = SpanKindClient,
           sp_attributes = [AttrString ''aastro.upstream.name'' (uc_name (hu_cfg u)), AttrString ''aastro.flow.path'' path],
           sp_calls = cs @ error_calls (ur_err resp) @ [End]\<rparr>))
       (upstream_call_t us ext (ce_attempts env) (ce_now env) (req_Context original) original body u)"

section \<open>Scatter, plugins and dispatch\<close>

fun scatter_steps_t ::
  "(URL \<Rightarrow> string) \<Rightarrow> externals \<Rightarrow> (nat \<Rightarrow> call_env) \<Rightarrow> string \<Rightarrow> Request \<Rightarrow> bytes \<Rightarrow> nat list \<Rightarrow>
     (upstreamResponse \<times> httpUpstream \<times> Request list) list \<Rightarrow> span list \<Rightarrow>
     ((upstreamResponse \<times> httpUpstream \<times> Request list) list \<times> span list) go" where
  "scatter_steps_t us ext envs path original body [] slots ss = Some (slots, ss)"
| "scatter_steps_t us ext envs path original body (i # order) slots ss =
     (case callUpstream_t us ext (envs i) path original body (fst (snd (slots ! i))) of
        None \<Rightarrow> None
      | Some (result, s) \<Rightarrow> scatter_steps_t us ext envs path original body order (slots[i := result]) (ss @ [s]))"

text \<open>The span of \<^verbatim>\<open>scatter\<close> and of \<^verbatim>\<open>call\<close>.\<close>

definition scatter_span :: "flow \<Rightarrow> bool \<Rightarrow> span" where
  "scatter_span f ok =
     \<lparr>sp_name = ''aastro.scatter'', sp_kind = SpanKindInternal,
      sp_attributes = (if length (fl_upstreams f) = 1 then [AttrInt ''aastro.upstream.count'' 1]
        else [AttrInt ''aastro.upstream.count'' (int (length (fl_upstreams f))),
              AttrString ''aastro.aggregation.strategy'' (aggregationStrategy_String (strategy (fl_aggregation f)))]),
      sp_calls = (if ok then [] else [SetStatus codes_Error ''body too large'']) @ [End]\<rparr>"

definition plugin_span :: "plugin \<Rightarrow> PluginType \<Rightarrow> go_error option \<Rightarrow> span" where
  "plugin_span p ty err =
     \<lparr>sp_name = ''aastro.plugin'', sp_kind = SpanKindInternal,
      sp_attributes = [AttrString ''aastro.plugin.name'' (pl_Name p), AttrString ''aastro.plugin.type'' (PluginType_String ty)],
      sp_calls = End # (case err of None \<Rightarrow> []
        | Some e \<Rightarrow> [RecordError e, SetStatus codes_Error ''plugin execution failed''])\<rparr>"

fun executePlugins_t ::
  "problem_encoder \<Rightarrow> PluginType \<Rightarrow> plugin list \<Rightarrow> ResponseWriter \<Rightarrow> store \<Rightarrow> aastroContext \<Rightarrow>
     ((bool \<times> ResponseWriter \<times> store \<times> aastroContext) \<times> span list) go" where
  "executePlugins_t enc ty [] w st actx = Some ((True, w, st, actx), [])"
| "executePlugins_t enc ty (p # ps) w st actx =
     (if pl_Type p \<noteq> ty then executePlugins_t enc ty ps w st actx
      else
        case ac_req actx of
          None \<Rightarrow> None
        | Some req \<Rightarrow>
            (case pl_Execute p (st, SetRequest (Some (WithContext (ro_Context req) req)) actx) of
               None \<Rightarrow> None
             | Some (err, st', actx') \<Rightarrow>
                 (case err of
                    None \<Rightarrow> map_option (\<lambda>(out, ss). (out, plugin_span p ty err # ss)) (executePlugins_t enc ty ps w st' actx')
                  | Some e \<Rightarrow>
                      map_option (\<lambda>w'. ((False, w', st', actx'), [plugin_span p ty err]))
                        (WriteError enc w ClientErrInternal StatusInternalServerError))))"

definition dispatch_t ::
  "(URL \<Rightarrow> string) \<Rightarrow> 'j handler_env \<Rightarrow> ResponseWriter \<Rightarrow> store \<Rightarrow> req_obj \<Rightarrow> flow \<Rightarrow>
     ((http_resp option \<times> ResponseWriter \<times> store \<times> flow \<times> Request list) \<times> span list) go" where
  "dispatch_t us he w st req f =
     (let original = deref st req in
      case scatter_readBody (req_Body original) of
        None \<Rightarrow> map_option (\<lambda>w'. ((None, w', st, f, []), [scatter_span f False]))
          (WriteError (he_enc he) w ClientErrPayloadTooLarge StatusRequestEntityTooLarge)
      | Some b \<Rightarrow>
          if length (fl_upstreams f) = 1 then
            (case fl_upstreams f of
               [] \<Rightarrow> None
             | u # rest \<Rightarrow>
                 map_option
                   (\<lambda>((resp, u', sent), s).
                      ((Some (buildProxyResponse (he_enc he) (ro_Context req) resp), w, drain req st,
                        f\<lparr>fl_upstreams := [u']\<rparr>, sent), [scatter_span f True, s]))
                   (callUpstream_t us (he_ext he) (he_calls he 0) (fl_path f) original b u))
          else
            (case scatter_steps_t us (he_ext he) (he_calls he) (fl_path f) original b
                    (he_order he (length (fl_upstreams f))) (map (\<lambda>u. (zero_response, u, [])) (fl_upstreams f)) [] of
               None \<Rightarrow> None
             | Some (slots, ss) \<Rightarrow>
                 map_option
                   (\<lambda>resp. ((Some resp, w, drain req st,
                            f\<lparr>fl_upstreams := map (\<lambda>s. fst (snd s)) slots\<rparr>, concat (map (\<lambda>s. snd (snd s)) slots)),
                           scatter_span f True # ss))
                   (buildResponse (he_codec he) (he_enc he) (ro_Context req) (map fst slots) f)))"

section \<open>Streaming\<close>

definition proxy_t ::
  "(URL \<Rightarrow> string) \<Rightarrow> externals \<Rightarrow> stream_env \<Rightarrow> Context \<Rightarrow> trackingWriter \<Rightarrow> Request \<Rightarrow> httpUpstream \<Rightarrow>
     ((go_error option \<times> trackingWriter \<times> httpUpstream \<times> Request list) \<times> span_call list) go" where
  "proxy_t us ext env ctx w original u =
     (case selectHost (hu_cfg u) (hu_state u) of
        None \<Rightarrow> None
      | Some (h, st) \<Rightarrow>
          let u1 = u\<lparr>hu_state := st\<rparr>;
              host = uc_hosts (hu_cfg u) ! h;
              hostPath = upstream_url host (expandPathParams ext (uc_path (hu_cfg u)) original);
              method = effective_method (hu_cfg u) original
          in
          (case http_NewRequest ext ctx method hostPath (req_Body original) 0 of
             Inl err \<Rightarrow> Some ((Some (ErrWrap ''build upstream request: '' err), w, u1, []), [])
           | Inr req0 \<Rightarrow>
               let req1 = req0\<lparr>req_ContentLength := req_ContentLength original,
                               req_TransferEncoding := req_TransferEncoding original\<rparr>;
                   req2 = resolveHeaders (hu_cfg u) (resolveQueries ext (hu_cfg u) req1 original) original;
                   cs0 = [request_attributes us host req2];
                   req = req2\<lparr>req_Header := otel_Inject ext ctx (req_Header req2)\<rparr>
               in
               (case se_transport env req of
                  Inl err \<Rightarrow>
                    Some ((Some (ErrWrap ''upstream call: '' err), w, u1, [req]),
                          cs0 @ [RecordError err, SetStatus codes_Error ''streaming upstream call failed''])
                | Inr resp \<Rightarrow>
                    let cs1 = cs0 @ SetAttributes [AttrInt ''http.status_code'' (hr_status resp)] #
                          (if hr_status resp \<ge> StatusInternalServerError
                           then [SetStatus codes_Error (StatusText (hr_status resp))] else []);
                        w1 = w\<lparr>tw_rw := rw_edit (hdr_Del ''Content-Length'')
                                 (rw_edit (copy_headers (hr_header resp)) (tw_rw w))\<rparr>
                    in
                    (case tw_WriteHeader (hr_status resp) w1 of
                       None \<Rightarrow> None
                     | Some w2 \<Rightarrow>
                         let (err, w3) = streamCopy (se_faults env) (hr_body resp) w2 in
                         (case err of
                            None \<Rightarrow> Some ((None, w3, u1, [req]), cs1)
                          | Some e \<Rightarrow>
                              if errors_Is e ErrCanceled
                              then Some ((None, w3, u1, [req]),
                                         cs1 @ [SetAttributes [AttrString ''aastro.streaming.end_reason'' ''client_disconnect'']])
                              else Some ((Some (ErrWrap ''stream body: '' e), w3, u1, [req]),
                                         cs1 @ [RecordError e, SetStatus codes_Error ''stream body failed'']))))))"

definition streaming_calls :: "go_error option \<Rightarrow> int \<Rightarrow> span_call list" where
  "streaming_calls err code =
     (case err of None \<Rightarrow> [] | Some e \<Rightarrow> [RecordError e, SetStatus codes_Error ''streaming upstream error'']) @
     (if code \<noteq> 0 then
        SetAttributes [AttrInt ''http.status_code'' code] #
        (if code \<ge> StatusInternalServerError \<and> err = None then [SetStatus codes_Error (StatusText code)] else [])
      else [])"

definition handleStreaming_t ::
  "(URL \<Rightarrow> string) \<Rightarrow> problem_encoder \<Rightarrow> externals \<Rightarrow> stream_env \<Rightarrow> plugin list \<Rightarrow> ResponseWriter \<Rightarrow> store \<Rightarrow> req_obj \<Rightarrow> flow \<Rightarrow>
     ((ResponseWriter \<times> flow \<times> Request list) \<times> span list) go" where
  "handleStreaming_t us enc ext env ps w st req f =
     (case fl_upstreams f of
        [u] \<Rightarrow>
          (case executePlugins_t enc PluginTypeRequest ps w st (newContext req) of
             None \<Rightarrow> None
           | Some ((False, w1, st1, actx), ss) \<Rightarrow> Some ((w1, f, []), ss)
           | Some ((True, w1, st1, actx), ss) \<Rightarrow>
               (case ac_req actx of
                  None \<Rightarrow> None
                | Some r \<Rightarrow>
                    let tw = \<lparr>tw_rw = w1, tw_written = False, tw_statusCode = 0\<rparr> in
                    (case proxy_t us ext env (ro_Context r) tw (deref st1 r) u of
                       None \<Rightarrow> None
                     | Some ((err, tw', u', sent), cs) \<Rightarrow>
                         map_option
                           (\<lambda>w2. ((w2, f\<lparr>fl_upstreams := [u']\<rparr>, sent),
                              ss @ [\<lparr>sp_name = ''aastro.upstream'', sp_kind = SpanKindClient,
                                     sp_attributes = [AttrString ''aastro.upstream.name'' (uc_name (hu_cfg u)),
                                       AttrString ''aastro.upstream.mode'' ''streaming'', AttrString ''aastro.flow.path'' (fl_path f)],
                                     sp_calls = cs @ streaming_calls err (tw_statusCode tw') @ [End]\<rparr>]))
                           (if err \<noteq> None \<and> \<not> tw_written tw'
                            then WriteError enc (tw_rw tw') ClientErrUpstreamUnavailable StatusBadGateway
                            else Some (tw_rw tw')))))
      | _ \<Rightarrow> map_option (\<lambda>w1. ((w1, f, []), [])) (WriteError enc w ClientErrInternal StatusInternalServerError))"

section \<open>Requests\<close>

text \<open>A handler gives the calls on the span of the request and the other spans.\<close>

type_synonym handler_t =
  "ResponseWriter \<Rightarrow> store \<Rightarrow> req_obj \<Rightarrow> flow \<Rightarrow> ((ResponseWriter \<times> flow \<times> Request list) \<times> span_call list \<times> span list) go"

definition answer_calls :: "int \<Rightarrow> span_call list" where
  "answer_calls code =
     SetAttributes [AttrInt ''http.status_code'' code] #
     (if code \<ge> StatusInternalServerError then [SetStatus codes_Error (StatusText code)] else [])"

definition newFlowHandler_t :: "(URL \<Rightarrow> string) \<Rightarrow> 'j handler_env \<Rightarrow> plugin list \<Rightarrow> handler_t" where
  "newFlowHandler_t us he ps w st req0 f =
     (let requestID = getOrCreateRequestID (he_ids he) (deref st req0);
          fingerprint = computeFingerprint (he_sha256 he) (deref st req0) (fl_path f);
          req = WithContext (request_context he st req0 f) req0;
          cs = [SetAttributes [AttrString ''http.route'' (fl_path f)],
                SetAttributes [AttrString ''aastro.request.id'' requestID, AttrString ''aastro.request.fingerprint'' fingerprint]]
      in
      if fl_streaming f
      then map_option (\<lambda>(out, ss). (out, cs, ss)) (handleStreaming_t us (he_enc he) (he_ext he) (he_stream he) ps w st req f)
      else
        case executePlugins_t (he_enc he) PluginTypeRequest ps w st (newContext req) of
          None \<Rightarrow> None
        | Some ((ok1, w1, st1, actx1), ss1) \<Rightarrow>
            if \<not> ok1 then Some ((w1, f, []), cs, ss1)
            else
              (case dispatch_t us he w1 st1 req f of
                 None \<Rightarrow> None
               | Some ((None, w2, st2, f2, sent), ss2) \<Rightarrow> Some ((w2, f2, sent), cs, ss1 @ ss2)
               | Some ((Some httpResp, w2, st2, f2, sent), ss2) \<Rightarrow>
                   (case executePlugins_t (he_enc he) PluginTypeResponse ps w2 st2
                       (SetResponse (Some httpResp) actx1) of
                      None \<Rightarrow> None
                    | Some ((ok3, w3, st3, actx3), ss3) \<Rightarrow>
                        if \<not> ok3 then Some ((w3, f2, sent), cs, ss1 @ ss2 @ ss3)
                        else
                          (case ac_resp actx3 of
                             None \<Rightarrow> None
                           | Some resp \<Rightarrow>
                               map_option
                                 (\<lambda>w4. ((w4, f2, sent), cs @ answer_calls (rs_StatusCode resp), ss1 @ ss2 @ ss3))
                                 (finish w3 (Some resp))))))"

definition serve_mux_t ::
  "chi_mux \<Rightarrow> (route \<Rightarrow> handler_t) \<Rightarrow> ResponseWriter \<Rightarrow> store \<Rightarrow> req_obj \<Rightarrow> Router \<Rightarrow>
     ((ResponseWriter \<times> Router \<times> Request list) \<times> span_call list \<times> span list) go" where
  "serve_mux_t chi rh w st req r =
     (case chi_match chi (registered r) (deref st req) of
        NoRoute \<Rightarrow> map_option (\<lambda>w'. ((w', r, []), [], [])) (http_NotFound w)
      | WrongMethod \<Rightarrow> map_option (\<lambda>w'. ((w', r, []), [], [])) (chi_MethodNotAllowed chi w)
      | Routed i params \<Rightarrow>
          if i < length (rr_flows r) then
            let t = rr_flows r ! i;
                ctx = (ro_Context req)\<lparr>ctx_params := Some params\<rparr>
            in map_option (\<lambda>((w', f', sent), cs, ss). ((w', r\<lparr>rr_flows := (rr_flows r)[i := t\<lparr>rt_flow := f'\<rparr>]\<rparr>, sent), cs, ss))
                 (rh t w st (WithContext ctx req) (rt_flow t))
          else None)"

text \<open>
  \<^verbatim>\<open>ServeHTTP\<close> around the handlers of the routes; \<open>rh\<close> gives each route its handler with the spans it makes, behind
  the route's middlewares.  The first span is that of the request.
\<close>

definition ServeHTTP_t ::
  "chi_mux \<Rightarrow> 'j handler_env \<Rightarrow> rate_env \<Rightarrow> (route \<Rightarrow> handler_t) \<Rightarrow> ResponseWriter \<Rightarrow> store \<Rightarrow> req_obj \<Rightarrow> Router \<Rightarrow>
     ((ResponseWriter \<times> Router \<times> Request list) \<times> span list) go" where
  "ServeHTTP_t chi he re rh w st req0 r =
     (let span = (\<lambda>cs. \<lparr>sp_name = ''aastro.request'', sp_kind = SpanKindServer,
            sp_attributes = [AttrString ''http.method'' (req_Method (deref st req0)),
              AttrString ''url.path'' (url_Path (req_URL (deref st req0)))],
            sp_calls = cs @ [End]\<rparr>);
          clientIP = extractClientIP (deref st req0) (rr_trustedProxies r);
          req = WithContext (withClientIP (ro_Context req0) clientIP) req0
      in
      case allowRequest (he_enc he) re w clientIP r of
        None \<Rightarrow> None
      | Some (allowed, w1, r1) \<Rightarrow>
          if \<not> allowed then
            Some ((w1, r1, []),
                  [span [SetAttributes [AttrInt ''http.status_code'' StatusTooManyRequests], SetStatus codes_Error ''rate limited'']])
          else map_option (\<lambda>(out, cs, ss). (out, span cs # ss)) (serve_mux_t chi rh w1 st req r1))"

section \<open>Lemmas: spans do not change anything\<close>

lemma exchange_transparent: "fst (exchange_t us ext cfg ctx original body host env) = exchange ext cfg ctx original body host env"
  by (auto simp: exchange_t_def exchange_def Let_def split: sum.splits)

lemma doCall_transparent: "map_option fst (doCall_t us ext ctx original body env u) = doCall ext ctx original body env u"
proof -
  have ex: "exchange ext cfg ctx original body host env = fst (exchange_t us ext cfg ctx original body host env)" for cfg host
    by (simp add: exchange_transparent)
  show ?thesis by (auto simp: doCall_t_def doCall_def Let_def ex split: option.splits prod.splits)
qed

interpretation attempt: meter "\<lambda>(us, ext, ctx, original, body, env, u). doCall ext ctx original body env u"
  "\<lambda>(us, ext, ctx, original, body, env, u). doCall_t us ext ctx original body env u"
  by unfold_locales (auto simp: doCall_transparent)

lemma retry_loop_t_transparent:
  "map_option fst (retry_loop_t us ext env rp meth ctx original body n resp sent cs u) =
     retry_loop ext env rp meth ctx original body n resp sent u"
proof (induction "nat (maxRetries rp + 1 - int n)" arbitrary: n resp sent cs u)
  case 0
  then show ?case by (simp add: retry_loop_t.simps [of _ _ _ _ _ _ _ _ n] retry_loop.simps [of _ _ _ _ _ _ _ n])
next
  case (Suc k)
  then have le: "\<not> int n > maxRetries rp" and k: "k = nat (maxRetries rp + 1 - int (Suc n))" by simp_all
  have call: "doCall ext ctx original body (env n) v = map_option fst (doCall_t us ext ctx original body (env n) v)" for v
    by (simp add: doCall_transparent)
  show ?case
    unfolding retry_loop_t.simps [of _ _ _ _ _ _ _ _ n] retry_loop.simps [of _ _ _ _ _ _ _ n] if_not_P [OF le] Let_def call
    using Suc.hyps(1) [OF k] by (auto split: option.splits prod.splits)
qed

lemma callUpstream_t_transparent:
  "map_option fst (callUpstream_t us ext env path original body u) = callUpstream ext env original body u"
proof -
  let ?loop = "retry_loop_t us ext (ce_attempts env) (retry (uc_policy (hu_cfg u))) (effective_method (hu_cfg u) original)
    (req_Context original) original body 0 None [] [] u"
  have "callWithRetry ext (ce_attempts env) (req_Context original) original body u = map_option fst ?loop"
    by (simp add: callWithRetry_def retry_loop_t_transparent)
  then show ?thesis
    by (cases ?loop)
      (auto simp: callUpstream_t_def callUpstream_def upstream_call_t_def upstream_call_def Let_def split: option.splits)
qed

interpretation traced_call: meter "\<lambda>(us, ext, env, path, original, body, u). callUpstream ext env original body u"
  "\<lambda>(us, ext, env, path, original, body, u). callUpstream_t us ext env path original body u"
  by unfold_locales (auto simp: callUpstream_t_transparent)

lemma scatter_steps_t_transparent:
  "map_option fst (scatter_steps_t us ext envs path original body order slots ss) = scatter_steps ext envs original body order slots"
proof (induction order arbitrary: slots ss)
  case (Cons i order)
  have "callUpstream ext (envs i) original body u = map_option fst (callUpstream_t us ext (envs i) path original body u)" for u
    by (simp add: callUpstream_t_transparent)
  with Cons.IH show ?case by (auto split: option.splits)
qed simp

lemma executePlugins_t_transparent:
  "map_option fst (executePlugins_t enc ty ps w st actx) = executePlugins enc ty ps w st actx"
proof (induction ps arbitrary: st actx)
  case (Cons p ps)
  then show ?case
    by (auto simp: option.map_comp o_def case_prod_unfold split: option.splits)
qed simp

interpretation plugins_run: meter "\<lambda>(enc, ty, ps, w, st, actx). executePlugins enc ty ps w st actx"
  "\<lambda>(enc, ty, ps, w, st, actx). executePlugins_t enc ty ps w st actx"
  by unfold_locales (auto simp: executePlugins_t_transparent)

lemma dispatch_t_transparent: "map_option fst (dispatch_t us he w st req f) = dispatch he w st req f"
proof (cases "scatter_readBody (req_Body (deref st req))")
  case None
  then show ?thesis by (simp add: dispatch_t_def dispatch_def scatter_call_def scatter_def Let_def option.map_comp o_def)
next
  case (Some b)
  let ?order = "he_order he (length (fl_upstreams f))" and ?slots = "map (\<lambda>u. (zero_response, u, [])) (fl_upstreams f)"
  have sc: "scatter_steps (he_ext he) (he_calls he) (deref st req) b ?order ?slots =
      map_option fst (scatter_steps_t us (he_ext he) (he_calls he) (fl_path f) (deref st req) b ?order ?slots [])"
    by (simp add: scatter_steps_t_transparent)
  have ca: "callUpstream (he_ext he) (he_calls he 0) (deref st req) b u =
      map_option fst (callUpstream_t us (he_ext he) (he_calls he 0) (fl_path f) (deref st req) b u)" for u
    by (simp add: callUpstream_t_transparent)
  show ?thesis
    by (auto simp: dispatch_t_def dispatch_def scatter_call_def scatter_def Let_def Some sc ca option.map_comp o_def
        split: list.splits option.splits)
qed

lemma proxy_t_transparent: "map_option fst (proxy_t us ext env ctx w original u) = proxy ext env ctx w original u"
  by (auto simp: proxy_t_def proxy_def Let_def split: option.splits sum.splits prod.splits)

lemma handleStreaming_t_transparent:
  "map_option fst (handleStreaming_t us enc ext env ps w st req f) = handleStreaming enc ext env ps w st req f"
proof -
  have pr: "proxy ext env ctx tw q u = map_option fst (proxy_t us ext env ctx tw q u)" for ctx tw q u
    by (simp add: proxy_t_transparent)
  have pl: "executePlugins enc PluginTypeRequest ps w st (newContext req) =
      map_option fst (executePlugins_t enc PluginTypeRequest ps w st (newContext req))"
    by (simp add: executePlugins_t_transparent)
  show ?thesis
    by (auto simp: handleStreaming_t_def handleStreaming_def Let_def pr pl option.map_comp o_def
        split: list.splits option.splits bool.splits)
qed

lemma newFlowHandler_t_transparent: "map_option fst (newFlowHandler_t us he ps w st req f) = newFlowHandler he ps w st req f"
proof (cases "fl_streaming f")
  case True
  then show ?thesis
    by (simp add: newFlowHandler_t_def newFlowHandler_def Let_def option.map_comp o_def case_prod_unfold
        handleStreaming_t_transparent [of us, symmetric])
next
  case False
  have pl: "executePlugins enc ty ps w st actx = map_option fst (executePlugins_t enc ty ps w st actx)" for enc ty w st actx
    by (simp add: executePlugins_t_transparent)
  have di: "dispatch he w st req f = map_option fst (dispatch_t us he w st req f)" for w st req f
    by (simp add: dispatch_t_transparent)
  from False show ?thesis
    by (auto simp: newFlowHandler_t_def newFlowHandler_def Let_def pl di option.map_comp o_def finish_def
        split: option.splits)
qed

lemma serve_mux_t_transparent:
  assumes "\<forall>t \<in> set (rr_flows r). rt_middlewares t = []"
  shows "map_option fst (serve_mux_t chi (\<lambda>t. newFlowHandler_t us he (rt_plugins t)) w st req r) = serve_mux chi he w st req r"
proof -
  have rh: "route_handler he t w st q f = map_option fst (newFlowHandler_t us he (rt_plugins t) w st q f)"
    if "t \<in> set (rr_flows r)" for t q f
    using that assms by (simp add: route_handler_def newFlowHandler_t_transparent)
  show ?thesis
    by (cases "chi_match chi (registered r) (deref st req)")
      (auto simp: serve_mux_t_def serve_mux_def Let_def option.map_comp o_def rh case_prod_unfold)
qed

lemma allowRequest_frame:
  assumes "allowRequest enc re w ip r = Some (allowed, w1, r1)"
  shows "rr_flows r1 = rr_flows r" "allowed \<Longrightarrow> w1 = w"
    "\<not> allowed \<Longrightarrow> WriteError enc w ClientErrRateLimitExceeded StatusTooManyRequests = Some w1"
  using assms by (auto simp: allowRequest_def Let_def split: option.splits prod.splits if_splits)

lemma ServeHTTP_t_transparent:
  assumes "\<forall>t \<in> set (rr_flows r). rt_middlewares t = []"
  shows "map_option fst (ServeHTTP_t chi he re (\<lambda>t. newFlowHandler_t us he (rt_plugins t)) w st req r) = ServeHTTP chi he re w st req r"
proof (cases "allowRequest (he_enc he) re w (extractClientIP (deref st req) (rr_trustedProxies r)) r")
  case None
  then show ?thesis by (simp add: ServeHTTP_t_def ServeHTTP_def Let_def)
next
  case (Some out)
  obtain allowed w1 r1 where out: "out = (allowed, w1, r1)" by (cases out)
  with Some assms have "\<forall>t \<in> set (rr_flows r1). rt_middlewares t = []" by (simp add: allowRequest_frame(1))
  from serve_mux_t_transparent [OF this] Some out show ?thesis
    by (auto simp: ServeHTTP_t_def ServeHTTP_def Let_def option.map_comp o_def case_prod_unfold)
qed

interpretation traced_request: meter
  "\<lambda>(us, chi, he, re, w, st, req, r). if \<forall>t \<in> set (rr_flows r). rt_middlewares t = [] then ServeHTTP chi he re w st req r else None"
  "\<lambda>(us, chi, he, re, w, st, req, r). if \<forall>t \<in> set (rr_flows r). rt_middlewares t = []
     then ServeHTTP_t chi he re (\<lambda>t. newFlowHandler_t us he (rt_plugins t)) w st req r else None"
  by unfold_locales (auto simp: ServeHTTP_t_transparent)

section \<open>Lemmas: what the spans say\<close>

lemma status_codes_append [simp]: "status_codes (cs @ ds) = status_codes cs @ status_codes ds"
  by (induction cs rule: status_codes.induct) simp_all

lemma described_append [simp]: "described (cs @ ds) = described cs @ described ds"
  by (induction cs rule: described.induct) simp_all

lemma delivered_upto_End:
  assumes "sp_calls s = cs @ [End]" "End \<notin> set cs"
  shows "delivered s = cs"
  using assms by (auto simp: delivered_def takeWhile_append takeWhile_eq_all_conv)

lemma request_attributes_calls [simp]:
  "described (request_attributes us host q # cs) = us (req_URL q) # described cs"
  "status_codes (request_attributes us host q # cs) = status_codes cs"
  "\<not> failed_call (request_attributes us host q)" "request_attributes us host q \<noteq> End" "End \<noteq> request_attributes us host q"
  by (simp_all add: request_attributes_def List.map_filter_simps)

lemma exchange_t_calls:
  assumes "exchange_t us ext cfg ctx original body host env = ((r, reqs), cs)"
  shows "End \<notin> set cs \<and> described cs = map (\<lambda>q. us (req_URL q)) reqs \<and> (reqs = [] \<longrightarrow> cs = []) \<and>
    (ur_err r = None \<longrightarrow> reqs \<noteq> [] \<and> \<not> list_ex failed_call cs)"
  using assms
  by (auto simp: exchange_t_def Let_def failed_with_def List.map_filter_simps split: sum.splits option.splits)

lemma doCall_t_calls:
  assumes "doCall_t us ext ctx original body env u = Some ((r, u', reqs), cs)"
  shows "End \<notin> set cs \<and> described cs = map (\<lambda>q. us (req_URL q)) reqs \<and> (reqs = [] \<longrightarrow> cs = []) \<and>
    (ur_err r = None \<longrightarrow> reqs \<noteq> [] \<and> \<not> list_ex failed_call cs) \<and> length reqs \<le> 1"
proof -
  have "doCall ext ctx original body env u = Some (r, u', reqs)"
    using attempt.result [of "(us, ext, ctx, original, body, env, u)"] assms by simp
  moreover obtain host where "exchange_t us ext (hu_cfg u) ctx original body host env = ((r, reqs), cs)"
    using assms by (auto simp: doCall_t_def Let_def split: option.splits prod.splits if_splits)
  ultimately show ?thesis using exchange_t_calls doCall_frame(3) by metis
qed

text \<open>
  What the attempts write: the addresses of the requests they send, in order; a call that ends well has sent a request,
  and when it sent only one, no attempt has left a mark.
\<close>

definition loop_calls :: "(URL \<Rightarrow> string) \<Rightarrow> bool \<Rightarrow> Request list \<Rightarrow> span_call list \<Rightarrow> bool" where
  "loop_calls us ok reqs cs \<longleftrightarrow>
     End \<notin> set cs \<and> described cs = map (\<lambda>q. us (req_URL q)) reqs \<and>
     (ok \<longrightarrow> reqs \<noteq> [] \<and> (length reqs = 1 \<longrightarrow> \<not> list_ex failed_call cs))"

lemma retry_loop_t_calls:
  assumes "retry_loop_t us ext env rp meth ctx original body n resp sent cs u = Some ((r, u', sent'), cs')"
    and "int n \<le> maxRetries rp"
  shows "\<exists>cs2 reqs. cs' = cs @ cs2 \<and> sent' = sent @ reqs \<and> loop_calls us (\<exists>x. r = Some x \<and> ur_err x = None) reqs cs2"
  using assms
proof (induction "nat (maxRetries rp + 1 - int n)" arbitrary: n resp sent cs u)
  case (Suc k)
  then have le: "\<not> int n > maxRetries rp" and k: "k = nat (maxRetries rp + 1 - int (Suc n))" by simp_all
  note unfold = Suc.prems(1) [unfolded retry_loop_t.simps [of _ _ _ _ _ _ _ _ n] if_not_P [OF le] Let_def]
  show ?case
  proof (cases "\<exists>v v' r1 reqs cs1. doCall_t us ext ctx original body (env n) v = Some ((r1, v', reqs), cs1) \<and> int n < maxRetries rp \<and>
      retry_loop_t us ext env rp meth ctx original body (Suc n) (Some r1) (sent @ reqs) (cs @ cs1) v' = Some ((r, u', sent'), cs')")
    case True
    then obtain v v' r1 reqs cs1 where call: "doCall_t us ext ctx original body (env n) v = Some ((r1, v', reqs), cs1)"
      and n: "int (Suc n) \<le> maxRetries rp"
      and rest: "retry_loop_t us ext env rp meth ctx original body (Suc n) (Some r1) (sent @ reqs) (cs @ cs1) v' = Some ((r, u', sent'), cs')"
      by auto
    from Suc.hyps(1) [OF k rest n] obtain cs2 reqs2 where "cs' = cs @ cs1 @ cs2" "sent' = sent @ reqs @ reqs2"
      "loop_calls us (\<exists>x. r = Some x \<and> ur_err x = None) reqs2 cs2" by auto
    moreover from this(3) doCall_t_calls [OF call]
    have "loop_calls us (\<exists>x. r = Some x \<and> ur_err x = None) (reqs @ reqs2) (cs1 @ cs2)"
      by (cases reqs) (auto simp: loop_calls_def)
    ultimately show ?thesis by blast
  next
    case False
    with unfold le show ?thesis
      by (fastforce simp: loop_calls_def failed_with_def dest: doCall_t_calls split: option.splits prod.splits if_splits)
  qed
qed simp

lemma callUpstream_t_span:
  assumes "callUpstream_t us ext env path original body u = Some ((resp, u', sent), s)"
  obtains cs where "sp_name s = ''aastro.upstream''" "sp_calls s = cs @ error_calls (ur_err resp) @ [End]"
    "delivered s = cs @ error_calls (ur_err resp)" "loop_calls us (ur_err resp = None) sent cs"
proof -
  let ?rp = "retry (uc_policy (hu_cfg u))"
  obtain r cs u1 pol where loop: "retry_loop_t us ext (ce_attempts env) ?rp (effective_method (hu_cfg u) original)
      (req_Context original) original body 0 None [] [] u = Some ((Some r, u1, sent), cs)"
    and resp: "resp = applyPolicy pol r"
    and s: "sp_name s = ''aastro.upstream''" "sp_calls s = cs @ error_calls (ur_err resp) @ [End]"
    using assms by (auto simp: callUpstream_t_def upstream_call_t_def Let_def split: option.splits)
  have nonneg: "int 0 \<le> maxRetries ?rp"
    using loop by (auto simp: retry_loop_t.simps [of _ _ _ _ _ _ _ _ 0] split: if_splits)
  from retry_loop_t_calls [OF loop nonneg] have lc: "loop_calls us (ur_err r = None) sent cs" by simp
  have "ur_err r = None" if "ur_err resp = None"
    using resp that by (auto simp: applyPolicy_def Let_def split: if_splits option.splits)
  with lc have lc': "loop_calls us (ur_err resp = None) sent cs" by (auto simp: loop_calls_def)
  moreover have "End \<notin> set (cs @ error_calls (ur_err resp))"
    using lc by (auto simp: loop_calls_def error_calls_def split: option.splits)
  ultimately show thesis using that s delivered_upto_End [of s "cs @ error_calls (ur_err resp)"] by simp
qed

text \<open>A span that ends once, and last unless it is that of a plugin.\<close>

definition ends_once :: "span \<Rightarrow> bool" where
  "ends_once s \<longleftrightarrow> count_list (sp_calls s) End = 1 \<and> (sp_name s \<noteq> ''aastro.plugin'' \<longrightarrow> last (sp_calls s) = End)"

text \<open>
  The spans below that of a request: they end once, \<open>k\<close> of them belong to a scatter, and together they describe the
  requests sent.
\<close>

definition traces :: "(URL \<Rightarrow> string) \<Rightarrow> nat \<Rightarrow> Request list \<Rightarrow> span list \<Rightarrow> bool" where
  "traces us k sent ss \<longleftrightarrow>
     (\<forall>s \<in> set ss. ends_once s \<and> sp_name s \<in> {''aastro.plugin'', ''aastro.scatter'', ''aastro.upstream''}) \<and>
     length (filter (\<lambda>s. sp_name s = ''aastro.scatter'') ss) = k \<and>
     mset (concat (map (\<lambda>s. described (delivered s)) ss)) = mset (map (\<lambda>q. us (req_URL q)) sent)"

lemma traces_Nil [simp]: "traces us 0 [] []"
  by (simp add: traces_def)

lemma traces_append: "traces us k sent ss \<Longrightarrow> traces us k' sent' ss' \<Longrightarrow> traces us (k + k') (sent @ sent') (ss @ ss')"
  by (auto simp: traces_def)

lemma traces_Cons: "traces us k sent [s] \<Longrightarrow> traces us k' sent' ss' \<Longrightarrow> traces us (k + k') (sent @ sent') (s # ss')"
  using traces_append [of us k sent "[s]"] by simp

lemma traces_perm: "traces us k sent ss \<Longrightarrow> mset sent = mset sent' \<Longrightarrow> traces us k sent' ss"
  unfolding traces_def mset_map by simp

lemma ends_onceI: "sp_calls s = cs @ [End] \<Longrightarrow> End \<notin> set cs \<Longrightarrow> ends_once s"
  by (simp add: ends_once_def)

lemma upstream_span_traces:
  assumes "callUpstream_t us ext env path original body u = Some ((resp, u', sent), s)"
  shows "traces us 0 sent [s]"
proof -
  obtain cs where s: "sp_name s = ''aastro.upstream''" "sp_calls s = cs @ error_calls (ur_err resp) @ [End]"
    "delivered s = cs @ error_calls (ur_err resp)" "loop_calls us (ur_err resp = None) sent cs"
    by (rule callUpstream_t_span [OF assms])
  have "described (error_calls (ur_err resp)) = []" "End \<notin> set (error_calls (ur_err resp))"
    by (auto simp: error_calls_def List.map_filter_simps split: option.splits)
  moreover from this s(2,4) have "ends_once s"
    by (intro ends_onceI [of s "cs @ error_calls (ur_err resp)"]) (auto simp: loop_calls_def)
  ultimately show ?thesis using s by (simp add: traces_def loop_calls_def)
qed

lemma scatter_span_traces: "traces us 1 [] [scatter_span f ok]"
  by (auto simp: traces_def ends_once_def scatter_span_def delivered_def)

lemma plugin_span_traces: "traces us 0 [] [plugin_span p ty err]"
  by (auto simp: traces_def ends_once_def plugin_span_def delivered_def split: option.splits)

lemma executePlugins_t_traces: "executePlugins_t enc ty ps w st actx = Some (out, ss) \<Longrightarrow> traces us 0 [] ss"
proof (induction ps arbitrary: ty st actx out ss)
  case (Cons p ps)
  have add: "traces us 0 [] (plugin_span p ty' err # ss')" if "traces us 0 [] ss'" for ty' err ss'
    using traces_Cons [OF plugin_span_traces that] by simp
  show ?case
    using Cons.prems by (auto split: if_splits option.splits intro!: add dest!: Cons.IH)
qed simp

lemma mset_concat_update:
  assumes "i < length xs" "f (xs ! i) = []"
  shows "mset (concat (map f (xs[i := y]))) = mset (concat (map f xs)) + mset (f y)"
proof -
  have "xs = take i xs @ xs ! i # drop (Suc i) xs" using assms(1) by (rule id_take_nth_drop)
  then have "mset (concat (map f xs)) = mset (concat (map f (take i xs))) + mset (concat (map f (drop (Suc i) xs)))"
    using assms(2) by (metis (no_types) concat.simps(2) concat_append list.simps(9) map_append mset_append append_Nil)
  with assms(1) show ?thesis by (simp add: upd_conv_take_nth_drop)
qed

lemma scatter_steps_t_traces:
  assumes "scatter_steps_t us ext envs path original body order slots ss = Some (slots', ss')"
    and "distinct order" "set order \<subseteq> {..<length slots}" "\<forall>i \<in> set order. snd (snd (slots ! i)) = []"
    and "traces us 0 (concat (map (\<lambda>s. snd (snd s)) slots)) ss"
  shows "traces us 0 (concat (map (\<lambda>s. snd (snd s)) slots')) ss'"
  using assms
proof (induction order arbitrary: slots ss)
  case (Cons i order)
  then obtain resp u' sent s where c: "callUpstream_t us ext (envs i) path original body (fst (snd (slots ! i))) = Some ((resp, u', sent), s)"
    and rest: "scatter_steps_t us ext envs path original body order (slots[i := (resp, u', sent)]) (ss @ [s]) = Some (slots', ss')"
    by (auto split: option.splits)
  have "mset (concat (map (\<lambda>s. snd (snd s)) (slots[i := (resp, u', sent)]))) = mset (concat (map (\<lambda>s. snd (snd s)) slots) @ sent)"
    using Cons.prems by (subst mset_concat_update) auto
  with traces_append [OF Cons.prems(5) upstream_span_traces [OF c]]
  have "traces us 0 (concat (map (\<lambda>s. snd (snd s)) (slots[i := (resp, u', sent)]))) (ss @ [s])"
    by (simp add: traces_perm)
  then show ?case using Cons.prems by (intro Cons.IH [OF rest]) (auto simp: nth_list_update)
qed simp

lemma dispatch_t_traces:
  assumes "dispatch_t us he w st req f = Some ((ro, w', st', f', sent), ss)"
    and "distinct (he_order he (length (fl_upstreams f)))"
    and "set (he_order he (length (fl_upstreams f))) = {..<length (fl_upstreams f)}"
  shows "traces us 1 sent ss" "ro \<noteq> None \<Longrightarrow> w' = w"
proof -
  note add = traces_Cons [OF scatter_span_traces [of us f True], where k' = 0, simplified]
  show "ro \<noteq> None \<Longrightarrow> w' = w"
    using assms(1) by (auto simp: dispatch_t_def Let_def split: option.splits if_splits list.splits)
  have slots: "traces us 0 (concat (map (\<lambda>s. snd (snd s)) slots)) ss1"
    if "scatter_steps_t us (he_ext he) (he_calls he) (fl_path f) (deref st req) b (he_order he (length (fl_upstreams f)))
      (map (\<lambda>u. (zero_response, u, [])) (fl_upstreams f)) [] = Some (slots, ss1)" for b slots ss1
    by (rule scatter_steps_t_traces [OF that]) (use assms(2,3) in \<open>auto simp: o_def map_replicate_const\<close>)
  show "traces us 1 sent ss"
    using assms(1) scatter_span_traces [of us f False]
    by (auto simp: dispatch_t_def Let_def split: option.splits if_splits list.splits
        intro: add dest!: upstream_span_traces slots)
qed

lemma proxy_t_calls:
  assumes "proxy_t us ext env ctx w original u = Some ((err, w', u', sent), cs)"
  shows "End \<notin> set cs \<and> described cs = map (\<lambda>q. us (req_URL q)) sent"
  using assms
  by (auto simp: proxy_t_def Let_def List.map_filter_simps split: option.splits sum.splits prod.splits if_splits)

lemma handleStreaming_t_traces:
  assumes "handleStreaming_t us enc ext env ps w st req f = Some ((w', f', sent), ss)"
  shows "traces us 0 sent ss"
proof (cases "\<exists>u. fl_upstreams f = [u]")
  case False
  with assms show ?thesis by (auto simp: handleStreaming_t_def split: list.splits)
next
  case True
  then obtain u where u: "fl_upstreams f = [u]" by blast
  with assms obtain ok w1 st1 actx ss1 where
    pl: "executePlugins_t enc PluginTypeRequest ps w st (newContext req) = Some ((ok, w1, st1, actx), ss1)"
    by (auto simp: handleStreaming_t_def split: option.splits)
  from executePlugins_t_traces [OF pl] have ss1: "traces us 0 [] ss1" .
  show ?thesis
  proof (cases ok)
    case False
    with assms u pl ss1 show ?thesis by (auto simp: handleStreaming_t_def)
  next
    case True
    let ?s = "\<lambda>cs err code. \<lparr>sp_name = ''aastro.upstream'', sp_kind = SpanKindClient,
      sp_attributes = [AttrString ''aastro.upstream.name'' (uc_name (hu_cfg u)),
        AttrString ''aastro.upstream.mode'' ''streaming'', AttrString ''aastro.flow.path'' (fl_path f)],
      sp_calls = cs @ streaming_calls err code @ [End]\<rparr>"
    from True assms u pl obtain ctx tw q err tw' u' cs where
      pr: "proxy_t us ext env ctx tw q u = Some ((err, tw', u', sent), cs)"
      and ss: "ss = ss1 @ [?s cs err (tw_statusCode tw')]"
      by (auto simp: handleStreaming_t_def Let_def split: option.splits)
    have sc: "described (streaming_calls err code) = []" "End \<notin> set (streaming_calls err code)" for code
      by (auto simp: streaming_calls_def List.map_filter_simps split: option.splits)
    let ?cs = "cs @ streaming_calls err (tw_statusCode tw')" and ?t = "?s cs err (tw_statusCode tw')"
    have "traces us 0 sent [?t]"
      using proxy_t_calls [OF pr] sc delivered_upto_End [of ?t ?cs] ends_onceI [of ?t ?cs] by (simp add: traces_def)
    from traces_append [OF ss1 this] ss show ?thesis by simp
  qed
qed

text \<open>The calls on the span of a request before it ends, and the spans below it.\<close>

definition request_calls ::
  "(URL \<Rightarrow> string) \<Rightarrow> ResponseWriter \<Rightarrow> ResponseWriter \<Rightarrow> Request list \<Rightarrow> span_call list \<Rightarrow> span list \<Rightarrow> bool" where
  "request_calls us w w' sent cs ss \<longleftrightarrow>
     (\<exists>k. traces us k sent ss \<and> k \<le> 1) \<and> End \<notin> set cs \<and>
     (rw_sent w = None \<longrightarrow> (\<forall>c \<in> set (status_codes cs). final_status c \<longrightarrow> (\<exists>h. rw_sent w' = Some (c, h)))) \<and>
     (list_ex failed_call cs \<longleftrightarrow> (\<exists>c \<in> set (status_codes cs). 500 \<le> c))"

lemma newFlowHandler_t_traces:
  assumes "newFlowHandler_t us he ps w st req f = Some ((w', f', sent), cs, ss)"
    and "\<And>n. distinct (he_order he n) \<and> set (he_order he n) = {..<n}"
  shows "request_calls us w w' sent cs ss"
proof -
  let ?base = "[SetAttributes [AttrString ''http.route'' (fl_path f)],
    SetAttributes [AttrString ''aastro.request.id'' (getOrCreateRequestID (he_ids he) (deref st req)),
      AttrString ''aastro.request.fingerprint'' (computeFingerprint (he_sha256 he) (deref st req) (fl_path f))]]"
  let ?req = "WithContext (request_context he st req f) req"
  have base: "status_codes ?base = []" "End \<notin> set ?base" "\<not> list_ex failed_call ?base"
    by (simp_all add: List.map_filter_simps)
  show ?thesis
  proof (cases "fl_streaming f")
    case True
    with assms(1) base show ?thesis
      by (auto simp: newFlowHandler_t_def Let_def request_calls_def dest!: handleStreaming_t_traces)
  next
    case False
    note rest = assms(1) [unfolded newFlowHandler_t_def Let_def if_not_P [OF False]]
    from rest obtain ok1 w1 st1 actx1 ss1 where
      p1: "executePlugins_t (he_enc he) PluginTypeRequest ps w st (newContext ?req) = Some ((ok1, w1, st1, actx1), ss1)"
      by (auto split: option.splits)
    from executePlugins_t_traces [OF p1] have ss1: "traces us 0 [] ss1" .
    show ?thesis
    proof (cases ok1)
      case ok: False
      with rest p1 have "sent = []" "cs = ?base" "ss = ss1" by auto
      with base ss1 show ?thesis by (auto simp: request_calls_def)
    next
      case True
      with rest p1 obtain ro w2 st2 f2 ss2 where d: "dispatch_t us he w1 st1 ?req f = Some ((ro, w2, st2, f2, sent), ss2)"
        by (auto split: option.splits prod.splits if_splits)
      note dt = dispatch_t_traces [OF d assms(2) [THEN conjunct1] assms(2) [THEN conjunct2]]
      show ?thesis
      proof (cases ro)
        case None
        with True rest p1 d have "cs = ?base" "ss = ss1 @ ss2" by auto
        with base traces_append [OF ss1 dt(1)] show ?thesis by (auto simp: request_calls_def)
      next
        case (Some resp)
        with True rest p1 d obtain ok3 w3 st3 actx3 ss3 where
          p3: "executePlugins_t (he_enc he) PluginTypeResponse ps w2 st2 (SetResponse (Some resp) actx1) = Some ((ok3, w3, st3, actx3), ss3)"
          and ss: "ss = ss1 @ ss2 @ ss3"
          by (auto split: option.splits if_splits)
        from traces_append [OF traces_append [OF ss1 dt(1)] executePlugins_t_traces [OF p3]] ss
        have tr: "traces us 1 sent ss" by simp
        have w: "w2 = w1" "w1 = w"
          using dt(2) Some True plugins_run.result [of "(he_enc he, PluginTypeRequest, ps, w, st, newContext ?req)"] p1
          by (auto dest: executePlugins_rw)
        show ?thesis
        proof (cases ok3)
          case False
          with True Some rest p1 d p3 have "cs = ?base" by auto
          with base tr show ?thesis by (auto simp: request_calls_def)
        next
          case ok3: True
          with True Some rest p1 d p3 obtain fin where fin: "finish w3 (Some fin) = Some w'" "cs = ?base @ answer_calls (rs_StatusCode fin)"
            by (auto split: option.splits)
          have "w3 = w"
            using plugins_run.result [of "(he_enc he, PluginTypeResponse, ps, w2, st2, SetResponse (Some resp) actx1)"] p3 ok3 w
            by (auto dest: executePlugins_rw)
          with fin(1) have "rw_sent w = None \<Longrightarrow> final_status (rs_StatusCode fin) \<Longrightarrow> \<exists>h. rw_sent w' = Some (rs_StatusCode fin, h)"
            using finish_answers [of fin w] by auto
          with fin(2) base tr show ?thesis
            by (auto simp: request_calls_def answer_calls_def List.map_filter_simps)
        qed
      qed
    qed
  qed
qed

lemma serve_mux_t_traces:
  assumes "serve_mux_t chi (\<lambda>t. newFlowHandler_t us he (rt_plugins t)) w st req r = Some ((w', r', sent), cs, ss)"
    and "\<And>n. distinct (he_order he n) \<and> set (he_order he n) = {..<n}"
  shows "request_calls us w w' sent cs ss"
  using assms(1)
  by (cases "chi_match chi (registered r) (deref st req)")
    (auto simp: serve_mux_t_def Let_def request_calls_def [of _ _ _ "[]" "[]" "[]"] intro: exI [of _ 0]
      dest!: newFlowHandler_t_traces [OF _ assms(2)] split: if_splits)

text \<open>A failed plugin is not to be seen in what is delivered: its span has ended before the error is recorded.\<close>

lemma plugin_failure_not_traced:
  assumes "executePlugins_t enc ty ps w st actx = Some (out, ss)" "s \<in> set ss"
  shows "delivered s = [] \<and> \<not> marked_failed s"
proof -
  have "\<forall>s \<in> set ss. delivered s = []"
    using assms(1)
    by (induction ps arbitrary: ty st actx out ss)
      (fastforce simp: plugin_span_def delivered_def split: if_splits option.splits)+
  with assms(2) show ?thesis by (simp add: marked_failed_def)
qed

lemma plugin_failure_not_traced_witness:
  "\<exists>out s. executePlugins_t (\<lambda>p. Inr (pd_title p)) PluginTypeRequest
      [\<lparr>pl_Name = ''p'', pl_Type = PluginTypeRequest, pl_Execute = (\<lambda>(st, actx). Some (Some (ErrMsg ''no''), st, actx))\<rparr>]
      new_writer sample_store (newContext sample_object) = Some (out, [s]) \<and> \<not> fst out \<and>
     SetStatus codes_Error ''plugin execution failed'' \<in> set (sp_calls s) \<and> \<not> marked_failed s"
proof -
  let ?p = "\<lparr>pl_Name = ''p'', pl_Type = PluginTypeRequest,
    pl_Execute = (\<lambda>(st, actx). Some (Some (ErrMsg ''no''), st, actx))\<rparr> :: plugin"
  let ?enc = "(\<lambda>p. Inr (pd_title p)) :: problem_encoder"
  have "rw_sent new_writer = None" by (simp add: new_writer_def)
  from WriteError_status [OF this, of 500 ?enc ClientErrInternal]
  obtain w' where "WriteError ?enc new_writer ClientErrInternal 500 = Some w'" by (auto simp: final_status_def)
  then have "executePlugins_t ?enc PluginTypeRequest [?p] new_writer sample_store (newContext sample_object) =
      Some ((False, w', sample_store, newContext sample_object), [plugin_span ?p PluginTypeRequest (Some (ErrMsg ''no''))])"
    by (simp add: newContext_def SetRequest_def)
  moreover from plugin_failure_not_traced [OF this] have "\<not> marked_failed (plugin_span ?p PluginTypeRequest (Some (ErrMsg ''no'')))"
    by simp
  ultimately show ?thesis by (auto simp: plugin_span_def)
qed

text \<open>
  A call whose first attempt fails and whose second one succeeds leaves a span that is marked as failed, since nothing takes
  the mark of the first attempt back.
\<close>

lemma retried_success_marked_failed:
  "case callUpstream_t url_Path sample_externals
      \<lparr>ce_attempts = (\<lambda>n. if n = 0 then refused else answering 200 ''ok''), ce_now = 100\<rparr> ''/u'' sample_request ''x'' sample_upstream of
     None \<Rightarrow> False
   | Some ((resp, u', sent), s) \<Rightarrow> ur_err resp = None \<and> ur_status resp = 200 \<and> length sent = 2 \<and> marked_failed s"
  by code_simp

text \<open>The span of a streamed request, or of one that a plugin stops with a 500, has neither a status nor a mark.\<close>

lemma unrecorded_status:
  assumes "newFlowHandler_t us he ps w st req f = Some ((w', f', sent), cs, ss)"
    and "fl_streaming f \<or> (\<exists>w1 st1 actx1.
      executePlugins (he_enc he) PluginTypeRequest ps w st (newContext (WithContext (request_context he st req f) req)) =
        Some (False, w1, st1, actx1))"
  shows "status_codes cs = [] \<and> \<not> list_ex failed_call cs"
proof (cases "fl_streaming f")
  case True
  with assms(1) show ?thesis by (auto simp: newFlowHandler_t_def Let_def List.map_filter_simps)
next
  case False
  with assms(2) obtain out ss1 where
    "executePlugins_t (he_enc he) PluginTypeRequest ps w st (newContext (WithContext (request_context he st req f) req)) =
       Some ((False, out), ss1)"
    using plugins_run.returns [of "(he_enc he, PluginTypeRequest, ps, w, st, newContext (WithContext (request_context he st req f) req))"]
    by force
  with False assms(1) show ?thesis
    by (cases out) (auto simp: newFlowHandler_t_def Let_def List.map_filter_simps)
qed

section \<open>Properties\<close>

text \<open>
  C36. The span of an upstream call accounts for it: the result is that of the call without spans; the span ends last and
  once; it describes the requests that were sent, by their addresses and in their order; it is marked as failed when the call
  failed, with the kind of the error; and it is not marked when the call succeeded with the first request.
\<close>

theorem upstream_span_account:
  assumes "callUpstream_t us ext env path original body u = Some ((resp, u', sent), s)"
  shows "callUpstream ext env original body u = Some (resp, u', sent) \<and>
    sp_calls s = delivered s @ [End] \<and> End \<notin> set (delivered s) \<and>
    described (delivered s) = map (\<lambda>q. us (req_URL q)) sent \<and>
    (case ur_err resp of
       None \<Rightarrow> sent \<noteq> [] \<and> (length sent = 1 \<longrightarrow> \<not> marked_failed s)
     | Some e \<Rightarrow> marked_failed s \<and> RecordError (ue_err e) \<in> set (delivered s) \<and>
         SetAttributes [AttrString ''aastro.upstream.error_kind'' (kind_string (ue_kind e))] \<in> set (delivered s))"
proof -
  obtain cs where s: "sp_name s = ''aastro.upstream''" "sp_calls s = cs @ error_calls (ur_err resp) @ [End]"
    "delivered s = cs @ error_calls (ur_err resp)" "loop_calls us (ur_err resp = None) sent cs"
    by (rule callUpstream_t_span [OF assms])
  have "callUpstream ext env original body u = Some (resp, u', sent)"
    using traced_call.result [of "(us, ext, env, path, original, body, u)"] assms by simp
  then show ?thesis
    using s by (auto simp: loop_calls_def error_calls_def marked_failed_def List.map_filter_simps split: option.splits)
qed

theorem upstream_span_account_witness:
  "\<exists>resp u' sent s. callUpstream_t url_Path sample_externals \<lparr>ce_attempts = (\<lambda>n. refused), ce_now = 100\<rparr> ''/u'' sample_request ''x''
      sample_upstream = Some ((resp, u', sent), s) \<and> sp_calls s = delivered s @ [End] \<and>
     described (delivered s) = map (\<lambda>q. url_Path (req_URL q)) sent"
proof -
  let ?env = "\<lparr>ce_attempts = (\<lambda>n. refused), ce_now = 100\<rparr>"
  obtain resp u' sent where "callUpstream sample_externals ?env sample_request ''x'' sample_upstream = Some (resp, u', sent)"
    unfolding callUpstream_def using sample_call_returns by blast
  then obtain s where m: "callUpstream_t url_Path sample_externals ?env ''/u'' sample_request ''x'' sample_upstream = Some ((resp, u', sent), s)"
    using traced_call.returns [of "(url_Path, sample_externals, ?env, ''/u'', sample_request, ''x'', sample_upstream)"] by auto
  from upstream_span_account [OF m] have "sp_calls s = delivered s @ [End]" "described (delivered s) = map (\<lambda>q. url_Path (req_URL q)) sent"
    by blast+
  with m show ?thesis by (intro exI conjI)
qed



end
