(* ===== verification/Builtin_Plugins.thy ===== *)
theory Builtin_Plugins
  imports Loader
begin

text \<open>
  The plugins that come with the gateway (\<^verbatim>\<open>builtin/plugins\<close>): two that rename the fields of a JSON
  response and one that masks fields.  A decoded document is a tree; the decoder and the encoder
  of the JSON package are parameters.  Text is a sequence of bytes in UTF-8; the functions of
  package \<^verbatim>\<open>unicode\<close> on characters beyond ASCII are a parameter too.
\<close>

section \<open>Documents\<close>

text \<open>A document is a value of type \<^typ>\<open>json\<close>; the package that reads and prints it is a parameter.\<close>

record json_lib =
  js_Unmarshal :: "bytes \<Rightarrow> go_error + json"
  js_Marshal :: "json \<Rightarrow> go_error + bytes"
  js_ToLower :: "string \<Rightarrow> string"

section \<open>Rewriting the body\<close>

text \<open>
  The common shape of \<^verbatim>\<open>Execute\<close>: the body is read, decoded, rewritten and encoded; what is no JSON
  stays as it is.  A body that was read and not replaced is at its end.
\<close>

definition with_body :: "bytes option \<Rightarrow> http_resp \<Rightarrow> aastroContext \<Rightarrow> aastroContext" where
  "with_body b resp actx = SetResponse (Some (resp\<lparr>rs_Body := map_option body_of b\<rparr>)) actx"

definition rewrite_body ::
  "json_lib \<Rightarrow> string \<Rightarrow> (json \<Rightarrow> json) \<Rightarrow> store \<times> aastroContext \<Rightarrow> (go_error option \<times> store \<times> aastroContext) go" where
  "rewrite_body js name g sa =
     (case sa of (st, actx) \<Rightarrow>
        case ac_resp actx of
          None \<Rightarrow> Some (None, st, actx)
        | Some resp \<Rightarrow>
            (case rs_Body resp of
               None \<Rightarrow> Some (None, st, actx)
             | Some body \<Rightarrow>
                 let (buf, err) = ReadAll body in
                 (case err of
                    Some e \<Rightarrow> Some (Some (ErrWrap (name @ '': cannot read body: '') e), st, with_body (Some []) resp actx)
                  | None \<Rightarrow>
                      if buf = [] then Some (None, st, with_body (Some buf) resp actx)
                      else
                        (case js_Unmarshal js buf of
                           Inl e \<Rightarrow> Some (None, st, with_body (Some buf) resp actx)
                         | Inr raw \<Rightarrow>
                             (case js_Marshal js (g raw) of
                                Inl e \<Rightarrow> Some (Some (ErrWrap (name @ '': cannot marshal JSON: '') e), st,
                                               with_body (Some []) resp actx)
                              | Inr newBody \<Rightarrow> Some (None, st, with_body (Some newBody) resp actx))))))"

section \<open>camelify\<close>

text \<open>
  \<^verbatim>\<open>strings.ToUpper\<close> of a single byte: a byte of a longer character is no character by itself and
  becomes the replacement character.
\<close>

definition upper_byte :: "char \<Rightarrow> string" where
  "upper_byte c = (if (of_char c :: nat) < 128 then [to_upper c] else [CHR 0xEF, CHR 0xBF, CHR 0xBD])"

definition capitalize :: "string \<Rightarrow> string" where
  "capitalize p = (case p of [] \<Rightarrow> [] | c # cs \<Rightarrow> upper_byte c @ cs)"

definition snakeToCamel :: "string \<Rightarrow> string" where
  "snakeToCamel s =
     (case Split s CHR ''_'' of
        [] \<Rightarrow> []
      | p # ps \<Rightarrow> Join (p # map capitalize ps) [])"

text \<open>\<^verbatim>\<open>transformKeys\<close> for a renaming: the pairs of an object are visited in the order of the map.\<close>

fun transformKeys :: "(string \<Rightarrow> string) \<Rightarrow> json \<Rightarrow> json" where
  "transformKeys ren (JObject kvs) =
     JObject (fold (\<lambda>(k, v) m. AList.update (ren k) v m) (map (\<lambda>(k, v). (k, transformKeys ren v)) kvs) [])"
| "transformKeys ren (JArray vs) = JArray (map (transformKeys ren) vs)"
| "transformKeys ren JNull = JNull"
| "transformKeys ren (JBool b) = JBool b"
| "transformKeys ren (JNumber n) = JNumber n"
| "transformKeys ren (JString s) = JString s"

definition camelify_Execute :: "json_lib \<Rightarrow> store \<times> aastroContext \<Rightarrow> (go_error option \<times> store \<times> aastroContext) go" where
  "camelify_Execute js = rewrite_body js ''camelify'' (transformKeys snakeToCamel)"

definition camelify :: "json_lib \<Rightarrow> plugin_object" where
  "camelify js = \<lparr>po_Name = ''camelify'',
     po_Init = (\<lambda>cfg. Inr \<lparr>pl_Name = ''camelify'', pl_Type = PluginTypeResponse, pl_Execute = camelify_Execute js\<rparr>)\<rparr>"

section \<open>snakeify\<close>

text \<open>
  The two replacements, with the leftmost match and the longest run of lower-case letters.  A
  newline is no character for the dot of the first pattern.
\<close>

function reUpper :: "string \<Rightarrow> string" where
  "reUpper [] = []"
| "reUpper [c] = [c]"
| "reUpper (c # d # s) =
     (let low = takeWhile is_lower s; rest = dropWhile is_lower s in
      if c \<noteq> CHR 0x0A \<and> is_upper d \<and> low \<noteq> []
      then c # CHR ''_'' # d # low @ reUpper rest
      else c # reUpper (d # s))"
  by pat_completeness auto

termination reUpper
proof (relation "measure length")
  fix c d :: char and s low rest
  assume "rest = dropWhile is_lower s"
  then show "(rest, c # d # s) \<in> measure length" by (simp add: le_imp_less_Suc length_dropWhile_le le_SucI)
qed simp_all

fun reUpperSeq :: "string \<Rightarrow> string" where
  "reUpperSeq (c # d # s) =
     (if (is_lower c \<or> is_digit c) \<and> is_upper d then c # CHR ''_'' # d # reUpperSeq s
      else c # reUpperSeq (d # s))"
| "reUpperSeq s = s"

definition strings_ToLower :: "json_lib \<Rightarrow> string \<Rightarrow> string" where
  "strings_ToLower js s = (if list_all (\<lambda>c. (of_char c :: nat) < 128) s then map to_lower s else js_ToLower js s)"

definition camelToSnake :: "json_lib \<Rightarrow> string \<Rightarrow> string" where
  "camelToSnake js s = strings_ToLower js (reUpperSeq (reUpper s))"

definition snakeify_Execute :: "json_lib \<Rightarrow> store \<times> aastroContext \<Rightarrow> (go_error option \<times> store \<times> aastroContext) go" where
  "snakeify_Execute js = rewrite_body js ''snakeify'' (transformKeys (camelToSnake js))"

definition snakeify :: "json_lib \<Rightarrow> plugin_object" where
  "snakeify js = \<lparr>po_Name = ''snakeify'',
     po_Init = (\<lambda>cfg. Inr \<lparr>pl_Name = ''snakeify'', pl_Type = PluginTypeResponse, pl_Execute = snakeify_Execute js\<rparr>)\<rparr>"

section \<open>masker\<close>

definition maskValue :: string where
  "maskValue = ''***''"

fun maskKeys :: "string list \<Rightarrow> json \<Rightarrow> json" where
  "maskKeys fs (JObject kvs) =
     JObject (map (\<lambda>(k, v). (k, if k \<in> set fs then JString maskValue else maskKeys fs v)) kvs)"
| "maskKeys fs (JArray vs) = JArray (map (maskKeys fs) vs)"
| "maskKeys fs JNull = JNull"
| "maskKeys fs (JBool b) = JBool b"
| "maskKeys fs (JNumber n) = JNumber n"
| "maskKeys fs (JString s) = JString s"

definition masker_Execute ::
  "json_lib \<Rightarrow> string list \<Rightarrow> store \<times> aastroContext \<Rightarrow> (go_error option \<times> store \<times> aastroContext) go" where
  "masker_Execute js fs sa = (if fs = [] then Some (None, sa) else rewrite_body js ''masker'' (maskKeys fs) sa)"

definition masker_fields :: "cfg_value list \<Rightarrow> string list" where
  "masker_fields raw = List.map_filter (\<lambda>v. case v of CfgString s \<Rightarrow> Some s | _ \<Rightarrow> None) raw"

definition masker_Init :: "json_lib \<Rightarrow> cfg_map \<Rightarrow> go_error + plugin" where
  "masker_Init js cfg =
     (case map_of cfg ''fields'' of
        Some (CfgList raw) \<Rightarrow>
          Inr \<lparr>pl_Name = ''masker'', pl_Type = PluginTypeResponse, pl_Execute = masker_Execute js (masker_fields raw)\<rparr>
      | _ \<Rightarrow> Inl (ErrMsg ''fields must be an array''))"

definition masker :: "json_lib \<Rightarrow> plugin_object" where
  "masker js = \<lparr>po_Name = ''masker'', po_Init = masker_Init js\<rparr>"

section \<open>Lemmas: the contract of plugins\<close>

lemma rewrite_body_tame: "tame \<lparr>pl_Name = n, pl_Type = ty, pl_Execute = rewrite_body js name g\<rparr>"
  by (auto simp: tame_def usable_def rewrite_body_def with_body_def SetResponse_def Let_def
      split: option.split prod.split sum.split)

lemma builtin_tame:
  "po_Init (camelify js) cfg = Inr p \<Longrightarrow> tame p"
  "po_Init (snakeify js) cfg = Inr p \<Longrightarrow> tame p"
  "po_Init (masker js) cfg = Inr p \<Longrightarrow> tame p"
proof -
  show "po_Init (camelify js) cfg = Inr p \<Longrightarrow> tame p" "po_Init (snakeify js) cfg = Inr p \<Longrightarrow> tame p"
    using rewrite_body_tame
    by (auto simp: camelify_def camelify_Execute_def snakeify_def snakeify_Execute_def)
  have "tame \<lparr>pl_Name = n, pl_Type = ty, pl_Execute = masker_Execute js fs\<rparr>" for n ty fs
    using rewrite_body_tame [of n ty js "''masker''" "maskKeys fs"]
    by (cases "fs = []") (auto simp: tame_def masker_Execute_def)
  then show "po_Init (masker js) cfg = Inr p \<Longrightarrow> tame p"
    by (auto simp: masker_def masker_Init_def split: option.splits cfg_value.splits)
qed

section \<open>Lemmas: masking\<close>

text \<open>Places in a document, and what is there.\<close>

datatype step = Key string | Idx nat

fun lookup :: "json \<Rightarrow> step list \<Rightarrow> json option" where
  "lookup j [] = Some j"
| "lookup (JObject kvs) (Key k # p) = Option.bind (map_of kvs k) (\<lambda>v. lookup v p)"
| "lookup (JArray vs) (Idx i # p) = (if i < length vs then lookup (vs ! i) p else None)"
| "lookup j p = None"

lemma map_of_maskKeys:
  "map_of (map (\<lambda>(k, v). (k, if k \<in> set fs then m else g v)) kvs) k =
     map_option (\<lambda>v. if k \<in> set fs then m else g v) (map_of kvs k)"
  by (induction kvs) auto

definition avoids :: "string list \<Rightarrow> step list \<Rightarrow> bool" where
  "avoids fs p \<longleftrightarrow> (\<forall>k. Key k \<in> set p \<longrightarrow> k \<notin> set fs)"

lemma lookup_maskKeys: "avoids fs p \<Longrightarrow> lookup (maskKeys fs j) p = map_option (maskKeys fs) (lookup j p)"
proof (induction j p rule: lookup.induct)
  case (2 kvs k p)
  then show ?case by (cases "map_of kvs k") (auto simp: map_of_maskKeys avoids_def)
qed (auto simp: avoids_def)

lemma lookup_append: "lookup j (p @ q) = Option.bind (lookup j p) (\<lambda>v. lookup v q)"
proof (induction j p rule: lookup.induct)
  case (2 kvs k p)
  then show ?case by (cases "map_of kvs k") auto
qed auto

text \<open>The first masked field on the way to a place hides everything from there on.\<close>

lemma maskKeys_hides:
  assumes "avoids fs p" "k \<in> set fs" "lookup (maskKeys fs j) (p @ Key k # q) = Some v"
  shows "v = JString maskValue \<and> q = []"
proof -
  obtain o1 where o1: "lookup j p = Some o1" "lookup (maskKeys fs o1) (Key k # q) = Some v"
    using assms(3) lookup_maskKeys [OF assms(1)] by (auto simp: lookup_append bind_eq_Some_conv)
  then obtain kvs v0 where "o1 = JObject kvs" "map_of kvs k = Some v0" "lookup (JString maskValue) q = Some v"
    using assms(2) by (cases o1) (auto simp: map_of_maskKeys bind_eq_Some_conv)
  then show ?thesis by (cases q) auto
qed

section \<open>Lemmas: renaming\<close>

definition snake_word :: "string \<Rightarrow> bool" where
  "snake_word w \<longleftrightarrow> 2 \<le> length w \<and> list_all is_lower w"

definition snake_name :: "string \<Rightarrow> bool" where
  "snake_name s \<longleftrightarrow> list_all snake_word (Split s CHR ''_'')"

lemma lower_props:
  assumes "is_lower c"
  shows "\<not> is_upper c" "c \<noteq> CHR ''_''" "c \<noteq> CHR 0x0A" "is_upper (to_upper c)" "to_lower (to_upper c) = c"
    "to_lower c = c" "(of_char c :: nat) < 128" "(of_char (to_upper c) :: nat) < 128" "\<not> is_lower (to_upper c)"
    "upper_byte c = [to_upper c]" "to_upper c \<noteq> CHR 0x0A"
proof -
  show "\<not> is_upper c" "c \<noteq> CHR ''_''" "c \<noteq> CHR 0x0A" "(of_char c :: nat) < 128" "to_lower c = c"
    using assms by (auto simp: is_lower_def is_upper_def to_lower_def)
  then show "upper_byte c = [to_upper c]" by (simp add: upper_byte_def)
  have "(of_char c :: nat) - 32 < 256" using assms unfolding is_lower_def by linarith
  then have n: "(of_char (to_upper c) :: nat) = of_char c - 32"
    using assms by (simp add: to_upper_def)
  then show "is_upper (to_upper c)" "(of_char (to_upper c) :: nat) < 128" "\<not> is_lower (to_upper c)"
    "to_upper c \<noteq> CHR 0x0A"
    using assms by (auto simp: is_lower_def is_upper_def)
  then show "to_lower (to_upper c) = c"
    using n assms by (simp add: to_lower_def is_lower_def)
qed

lemma underscore_props: "\<not> is_upper CHR ''_''" "\<not> is_lower CHR ''_''" "\<not> is_digit CHR ''_''" "to_lower CHR ''_'' = CHR ''_''"
  by (simp_all add: is_upper_def is_lower_def is_digit_def to_lower_def)

text \<open>A block: no capital after its first character, and lower case at its end.\<close>

definition block :: "string \<Rightarrow> bool" where
  "block x \<longleftrightarrow> x \<noteq> [] \<and> list_all (\<lambda>c. \<not> is_upper c) (tl x) \<and> CHR 0x0A \<notin> set x \<and> is_lower (last x)"

lemma block_Cons: "block (c # d # x) \<longleftrightarrow> c \<noteq> CHR 0x0A \<and> \<not> is_upper d \<and> block (d # x)"
  by (auto simp: block_def)

lemma capitalize_word:
  assumes "snake_word w"
  shows "\<exists>u low. capitalize w = u # low \<and> is_upper u \<and> \<not> is_lower u \<and> low \<noteq> [] \<and> list_all is_lower low \<and>
    map to_lower (capitalize w) = w \<and> list_all (\<lambda>c. (of_char c :: nat) < 128) (capitalize w) \<and> block (capitalize w) \<and> block low"
proof -
  obtain c low where w: "w = c # low" "is_lower c" "list_all is_lower low" and "length low \<ge> 1"
    using assms by (cases w) (auto simp: snake_word_def)
  then have ne: "low \<noteq> []" by auto
  have cap: "capitalize w = to_upper c # low" using w by (simp add: capitalize_def lower_props)
  have low: "is_lower d" if "d \<in> set low" for d using that w(3) by (simp add: list_all_iff)
  have "map to_lower low = low" using low by (auto simp: lower_props intro: map_idI)
  with cap w have "map to_lower (capitalize w) = w" by (simp add: lower_props)
  moreover have "list_all (\<lambda>c. (of_char c :: nat) < 128) (capitalize w)"
    using cap w(2) low by (simp add: list_all_iff lower_props)
  moreover have tail: "list_all (\<lambda>d. \<not> is_upper d) low" "CHR 0x0A \<notin> set low" "is_lower (last low)"
    using low ne lower_props(1,3) by (auto simp: list_all_iff)
  moreover have "block (capitalize w)" using cap tail ne lower_props(11) [OF w(2)] by (auto simp: block_def)
  moreover have "list_all (\<lambda>d. \<not> is_upper d) (tl low)" using tail(1) ne by (cases low) simp_all
  then have "block low" using tail ne by (simp add: block_def)
  ultimately show ?thesis using cap w(2,3) ne by (simp add: lower_props)
qed

lemma snake_word_block:
  assumes "snake_word w" shows "block w"
proof -
  have w: "w \<noteq> []" "\<And>c. c \<in> set w \<Longrightarrow> is_lower c" using assms by (auto simp: snake_word_def list_all_iff)
  then have "\<not> is_upper c" "c \<noteq> CHR 0x0A" if "c \<in> set w" for c using that by (simp_all add: lower_props)
  with w show ?thesis by (auto simp: block_def list_all_iff dest: list.set_sel(2))
qed

declare reUpper.simps(3) [simp del]

lemma reUpper_block: "block x \<Longrightarrow> reUpper x = x"
proof (induction x rule: induct_list012)
  case (3 c d x)
  then show ?case by (simp add: block_Cons reUpper.simps(3) Let_def)
qed simp_all

text \<open>A capitalised word after a block gets an underscore in front of it.\<close>

lemma reUpper_word:
  assumes "block x" "is_upper u" "low \<noteq> []" "list_all is_lower low" "rest = [] \<or> \<not> is_lower (hd rest)"
  shows "reUpper (x @ u # low @ rest) = x @ CHR ''_'' # u # low @ reUpper rest"
  using assms(1)
proof (induction x rule: induct_list012)
  case (2 c)
  have "takeWhile is_lower (low @ rest) = low" "dropWhile is_lower (low @ rest) = rest"
    using assms(4,5) by (induction low) (cases rest; auto)+
  with 2 assms(2,3) show ?case by (auto simp: block_def reUpper.simps(3) Let_def)
next
  case (3 c d x)
  then show ?case by (simp add: block_Cons reUpper.simps(3) Let_def)
qed (simp add: block_def)

text \<open>Capitalised words, each with or without an underscore in front of it.\<close>

fun joined :: "bool list \<Rightarrow> string list \<Rightarrow> string" where
  "joined bs [] = []"
| "joined (b # bs) (w # ws) = (if b then CHR ''_'' # capitalize w else capitalize w) @ joined bs ws"
| "joined [] (w # ws) = capitalize w @ joined [] ws"

lemma joined_Nil: "joined [] ws = concat (map capitalize ws)"
  by (induction ws) simp_all

lemma joined_hd: "list_all snake_word ws \<Longrightarrow> joined [] ws = [] \<or> \<not> is_lower (hd (joined [] ws))"
  using capitalize_word by (cases ws) fastforce+

lemma reUpper_joined:
  "block x \<Longrightarrow> list_all snake_word ws \<Longrightarrow> \<exists>bs. reUpper (x @ joined [] ws) = x @ joined bs ws"
proof (induction "length ws" arbitrary: x ws rule: less_induct)
  case less
  show ?case
  proof (cases ws)
    case Nil
    with less.prems show ?thesis by (simp add: reUpper_block)
  next
    case (Cons w ws1)
    with less.prems have w: "snake_word w" and ws1: "list_all snake_word ws1" by simp_all
    obtain u low where u: "capitalize w = u # low" "is_upper u" "low \<noteq> []" "list_all is_lower low"
      using capitalize_word [OF w] by blast
    have one: "reUpper (x @ joined [] ws) = x @ CHR ''_'' # capitalize w @ reUpper (joined [] ws1)"
      using reUpper_word [OF less.prems(1) u(2-4) joined_hd [OF ws1]] u(1) Cons by simp
    have "\<exists>bs. reUpper (joined [] ws1) = joined bs ws1"
    proof (cases ws1)
      case (Cons w2 ws2)
      with ws1 have w2: "block (capitalize w2)" "list_all snake_word ws2" using capitalize_word [of w2] by auto
      have "length ws2 < length ws" using Cons \<open>ws = w # ws1\<close> by simp
      from less.hyps [OF this w2] obtain bs where "reUpper (capitalize w2 @ joined [] ws2) = capitalize w2 @ joined bs ws2"
        by blast
      with Cons show ?thesis by (intro exI [of _ "False # bs"]) simp
    qed simp
    then obtain bs where "reUpper (joined [] ws1) = joined bs ws1" by blast
    with one Cons show ?thesis by (intro exI [of _ "True # bs"]) simp
  qed
qed

lemma reUpperSeq_block: "block x \<Longrightarrow> reUpperSeq x = x"
proof (induction x rule: induct_list012)
  case (3 c d x)
  then show ?case by (simp add: block_Cons)
qed simp_all

lemma reUpperSeq_underscore: "block x \<Longrightarrow> reUpperSeq (x @ CHR ''_'' # rest) = x @ CHR ''_'' # reUpperSeq rest"
proof (induction x rule: induct_list012)
  case (2 c)
  show ?case by (cases rest) (simp_all add: underscore_props)
next
  case (3 c d x)
  then show ?case by (simp add: block_Cons)
qed (simp add: block_def)

lemma reUpperSeq_capital:
  "block x \<Longrightarrow> is_upper u \<Longrightarrow> reUpperSeq (x @ u # rest) = x @ CHR ''_'' # u # reUpperSeq rest"
proof (induction x rule: induct_list012)
  case (3 c d x)
  then show ?case by (simp add: block_Cons)
qed (simp_all add: block_def)

lemma reUpperSeq_joined:
  "block x \<Longrightarrow> list_all snake_word ws \<Longrightarrow>
     reUpperSeq (x @ joined bs ws) = x @ concat (map (\<lambda>w. CHR ''_'' # capitalize w) ws)"
proof (induction ws arbitrary: x bs)
  case Nil
  then show ?case by (simp add: reUpperSeq_block)
next
  case (Cons w ws)
  obtain u low where u: "capitalize w = u # low" "is_upper u" "block low" "block (capitalize w)"
    using capitalize_word [of w] Cons.prems(2) by auto
  have ws: "list_all snake_word ws" using Cons.prems(2) by simp
  have plain: "reUpperSeq (x @ capitalize w @ joined bs' ws) =
      x @ CHR ''_'' # capitalize w @ concat (map (\<lambda>w. CHR ''_'' # capitalize w) ws)" for bs'
    using reUpperSeq_capital [OF Cons.prems(1) u(2), of "low @ joined bs' ws"] Cons.IH [OF u(3) ws, of bs'] u(1) by simp
  have under: "reUpperSeq (x @ CHR ''_'' # capitalize w @ joined bs' ws) =
      x @ CHR ''_'' # capitalize w @ concat (map (\<lambda>w. CHR ''_'' # capitalize w) ws)" for bs'
    using reUpperSeq_underscore [OF Cons.prems(1), of "capitalize w @ joined bs' ws"] Cons.IH [OF u(4) ws, of bs'] by simp
  show ?case
  proof (cases bs)
    case Nil
    with plain [of "[]"] show ?thesis by simp
  next
    case (Cons b bs')
    with plain [of bs'] under [of bs'] show ?thesis by simp
  qed
qed

lemma Join_concat: "Join (w # ws) sep = w @ concat (map (\<lambda>w. sep @ w) ws)"
  by (induction ws arbitrary: w) simp_all

lemma Join_empty: "Join ws [] = concat ws"
  by (induction ws rule: induct_list012) simp_all

lemma snake_name_round_trip:
  assumes "snake_name s" shows "camelToSnake js (snakeToCamel s) = s"
proof -
  obtain w ws where s: "Split s CHR ''_'' = w # ws" using Split_not_Nil list.exhaust by blast
  with assms have w: "snake_word w" and ws: "list_all snake_word ws" by (simp_all add: snake_name_def)
  let ?out = "w @ concat (map (\<lambda>w. CHR ''_'' # capitalize w) ws)"
  obtain bs where "reUpper (w @ joined [] ws) = w @ joined bs ws"
    using reUpper_joined [OF snake_word_block [OF w] ws] by blast
  moreover have "snakeToCamel s = w @ joined [] ws"
    using s by (simp add: snakeToCamel_def Join_empty joined_Nil)
  ultimately have re: "reUpperSeq (reUpper (snakeToCamel s)) = ?out"
    using reUpperSeq_joined [OF snake_word_block [OF w] ws] by simp
  have cap: "map to_lower (capitalize v) = v" "list_all (\<lambda>c. (of_char c :: nat) < 128) (capitalize v)" if "v \<in> set ws" for v
    using capitalize_word [of v] ws that by (auto simp: list_all_iff)
  have wl: "list_all is_lower w" using w by (simp add: snake_word_def)
  have "map to_lower w = w" using wl by (auto simp: list_all_iff lower_props intro: map_idI)
  moreover have "map to_lower (concat (map (\<lambda>w. CHR ''_'' # capitalize w) ws)) = concat (map (\<lambda>w. CHR ''_'' # w) ws)"
    using cap(1) by (simp add: map_concat comp_def underscore_props cong: map_cong)
  ultimately have low: "map to_lower ?out = s"
    using Join_Split [of s "CHR ''_''"] s by (simp add: Join_concat)
  have "list_all (\<lambda>c. (of_char c :: nat) < 128) ?out"
    using cap(2) wl by (auto simp: list_all_iff lower_props(7))
  with re low show ?thesis by (simp add: camelToSnake_def strings_ToLower_def)
qed

text \<open>Renaming an object whose new names are distinct renames each pair in place.\<close>

lemma update_new: "k \<notin> fst ` set m \<Longrightarrow> AList.update k v m = m @ [(k, v)]"
  by (induction m) auto

lemma fold_update_distinct:
  "distinct (map fst m @ map (\<lambda>kv. ren (fst kv)) kvs) \<Longrightarrow>
     fold (\<lambda>(k, v) m. AList.update (ren k) v m) kvs m = m @ map (\<lambda>(k, v). (ren k, v)) kvs"
proof (induction kvs arbitrary: m)
  case (Cons kv kvs)
  obtain k v where kv: "kv = (k, v)" by force
  from Cons.prems have "ren k \<notin> fst ` set m" by (auto simp: kv)
  then have "AList.update (ren k) v m = m @ [(ren k, v)]" by (rule update_new)
  moreover have "distinct (map fst (m @ [(ren k, v)]) @ map (\<lambda>kv. ren (fst kv)) kvs)" using Cons.prems by (auto simp: kv)
  from Cons.IH [OF this] have "fold (\<lambda>(k, v) m. AList.update (ren k) v m) kvs (m @ [(ren k, v)]) =
      (m @ [(ren k, v)]) @ map (\<lambda>(k, v). (ren k, v)) kvs" .
  ultimately show ?case by (simp add: kv)
qed simp

text \<open>A document whose objects have distinct fields, named in snake case.\<close>

fun snake_doc :: "json \<Rightarrow> bool" where
  "snake_doc (JObject kvs) \<longleftrightarrow>
     distinct (map fst kvs) \<and> list_all (\<lambda>kv. snake_name (fst kv)) kvs \<and> list_all (\<lambda>kv. snake_doc (snd kv)) kvs"
| "snake_doc (JArray vs) \<longleftrightarrow> list_all snake_doc vs"
| "snake_doc JNull \<longleftrightarrow> True"
| "snake_doc (JBool b) \<longleftrightarrow> True"
| "snake_doc (JNumber n) \<longleftrightarrow> True"
| "snake_doc (JString s) \<longleftrightarrow> True"

lemma transformKeys_distinct:
  assumes "distinct (map (\<lambda>kv. ren (fst kv)) kvs)"
  shows "transformKeys ren (JObject kvs) = JObject (map (\<lambda>kv. (ren (fst kv), transformKeys ren (snd kv))) kvs)"
proof -
  have "distinct (map fst [] @ map (\<lambda>kv. ren (fst kv)) (map (\<lambda>(k, v). (k, transformKeys ren v)) kvs))"
    using assms by (simp add: comp_def split_beta)
  from fold_update_distinct [OF this] show ?thesis by (simp add: comp_def split_beta)
qed

lemma snakeToCamel_inj: "inj_on snakeToCamel {s. snake_name s}"
  using snake_name_round_trip [of _ undefined] by (metis inj_onI mem_Collect_eq)

section \<open>Properties\<close>


text \<open>A codec that knows two documents.\<close>

definition sample_doc :: "json \<Rightarrow> json" where
  "sample_doc secret = JArray [JObject [(''name'', JString ''a''), (''card'', secret)]]"

definition sample_json :: json_lib where
  "sample_json = \<lparr>js_Unmarshal = (\<lambda>b. if b = ''in'' then Inr (sample_doc (JNumber 7))
       else if b = ''out'' then Inr (sample_doc (JString maskValue)) else Inl (ErrMsg ''invalid'')),
     js_Marshal = (\<lambda>j. if j = sample_doc (JString maskValue) then Inr ''out'' else Inl (ErrMsg ''unsupported'')),
     js_ToLower = (\<lambda>s. s)\<rparr>"


text \<open>
  Renaming to camel case loses nothing: a document whose fields are in snake case, with words of at
  least two lower-case letters, is restored by snakeify after camelify.
\<close>

theorem case_round_trip:
  assumes "snake_doc j"
  shows "transformKeys (camelToSnake js) (transformKeys snakeToCamel j) = j"
  using assms
proof (induction j rule: snake_doc.induct)
  case (1 kvs)
  then have names: "\<And>kv. kv \<in> set kvs \<Longrightarrow> snake_name (fst kv)" and d: "distinct (map fst kvs)"
    and sub: "\<And>kv. kv \<in> set kvs \<Longrightarrow> transformKeys (camelToSnake js) (transformKeys snakeToCamel (snd kv)) = snd kv"
    by (auto simp: list_all_iff)
  have inj: "inj_on snakeToCamel (set (map fst kvs))"
    using snakeToCamel_inj names by (auto intro: inj_on_subset)
  have "distinct (map snakeToCamel (map fst kvs))" using d inj by (simp only: distinct_map)
  then have camel: "transformKeys snakeToCamel (JObject kvs) =
      JObject (map (\<lambda>kv. (snakeToCamel (fst kv), transformKeys snakeToCamel (snd kv))) kvs)"
    by (intro transformKeys_distinct) (simp add: comp_def)
  have restored: "map (\<lambda>kv. camelToSnake js (snakeToCamel (fst kv))) kvs = map fst kvs"
    using names snake_name_round_trip by (intro map_cong) auto
  have "transformKeys (camelToSnake js)
      (JObject (map (\<lambda>kv. (snakeToCamel (fst kv), transformKeys snakeToCamel (snd kv))) kvs)) =
    JObject (map (\<lambda>kv. (camelToSnake js (snakeToCamel (fst kv)),
       transformKeys (camelToSnake js) (transformKeys snakeToCamel (snd kv)))) kvs)"
  proof (subst transformKeys_distinct)
    show "distinct (map (\<lambda>kv. camelToSnake js (fst kv))
        (map (\<lambda>kv. (snakeToCamel (fst kv), transformKeys snakeToCamel (snd kv))) kvs))"
      unfolding map_map comp_def fst_conv restored by (rule d)
  qed simp
  also have "\<dots> = JObject kvs"
    using names snake_name_round_trip sub by (auto intro!: map_idI simp: prod_eq_iff)
  finally show ?case by (simp only: camel)
next
  case (2 vs)
  then show ?case by (auto simp: list_all_iff intro!: map_idI)
qed simp_all

theorem case_round_trip_witness:
  "transformKeys (camelToSnake sample_json) (transformKeys snakeToCamel
     (JObject [(''first_name'', JString ''x''), (''user_account_ids'', JArray [JObject [(''id'', JNumber 1)]])])) =
   JObject [(''first_name'', JString ''x''), (''user_account_ids'', JArray [JObject [(''id'', JNumber 1)]])]"
proof (rule case_round_trip)
  have "snake_name ''first_name''" "snake_name ''user_account_ids''" "snake_name ''id''" by code_simp+
  then show "snake_doc (JObject [(''first_name'', JString ''x''), (''user_account_ids'', JArray [JObject [(''id'', JNumber 1)]])])"
    by simp
qed

text \<open>
  Words of one letter are not restored, and a word that starts with a character beyond ASCII is
  broken: its first byte becomes the replacement character.
\<close>

lemma one_letter_words_lost: "camelToSnake js (snakeToCamel ''a_b_c'') = ''a_bc''"
  by code_simp

lemma camelify_breaks_characters:
  "snakeToCamel [CHR ''a'', CHR ''_'', CHR 0xC3, CHR 0xA9] = [CHR ''a'', CHR 0xEF, CHR 0xBF, CHR 0xBD, CHR 0xA9]"
  by (simp add: snakeToCamel_def capitalize_def upper_byte_def)

end
