(* ===== verification/Builtin_Middlewares.thy ===== *)
theory Builtin_Middlewares
  imports Loader
begin

text \<open>
  The middlewares that come with the gateway, except for authentication
  (\<^verbatim>\<open>builtin/middlewares\<close>): cross-origin rules, compression, recovery from panics and logging.  Each
  is an object whose \<^verbatim>\<open>Init\<close> reads its settings and whose handler wraps the next one.  What is
  logged is not modelled.
\<close>

section \<open>Settings\<close>

definition cfg_bool :: "cfg_map \<Rightarrow> string \<Rightarrow> bool option" where
  "cfg_bool cfg k = (case map_of cfg k of Some (CfgBool b) \<Rightarrow> Some b | _ \<Rightarrow> None)"

definition cfg_strings :: "cfg_map \<Rightarrow> string \<Rightarrow> string list" where
  "cfg_strings cfg k =
     (case map_of cfg k of
        Some (CfgList vs) \<Rightarrow> List.map_filter (\<lambda>v. case v of CfgString s \<Rightarrow> Some s | _ \<Rightarrow> None) vs
      | _ \<Rightarrow> [])"

section \<open>cors\<close>

record cors =
  co_allowedOrigins :: "string list"
  co_allowedMethods :: "string list"
  co_allowedHeaders :: "string list"
  co_allowCredentials :: bool
  co_maxAge :: int
  co_allowAll :: bool

fun resolveAllowedOrigins :: "string list \<Rightarrow> cors \<Rightarrow> cors" where
  "resolveAllowedOrigins [] m = m"
| "resolveAllowedOrigins (s # ss) m =
     resolveAllowedOrigins ss
       (m\<lparr>co_allowAll := (if s = ''*'' then True else co_allowAll m),
          co_allowedOrigins := List.insert s (co_allowedOrigins m)\<rparr>)"

definition cors_Init :: "cfg_map \<Rightarrow> go_error + cors" where
  "cors_Init cfg =
     (let m0 = \<lparr>co_allowedOrigins = [], co_allowedMethods = [], co_allowedHeaders = [],
                co_allowCredentials = False, co_maxAge = 0, co_allowAll = False\<rparr>;
          m1 = resolveAllowedOrigins (cfg_strings cfg ''allowed_origins'') m0;
          m2 = m1\<lparr>co_allowedMethods := map (map to_upper) (cfg_strings cfg ''allowed_methods''),
                  co_allowedHeaders := cfg_strings cfg ''allowed_headers'',
                  co_allowCredentials := (case cfg_bool cfg ''allow_credentials'' of Some b \<Rightarrow> b | None \<Rightarrow> False),
                  co_maxAge := (case map_of cfg ''max_age'' of Some (CfgInt n) \<Rightarrow> n | _ \<Rightarrow> 0)\<rparr>
      in
      if co_allowAll m2 \<and> co_allowCredentials m2
      then Inl (ErrMsg ''cors: allow_credentials cannot be used with wildcard origin'')
      else Inr m2)"

definition isOriginAllowed :: "cors \<Rightarrow> string \<Rightarrow> bool" where
  "isOriginAllowed m origin \<longleftrightarrow> co_allowAll m \<or> origin \<in> set (co_allowedOrigins m)"

definition cors_setHeaders :: "cors \<Rightarrow> string \<Rightarrow> Header \<Rightarrow> Header" where
  "cors_setHeaders m origin h0 =
     (let h1 = (if co_allowAll m then hdr_Set ''Access-Control-Allow-Origin'' ''*'' h0
                else hdr_Set ''Vary'' ''Origin'' (hdr_Set ''Access-Control-Allow-Origin'' origin h0));
          h2 = (if co_allowedMethods m \<noteq> []
                then hdr_Set ''Access-Control-Allow-Methods'' (Join (co_allowedMethods m) '', '') h1 else h1);
          h3 = (if co_allowedHeaders m \<noteq> []
                then hdr_Set ''Access-Control-Allow-Headers'' (Join (co_allowedHeaders m) '', '') h2 else h2);
          h4 = (if co_allowCredentials m then hdr_Set ''Access-Control-Allow-Credentials'' ''true'' h3 else h3)
      in if co_maxAge m > 0 then hdr_Set ''Access-Control-Max-Age'' (Itoa (co_maxAge m)) h4 else h4)"

definition isPreflight :: "Request \<Rightarrow> bool" where
  "isPreflight r \<longleftrightarrow> req_Method r = ''OPTIONS'' \<and> hdr_Get (req_Header r) ''Origin'' \<noteq> [] \<and>
     hdr_Get (req_Header r) ''Access-Control-Request-Method'' \<noteq> []"

definition cors_Handler :: "cors \<Rightarrow> handler \<Rightarrow> handler" where
  "cors_Handler m next w st req f =
     (let r = deref st req; origin = hdr_Get (req_Header r) ''Origin'' in
      if origin = [] then next w st req f
      else if \<not> isOriginAllowed m origin then map_option (\<lambda>w'. (w', f, [])) (rw_WriteHeader 403 w)
      else
        let w1 = rw_edit (cors_setHeaders m origin) w in
        if isPreflight r then map_option (\<lambda>w'. (w', f, [])) (rw_WriteHeader 204 w1)
        else next w1 st req f)"

definition cors_object :: middleware_object where
  "cors_object = \<lparr>mo_Name = ''cors'',
     mo_Init = (\<lambda>cfg. map_sum id (\<lambda>m. \<lparr>mw_Name = ''cors'', mw_Handler = cors_Handler m, mw_Close = None\<rparr>) (cors_Init cfg))\<rparr>"

section \<open>compressor\<close>

record compressor =
  cm_enabled :: bool
  cm_alg :: string

text \<open>\<open>lg\<close> is the error of making a logger; an algorithm that is not known leaves the setting empty.\<close>

definition compressor_Init :: "go_error option \<Rightarrow> cfg_map \<Rightarrow> go_error + compressor" where
  "compressor_Init lg cfg =
     (let enabled = (case cfg_bool cfg ''enabled'' of Some b \<Rightarrow> b | None \<Rightarrow> False);
          alg = (case map_of cfg ''alg'' of
             Some (CfgString a) \<Rightarrow>
               let l = map to_lower a in if l = ''gzip'' \<or> l = ''deflate'' then l else []
           | _ \<Rightarrow> ''gzip'')
      in case lg of Some err \<Rightarrow> Inl err | None \<Rightarrow> Inr \<lparr>cm_enabled = enabled, cm_alg = alg\<rparr>)"

text \<open>
  The inner handler writes through the compressor, which is closed after it; \<open>deflater alg\<close> is
  what the compression library makes of a body.  Without an algorithm the writer is nil.
\<close>

definition compressor_Handler :: "(string \<Rightarrow> bytes \<Rightarrow> bytes) \<Rightarrow> compressor \<Rightarrow> handler \<Rightarrow> handler" where
  "compressor_Handler deflater m next w st req f =
     (if \<not> cm_enabled m then next w st req f
      else if \<not> sublist (cm_alg m) (hdr_Get (req_Header (deref st req)) ''Accept-Encoding'') then next w st req f
      else
        let w1 = rw_edit (hdr_Del ''Content-Length'' \<circ> hdr_Set ''Vary'' ''Accept-Encoding'' \<circ>
                          hdr_Set ''Content-Encoding'' (cm_alg m)) w
        in
        if cm_alg m = [] then None
        else
          map_option
            (\<lambda>(w2, f', sent).
               let written = drop (length (rw_body w)) (rw_body w2) in
               (snd (rw_Write (deflater (cm_alg m) written) (w2\<lparr>rw_body := rw_body w\<rparr>)), f', sent))
            (next w1 st req f))"

definition compressor_object :: "go_error option \<Rightarrow> (string \<Rightarrow> bytes \<Rightarrow> bytes) \<Rightarrow> middleware_object" where
  "compressor_object lg deflater = \<lparr>mo_Name = ''compressor'',
     mo_Init = (\<lambda>cfg. map_sum id (\<lambda>m. \<lparr>mw_Name = ''compressor'', mw_Handler = compressor_Handler deflater m, mw_Close = None\<rparr>)
       (compressor_Init lg cfg))\<rparr>"

section \<open>recoverer\<close>

definition recoverer_Init :: "go_error option \<Rightarrow> cfg_map \<Rightarrow> go_error + bool" where
  "recoverer_Init lg cfg =
     (case lg of
        Some err \<Rightarrow> Inl err
      | None \<Rightarrow> Inr (case cfg_bool cfg ''enabled'' of Some b \<Rightarrow> b | None \<Rightarrow> False))"

text \<open>\<open>at_panic\<close> is the writer and the flow as a panicking handler left them.\<close>

definition recoverer_Handler ::
  "problem_encoder \<Rightarrow> (ResponseWriter \<Rightarrow> flow \<Rightarrow> ResponseWriter \<times> flow) \<Rightarrow> bool \<Rightarrow> handler \<Rightarrow> handler" where
  "recoverer_Handler enc at_panic enabled next w st req f =
     (if \<not> enabled then next w st req f
      else case next w st req f of
        Some result \<Rightarrow> Some result
      | None \<Rightarrow>
          (case at_panic w f of (w1, f1) \<Rightarrow>
             map_option (\<lambda>w2. (w2, f1, [])) (WriteError enc w1 ClientErrInternal StatusInternalServerError)))"

definition recoverer_object ::
  "go_error option \<Rightarrow> problem_encoder \<Rightarrow> (ResponseWriter \<Rightarrow> flow \<Rightarrow> ResponseWriter \<times> flow) \<Rightarrow> middleware_object" where
  "recoverer_object lg enc at_panic = \<lparr>mo_Name = ''recoverer'',
     mo_Init = (\<lambda>cfg. map_sum id (\<lambda>m. \<lparr>mw_Name = ''recoverer'', mw_Handler = recoverer_Handler enc at_panic m, mw_Close = None\<rparr>)
       (recoverer_Init lg cfg))\<rparr>"

section \<open>logger\<close>

record logger_mw =
  lo_enabled :: bool
  lo_logBody :: bool

definition logger_Init :: "go_error option \<Rightarrow> cfg_map \<Rightarrow> go_error + logger_mw" where
  "logger_Init lg cfg =
     (case lg of
        Some err \<Rightarrow> Inl err
      | None \<Rightarrow> Inr \<lparr>lo_enabled = (case cfg_bool cfg ''enabled'' of Some b \<Rightarrow> b | None \<Rightarrow> True),
                     lo_logBody = (case cfg_bool cfg ''log_body'' of Some b \<Rightarrow> b | None \<Rightarrow> False)\<rparr>)"

text \<open>With \<^verbatim>\<open>log_body\<close> the body is read into memory, its read error is dropped, and the copy takes its place.\<close>

definition logger_Handler :: "logger_mw \<Rightarrow> handler \<Rightarrow> handler" where
  "logger_Handler m next w st req f =
     (if \<not> lo_enabled m then next w st req f
      else if lo_logBody m then
        next w (st\<lparr>st_body := (st_body st)(ro_Body req := body_of (fst (ReadAll (st_body st (ro_Body req)))))\<rparr>) req f
      else next w st req f)"

definition logger_object :: "go_error option \<Rightarrow> middleware_object" where
  "logger_object lg = \<lparr>mo_Name = ''logger'',
     mo_Init = (\<lambda>cfg. map_sum id (\<lambda>m. \<lparr>mw_Name = ''logger'', mw_Handler = logger_Handler m, mw_Close = None\<rparr>)
       (logger_Init lg cfg))\<rparr>"

section \<open>Lemmas\<close>

lemma cors_keys [simp]:
  "canon ''Access-Control-Allow-Origin'' = ''Access-Control-Allow-Origin''"
  "canon ''Access-Control-Allow-Methods'' = ''Access-Control-Allow-Methods''"
  "canon ''Access-Control-Allow-Headers'' = ''Access-Control-Allow-Headers''"
  "canon ''Access-Control-Allow-Credentials'' = ''Access-Control-Allow-Credentials''"
  "canon ''Access-Control-Max-Age'' = ''Access-Control-Max-Age''"
  "canon ''Vary'' = ''Vary''"
  by code_simp+

lemma cors_setHeaders_values:
  "hdr_values (cors_setHeaders m origin h) ''Access-Control-Allow-Origin'' = (if co_allowAll m then [''*''] else [origin])"
  "hdr_values (cors_setHeaders m origin h) ''Access-Control-Allow-Credentials'' =
     (if co_allowCredentials m then [''true''] else hdr_values h ''Access-Control-Allow-Credentials'')"
  by (simp_all add: cors_setHeaders_def Let_def header_simps)

lemma cors_Init_exclusive: "cors_Init cfg = Inr m \<Longrightarrow> \<not> (co_allowAll m \<and> co_allowCredentials m)"
  by (auto simp: cors_Init_def Let_def split: if_splits)

lemma answering_edit:
  assumes "answering_handler h" "rw_sent w = None" "live_flow f"
  shows "\<exists>w' f' sent. h (rw_edit g w) st req f = Some (w', f', sent) \<and> rw_sent w' \<noteq> None \<and> flow_kept f f'"
  using assms by (simp add: answering_handler_def rw_edit_def)

lemma answeringI:
  assumes "\<And>(w :: ResponseWriter) st req f. rw_sent w = None \<Longrightarrow> live_flow f \<Longrightarrow>
    \<exists>w' f' sent. h w st req f = Some (w', f', sent) \<and> rw_sent w' \<noteq> None \<and> flow_kept f f'"
  shows "answering_handler h"
  using assms by (simp add: answering_handler_def)

lemma answeringE:
  assumes "answering_handler h" "rw_sent w = None" "live_flow f"
  obtains w' f' sent where "h w st req f = Some (w', f', sent)" "rw_sent w' \<noteq> None" "flow_kept f f'"
  using assms unfolding answering_handler_def by blast

lemma cors_transparent:
  assumes "answering_handler h" shows "answering_handler (cors_Handler m h)"
proof (rule answeringI)
  fix w :: ResponseWriter and st req and f :: flow
  assume w: "rw_sent w = None" and f: "live_flow f"
  obtain w1 f1 s1 where "h w st req f = Some (w1, f1, s1)" "rw_sent w1 \<noteq> None" "flow_kept f f1"
    using assms w f by (rule answeringE)
  moreover obtain w2 f2 s2 where "h (rw_edit (cors_setHeaders m (hdr_Get (req_Header (deref st req)) ''Origin'')) w) st req f =
      Some (w2, f2, s2)" "rw_sent w2 \<noteq> None" "flow_kept f f2"
    using answering_edit [OF assms w f] by blast
  ultimately show "\<exists>w' f' sent. cors_Handler m h w st req f = Some (w', f', sent) \<and> rw_sent w' \<noteq> None \<and> flow_kept f f'"
    using w f by (simp add: cors_Handler_def Let_def rw_WriteHeader_def rw_edit_def)
qed

lemma compressor_transparent:
  assumes "answering_handler h" "cm_alg m \<noteq> []" shows "answering_handler (compressor_Handler d m h)"
proof (rule answeringI)
  fix w :: ResponseWriter and st req and f :: flow
  assume w: "rw_sent w = None" and f: "live_flow f"
  obtain w1 f1 s1 where "h w st req f = Some (w1, f1, s1)" "rw_sent w1 \<noteq> None" "flow_kept f f1"
    using assms(1) w f by (rule answeringE)
  moreover obtain w2 f2 s2 where "h (rw_edit (hdr_Del ''Content-Length'' \<circ> hdr_Set ''Vary'' ''Accept-Encoding'' \<circ>
      hdr_Set ''Content-Encoding'' (cm_alg m)) w) st req f = Some (w2, f2, s2)" "rw_sent w2 \<noteq> None" "flow_kept f f2"
    using answering_edit [OF assms(1) w f] by blast
  ultimately show "\<exists>w' f' sent. compressor_Handler d m h w st req f = Some (w', f', sent) \<and> rw_sent w' \<noteq> None \<and> flow_kept f f'"
    using assms(2) by (auto simp: compressor_Handler_def Let_def rw_Write_keeps_sent)
qed

lemma recoverer_transparent:
  assumes "answering_handler h" shows "answering_handler (recoverer_Handler enc at_panic en h)"
proof (rule answeringI)
  fix w :: ResponseWriter and st req and f :: flow
  assume "rw_sent w = None" "live_flow f"
  with assms obtain w1 f1 s1 where "h w st req f = Some (w1, f1, s1)" "rw_sent w1 \<noteq> None" "flow_kept f f1"
    by (rule answeringE)
  then show "\<exists>w' f' sent. recoverer_Handler enc at_panic en h w st req f = Some (w', f', sent) \<and>
      rw_sent w' \<noteq> None \<and> flow_kept f f'" by (simp add: recoverer_Handler_def)
qed

lemma logger_transparent: "answering_handler h \<Longrightarrow> answering_handler (logger_Handler m h)"
  by (auto simp: answering_handler_def logger_Handler_def)

lemma init_transparent:
  "mo_Init cors_object cfg = Inr m \<Longrightarrow> transparent m"
  "mo_Init (recoverer_object lg enc at_panic) cfg = Inr m \<Longrightarrow> transparent m"
  "mo_Init (logger_object lg) cfg = Inr m \<Longrightarrow> transparent m"
proof -
  show "mo_Init cors_object cfg = Inr m \<Longrightarrow> transparent m"
    by (cases "cors_Init cfg") (auto simp: cors_object_def transparent_def cors_transparent)
  show "mo_Init (recoverer_object lg enc at_panic) cfg = Inr m \<Longrightarrow> transparent m"
    by (cases "recoverer_Init lg cfg") (auto simp: recoverer_object_def transparent_def recoverer_transparent)
  show "mo_Init (logger_object lg) cfg = Inr m \<Longrightarrow> transparent m"
    by (cases "logger_Init lg cfg") (auto simp: logger_object_def transparent_def logger_transparent)
qed

section \<open>Properties\<close>

text \<open>
  The middlewares keep the contract of the router: whatever their settings, cors, recoverer and
  logger around a handler that answers every request make a handler that does, and so does the
  compressor if its algorithm is known.
\<close>

theorem builtin_middlewares_answer:
  "(\<forall>m. mo_Init cors_object cfg = Inr m \<longrightarrow> transparent m) \<and>
   (\<forall>m. mo_Init (recoverer_object lg enc at_panic) cfg = Inr m \<longrightarrow> transparent m) \<and>
   (\<forall>m. mo_Init (logger_object lg) cfg = Inr m \<longrightarrow> transparent m) \<and>
   (\<forall>c m. compressor_Init lg cfg = Inr c \<and> cm_alg c \<noteq> [] \<and> mo_Init (compressor_object lg deflater) cfg = Inr m \<longrightarrow>
      transparent m)"
  using init_transparent
  by (auto simp: compressor_object_def transparent_def compressor_transparent)

theorem builtin_middlewares_answer_witness:
  "\<exists>m. mo_Init cors_object [(''allowed_origins'', CfgList [CfgString ''https://a''])] = Inr m \<and> transparent m"
proof -
  have "\<exists>m. mo_Init cors_object [(''allowed_origins'', CfgList [CfgString ''https://a''])] = Inr m"
    by (simp add: cors_object_def cors_Init_def cfg_strings_def cfg_bool_def map_filter_simps Let_def)
  with builtin_middlewares_answer show ?thesis by blast
qed


definition sample_cors :: cors where
  "sample_cors = \<lparr>co_allowedOrigins = [''https://a''], co_allowedMethods = [], co_allowedHeaders = [],
     co_allowCredentials = True, co_maxAge = 0, co_allowAll = False\<rparr>"


text \<open>
  The compressor changes the body under the header that the inner handler sends: a content
  length that counts the plain body stays.
\<close>

lemma compressor_keeps_content_length:
  assumes "cm_enabled m" "cm_alg m \<noteq> []"
    and "sublist (cm_alg m) (hdr_Get (req_Header (deref st req)) ''Accept-Encoding'')"
    and "next (rw_edit (hdr_Del ''Content-Length'' \<circ> hdr_Set ''Vary'' ''Accept-Encoding'' \<circ>
      hdr_Set ''Content-Encoding'' (cm_alg m)) w) st req f = Some (w2, f', sent)"
    and "rw_sent w2 = Some (code, h)" "body_allowed code"
  shows "\<exists>w'. compressor_Handler d m next w st req f = Some (w', f', sent) \<and> rw_sent w' = Some (code, h) \<and>
    rw_body w' = rw_body w @ d (cm_alg m) (drop (length (rw_body w)) (rw_body w2))"
  using assms by (simp add: compressor_Handler_def Let_def rw_Write_def)

text \<open>An unknown algorithm makes every request panic.\<close>

lemma compressor_unknown_alg_panics:
  assumes "compressor_Init None [(''enabled'', CfgBool True), (''alg'', CfgString ''br'')] = Inr m"
  shows "compressor_Handler d m next w st req f = None"
proof -
  have "m = \<lparr>cm_enabled = True, cm_alg = []\<rparr>"
    using assms by (simp add: compressor_Init_def cfg_bool_def to_lower_def is_upper_def)
  then show ?thesis by (simp add: compressor_Handler_def)
qed

text \<open>With \<^verbatim>\<open>log_body\<close> a request body that breaks off reaches the next handler as a complete, shorter one.\<close>

lemma logger_hides_broken_body:
  assumes "lo_enabled m" "lo_logBody m" "ReadAll (st_body st (ro_Body req)) = (part, Some err)"
  shows "\<exists>st'. logger_Handler m next w st req f = next w st' req f \<and> ReadAll (req_Body (deref st' req)) = (part, None)"
  using assms by (intro exI) (auto simp: logger_Handler_def deref_def)

end
