(* ===== verification/Auth_Middleware.thy ===== *)
theory Auth_Middleware
  imports Builtin_Middlewares Go_Encoding
begin

text \<open>
  The authentication middleware (\<^verbatim>\<open>builtin/middlewares/auth\<close>): bearer tokens that are checked with
  an HMAC secret, a fixed RSA key or the keys of a JWKS endpoint.  Parsing and checking a token is
  the work of the package \<^verbatim>\<open>golang-jwt\<close> and reading a key set that of \<^verbatim>\<open>jwx\<close>; both are parameters, and
  \<open>jwt_sound\<close> states what the first one documents.  PEM and PKIX decoding are parameters too.
\<close>

section \<open>Tokens and keys\<close>

text \<open>The type of a signing method and the algorithm it is for.\<close>

datatype signing_method =
    SigningMethodHMAC string
  | SigningMethodRSA string
  | OtherSigningMethod string string

fun method_alg :: "signing_method \<Rightarrow> string" where
  "method_alg (SigningMethodHMAC a) = a"
| "method_alg (SigningMethodRSA a) = a"
| "method_alg (OtherSigningMethod ty a) = a"

fun method_type :: "signing_method \<Rightarrow> string" where
  "method_type (SigningMethodHMAC a) = ''*jwt.SigningMethodHMAC''"
| "method_type (SigningMethodRSA a) = ''*jwt.SigningMethodRSA''"
| "method_type (OtherSigningMethod ty a) = ty"

type_synonym claims = "(string, json) gomap"

datatype token_claims = MapClaims claims | OtherClaims

record jwt_token =
  tk_Method :: signing_method
  tk_Header :: "(string, json) gomap"
  tk_Claims :: token_claims
  tk_Valid :: bool

record PublicKey =
  pk_N :: int
  pk_E :: int

datatype any_public_key = RSAPublicKey PublicKey | OtherPublicKey

text \<open>What a key function hands to the package: a secret or a public key.\<close>

datatype jwt_key = HmacKey bytes | RsaKey PublicKey

text \<open>
  An entry of a key set as far as the code looks at it: what exporting it as an RSA key gives, and
  its identifier.  A position without an entry is \<open>None\<close>.
\<close>

record jwk =
  jk_rsa :: "go_error + PublicKey"
  jk_kid :: "string option"

type_synonym jwk_set = "jwk option list"
type_synonym jwk_fetch = "string \<Rightarrow> duration \<Rightarrow> go_error + jwk_set"

section \<open>Key resolvers\<close>

record jwksResolver =
  jr_url :: string
  jr_keys :: "(string, PublicKey) gomap"
  jr_refreshTimeout :: duration
  jr_refreshInterval :: duration
  jr_stopped :: bool

datatype keyResolver =
    HmacResolver bytes
  | RsaResolver "PublicKey option"
  | JwksResolver jwksResolver

definition hmac_KeyFunc :: "bytes \<Rightarrow> jwt_token \<Rightarrow> go_error + jwt_key" where
  "hmac_KeyFunc secret token =
     (case tk_Method token of
        SigningMethodHMAC _ \<Rightarrow>
          if secret = [] then Inl (ErrMsg ''HMAC secret not configured'') else Inr (HmacKey secret)
      | m \<Rightarrow> Inl (ErrMsg (''invalid signing method: '' @ method_type m)))"

definition rsa_KeyFunc :: "PublicKey option \<Rightarrow> jwt_token \<Rightarrow> go_error + jwt_key" where
  "rsa_KeyFunc pub token =
     (case tk_Method token of
        SigningMethodRSA _ \<Rightarrow>
          (case pub of None \<Rightarrow> Inl (ErrMsg ''RSA public key not configured'') | Some k \<Rightarrow> Inr (RsaKey k))
      | m \<Rightarrow> Inl (ErrMsg (''invalid signing method: '' @ method_type m)))"

text \<open>The loop of \<^verbatim>\<open>refresh\<close> over the fetched set.\<close>

fun refresh_keys :: "jwk_set \<Rightarrow> (string, PublicKey) gomap \<Rightarrow> (string, PublicKey) gomap" where
  "refresh_keys [] newKeys = newKeys"
| "refresh_keys (None # ks) newKeys = refresh_keys ks newKeys"
| "refresh_keys (Some key # ks) newKeys =
     (case jk_rsa key of
        Inl err \<Rightarrow> refresh_keys ks newKeys
      | Inr rsaKey \<Rightarrow>
          (case jk_kid key of
             None \<Rightarrow> refresh_keys ks newKeys
           | Some kid \<Rightarrow>
               if kid \<noteq> [] then refresh_keys ks (AList.update kid rsaKey newKeys)
               else refresh_keys ks newKeys))"

text \<open>The section of \<^verbatim>\<open>refresh\<close> under the lock.\<close>

definition install_keys :: "jwk_set \<Rightarrow> jwksResolver \<Rightarrow> jwksResolver" where
  "install_keys ks r = r\<lparr>jr_keys := refresh_keys ks []\<rparr>"

definition jwks_refresh :: "jwk_fetch \<Rightarrow> duration \<Rightarrow> jwksResolver \<Rightarrow> go_error option \<times> jwksResolver" where
  "jwks_refresh fetch timeout r =
     (case fetch (jr_url r) timeout of
        Inl err \<Rightarrow> (Some (ErrWrap ''failed to fetch JWKS: '' err), r)
      | Inr ks \<Rightarrow> (None, install_keys ks r))"

text \<open>
  The two lookups are separate sections under the lock: \<open>others\<close> are the key sets that other
  goroutines install between the refresh and the second lookup.
\<close>

definition jwks_KeyFunc ::
  "jwk_fetch \<Rightarrow> jwk_set list \<Rightarrow> jwksResolver \<Rightarrow> jwt_token \<Rightarrow> (go_error + jwt_key) \<times> jwksResolver" where
  "jwks_KeyFunc fetch others r token =
     (if tk_Method token \<noteq> SigningMethodRSA ''RS256''
      then (Inl (ErrMsg (''invalid signing method: '' @ method_type (tk_Method token))), r)
      else if jr_url r = [] then (Inl (ErrMsg ''JWKS URL not configured''), r)
      else case map_of (tk_Header token) ''kid'' of
        Some (JString kid) \<Rightarrow>
          (case map_of (jr_keys r) kid of
             Some key \<Rightarrow> (Inr (RsaKey key), r)
           | None \<Rightarrow>
               (case jwks_refresh fetch (jr_refreshTimeout r) r of
                  (Some err, r1) \<Rightarrow> (Inl err, r1)
                | (None, r1) \<Rightarrow>
                    let r2 = fold install_keys others r1 in
                    (case map_of (jr_keys r2) kid of
                       None \<Rightarrow> (Inl (ErrMsg ''key not found in JWKS''), r2)
                     | Some key \<Rightarrow> (Inr (RsaKey key), r2))))
      | _ \<Rightarrow> (Inl (ErrMsg ''missing kid in token header''), r))"

text \<open>
  The background goroutine: every tick refreshes, a failure is only logged, and it ends when it
  sees the closed channel.  \<^verbatim>\<open>time.NewTicker\<close> panics on an interval that is not positive.
\<close>

datatype jwks_tick = Tick "go_error + jwk_set" | StopSeen

fun jwks_loop :: "jwks_tick list \<Rightarrow> jwksResolver \<Rightarrow> go_error list \<times> jwksResolver" where
  "jwks_loop [] r = ([], r)"
| "jwks_loop (StopSeen # es) r = ([], r)"
| "jwks_loop (Tick outcome # es) r =
     (case jwks_refresh (\<lambda>url timeout. outcome) (jr_refreshTimeout r) r of
        (err, r') \<Rightarrow> (case jwks_loop es r' of (errs, r'') \<Rightarrow> (case err of None \<Rightarrow> errs | Some e \<Rightarrow> e # errs, r'')))"

definition jwks_start :: "jwks_tick list \<Rightarrow> jwksResolver \<Rightarrow> (go_error list \<times> jwksResolver) go" where
  "jwks_start es r = (if jr_refreshInterval r \<le> 0 then None else Some (jwks_loop es r))"

definition jwks_stop :: "jwksResolver \<Rightarrow> jwksResolver" where
  "jwks_stop r = (if jr_stopped r then r else r\<lparr>jr_stopped := True\<rparr>)"

definition resolver_KeyFunc ::
  "jwk_fetch \<Rightarrow> jwk_set list \<Rightarrow> jwt_token \<Rightarrow> keyResolver \<Rightarrow> (go_error + jwt_key) \<times> keyResolver" where
  "resolver_KeyFunc fetch others token res =
     (case res of
        HmacResolver secret \<Rightarrow> (hmac_KeyFunc secret token, res)
      | RsaResolver pub \<Rightarrow> (rsa_KeyFunc pub token, res)
      | JwksResolver r \<Rightarrow> map_prod id JwksResolver (jwks_KeyFunc fetch others r token))"

section \<open>Settings\<close>

record jwtConfig =
  jc_alg :: string
  jc_hmacSecret :: bytes
  jc_rsaPublicKey :: "PublicKey option"
  jc_jwksURL :: string
  jc_jwksRefreshTimeout :: duration
  jc_jwksRefreshInterval :: duration

record auth =
  au_issuer :: string
  au_audience :: string
  au_realm :: string
  au_resolver :: keyResolver
  au_jwtConfig :: jwtConfig

definition defaultLeeway :: duration where "defaultLeeway = 5000000000"
definition defaultRealm :: string where "defaultRealm = ''restricted''"
definition bearerAuthScheme :: string where "bearerAuthScheme = ''Bearer''"
definition defaultJWKSRefreshTimeout :: duration where "defaultJWKSRefreshTimeout = 5000000000"
definition defaultJWKSRefreshInterval :: duration where "defaultJWKSRefreshInterval = 300000000000"

text \<open>\<open>ae_fetch\<close> is the network during \<^verbatim>\<open>Init\<close>, \<open>ae_logger\<close> the error of making a logger.\<close>

record auth_env =
  ae_pem :: "bytes \<Rightarrow> bytes option"
  ae_pkix :: "bytes \<Rightarrow> go_error + any_public_key"
  ae_fetch :: jwk_fetch
  ae_logger :: "go_error option"

definition cfg_string :: "cfg_map \<Rightarrow> string \<Rightarrow> string option" where
  "cfg_string cfg k = (case map_of cfg k of Some (CfgString s) \<Rightarrow> Some s | _ \<Rightarrow> None)"

definition parseHMACSecret :: "cfg_map \<Rightarrow> string \<Rightarrow> go_error + bytes" where
  "parseHMACSecret cfg key =
     (case map_of cfg key of
        None \<Rightarrow> Inr []
      | Some (CfgString str) \<Rightarrow>
          (case b64_DecodeString str of
             Inl err \<Rightarrow> Inl (ErrWrap (''failed to decode '' @ key @ '': '') err)
           | Inr secret \<Rightarrow> Inr secret)
      | Some _ \<Rightarrow> Inl (ErrMsg (key @ '' must be a string'')))"

definition parseRSAPublicKey :: "auth_env \<Rightarrow> cfg_map \<Rightarrow> string \<Rightarrow> go_error + PublicKey option" where
  "parseRSAPublicKey env cfg key =
     (case map_of cfg key of
        None \<Rightarrow> Inr None
      | Some (CfgString pemStr) \<Rightarrow>
          (case ae_pem env pemStr of
             None \<Rightarrow> Inl (ErrMsg (''failed to decode PEM block for '' @ key))
           | Some block \<Rightarrow>
               (case ae_pkix env block of
                  Inl err \<Rightarrow> Inl (ErrWrap (''failed to parse public key '' @ key @ '': '') err)
                | Inr (RSAPublicKey rsaPub) \<Rightarrow> Inr (Some rsaPub)
                | Inr OtherPublicKey \<Rightarrow> Inl (ErrMsg (key @ '' is not RSA public key''))))
      | Some _ \<Rightarrow> Inl (ErrMsg (key @ '' must be a string'')))"

definition parseDuration :: "cfg_map \<Rightarrow> string \<Rightarrow> duration \<Rightarrow> duration" where
  "parseDuration cfg key fallback =
     (case cfg_string cfg key of
        None \<Rightarrow> fallback
      | Some raw \<Rightarrow> (case ParseDuration raw of None \<Rightarrow> fallback | Some d \<Rightarrow> d))"

definition newJWKSResolver :: "jwk_fetch \<Rightarrow> jwtConfig \<Rightarrow> go_error + keyResolver" where
  "newJWKSResolver fetch cfg =
     (let r = \<lparr>jr_url = jc_jwksURL cfg, jr_keys = [], jr_refreshTimeout = jc_jwksRefreshTimeout cfg,
               jr_refreshInterval = jc_jwksRefreshInterval cfg, jr_stopped = False\<rparr>
      in case jwks_refresh fetch (jc_jwksRefreshTimeout cfg) r of
        (Some err, _) \<Rightarrow> Inl (ErrWrap ''initial JWKS fetch failed: '' err)
      | (None, r') \<Rightarrow> Inr (JwksResolver r'))"

definition newKeyResolver :: "jwk_fetch \<Rightarrow> jwtConfig \<Rightarrow> go_error + keyResolver" where
  "newKeyResolver fetch cfg =
     (if jc_alg cfg = ''HS256'' then
        if jc_hmacSecret cfg = [] then Inl (ErrMsg ''HMAC secret not configured'')
        else Inr (HmacResolver (jc_hmacSecret cfg))
      else if jc_alg cfg = ''RS256'' then
        if jc_jwksURL cfg \<noteq> [] then newJWKSResolver fetch cfg
        else if jc_rsaPublicKey cfg \<noteq> None then Inr (RsaResolver (jc_rsaPublicKey cfg))
        else Inl (ErrMsg ''RSA public key not configured'')
      else Inl (ErrMsg (''unsupported signing method: '' @ jc_alg cfg)))"

text \<open>The realm of \<^verbatim>\<open>Init\<close>: a value that is blank leaves the default.\<close>

definition configured_realm :: "cfg_map \<Rightarrow> go_error + string" where
  "configured_realm cfg =
     (case map_of cfg ''realm'' of
        None \<Rightarrow> Inr defaultRealm
      | Some (CfgString realm) \<Rightarrow> Inr (if TrimSpace realm \<noteq> [] then TrimSpace realm else defaultRealm)
      | Some _ \<Rightarrow> Inl (ErrMsg ''realm must be a string''))"

definition auth_Init :: "auth_env \<Rightarrow> cfg_map \<Rightarrow> go_error + auth" where
  "auth_Init env cfg =
     (case cfg_string cfg ''issuer'' of
        None \<Rightarrow> Inl (ErrMsg ''missing issuer'')
      | Some issuer \<Rightarrow>
     (case cfg_string cfg ''audience'' of
        None \<Rightarrow> Inl (ErrMsg ''missing audience'')
      | Some audience \<Rightarrow>
     (case cfg_string cfg ''alg'' of
        None \<Rightarrow> Inl (ErrMsg ''missing or invalid alg'')
      | Some alg \<Rightarrow>
      if alg = [] then Inl (ErrMsg ''missing or invalid alg'')
      else
     (case configured_realm cfg of
        Inl err \<Rightarrow> Inl err
      | Inr realm \<Rightarrow>
     (case parseHMACSecret cfg ''hmac_secret'' of
        Inl err \<Rightarrow> Inl err
      | Inr hmacSecret \<Rightarrow>
     (case parseRSAPublicKey env cfg ''rsa_public_key'' of
        Inl err \<Rightarrow> Inl err
      | Inr rsaPub \<Rightarrow>
          let jc = \<lparr>jc_alg = alg, jc_hmacSecret = hmacSecret, jc_rsaPublicKey = rsaPub,
                    jc_jwksURL = (case cfg_string cfg ''jwks_url'' of Some url \<Rightarrow> url | None \<Rightarrow> []),
                    jc_jwksRefreshTimeout = parseDuration cfg ''jwks_refresh_timeout'' defaultJWKSRefreshTimeout,
                    jc_jwksRefreshInterval = parseDuration cfg ''jwks_refresh_interval'' defaultJWKSRefreshInterval\<rparr>
          in
     (case newKeyResolver (ae_fetch env) jc of
        Inl err \<Rightarrow> Inl err
      | Inr resolver \<Rightarrow>
     (case ae_logger env of
        Some err \<Rightarrow> Inl err
      | None \<Rightarrow> Inr \<lparr>au_issuer = issuer, au_audience = audience, au_realm = realm,
                     au_resolver = resolver, au_jwtConfig = jc\<rparr>))))))))"

section \<open>The handler\<close>

text \<open>\<open>jl_Parse\<close> is \<^verbatim>\<open>jwt.ParseWithClaims\<close>; it calls the key function, which may change the resolver.\<close>

record jwt_lib =
  jl_Parse :: "string \<Rightarrow> (jwt_token \<Rightarrow> keyResolver \<Rightarrow> (go_error + jwt_key) \<times> keyResolver) \<Rightarrow> string list \<Rightarrow> duration \<Rightarrow>
    keyResolver \<Rightarrow> (go_error + jwt_token) \<times> keyResolver"
  jl_GetIssuer :: "claims \<Rightarrow> go_error + string"
  jl_GetAudience :: "claims \<Rightarrow> go_error + string list"

record authChallenge =
  ch_errorCode :: string
  ch_errorDescription :: string

definition authErrorInvalidRequest :: string where "authErrorInvalidRequest = ''invalid_request''"
definition authErrorInvalidToken :: string where "authErrorInvalidToken = ''invalid_token''"

definition validateClaims :: "jwt_lib \<Rightarrow> auth \<Rightarrow> claims \<Rightarrow> go_error option" where
  "validateClaims lib m cl =
     (if jl_GetIssuer lib cl \<noteq> Inr (au_issuer m) then Some (ErrMsg ''invalid issuer'')
      else case jl_GetAudience lib cl of
        Inl err \<Rightarrow> Some (ErrMsg ''invalid audience'')
      | Inr audience \<Rightarrow> if au_audience m \<notin> set audience then Some (ErrMsg ''invalid audience'') else None)"

definition buildWWWAuthenticateHeader :: "(nat \<Rightarrow> bool) \<Rightarrow> string \<Rightarrow> string \<Rightarrow> string \<Rightarrow> string" where
  "buildWWWAuthenticateHeader pt realm errorCode errorDescription =
     (let realm = TrimSpace realm;
          realm = (if realm = [] then defaultRealm else realm);
          header = bearerAuthScheme @ '' realm='' @ Quote pt realm
      in
      if errorCode = [] then header
      else
        let header = header @ '', error='' @ Quote pt errorCode in
        if errorDescription \<noteq> [] then header @ '', error_description='' @ Quote pt errorDescription else header)"

definition unauthorized ::
  "problem_encoder \<Rightarrow> (nat \<Rightarrow> bool) \<Rightarrow> auth \<Rightarrow> ResponseWriter \<Rightarrow> authChallenge \<Rightarrow> ResponseWriter go" where
  "unauthorized enc pt m w c =
     WriteError enc
       (rw_edit (hdr_Set ''WWW-Authenticate''
          (buildWWWAuthenticateHeader pt (au_realm m) (ch_errorCode c) (ch_errorDescription c))) w)
       ClientErrUnauthorized StatusUnauthorized"

text \<open>\<^verbatim>\<open>strings.SplitN\<close> with two parts, at the first occurrence of a byte.\<close>

definition SplitN2 :: "string \<Rightarrow> char \<Rightarrow> string list" where
  "SplitN2 s c =
     (let p = takeWhile (\<lambda>x. x \<noteq> c) s in if p = s then [s] else [p, drop (length p + 1) s])"

text \<open>
  The decision of \<^verbatim>\<open>Handler\<close> on a request: a challenge, or the claims of the token.  Comparing with
  \<^verbatim>\<open>"Bearer"\<close> under \<^verbatim>\<open>strings.EqualFold\<close> is comparing the lower case, since no letter of that word
  is the fold of a character beyond ASCII.
\<close>

definition auth_decide ::
  "jwt_lib \<Rightarrow> jwk_fetch \<Rightarrow> jwk_set list \<Rightarrow> auth \<Rightarrow> Request \<Rightarrow> (authChallenge + claims) \<times> keyResolver" where
  "auth_decide lib fetch others m r =
     (let authHeader = hdr_Get (req_Header r) ''Authorization'' in
      if authHeader = [] then (Inl \<lparr>ch_errorCode = [], ch_errorDescription = []\<rparr>, au_resolver m)
      else
        let parts = SplitN2 authHeader CHR '' '' in
        if length parts \<noteq> 2 \<or> map to_lower (parts ! 0) \<noteq> ''bearer''
        then (Inl \<lparr>ch_errorCode = authErrorInvalidRequest, ch_errorDescription = ''invalid authorization header''\<rparr>,
              au_resolver m)
        else
          (case jl_Parse lib (parts ! 1) (resolver_KeyFunc fetch others) [jc_alg (au_jwtConfig m)] defaultLeeway
                  (au_resolver m) of
             (Inl err, res) \<Rightarrow>
               (Inl \<lparr>ch_errorCode = authErrorInvalidToken, ch_errorDescription = ''invalid or expired token''\<rparr>, res)
           | (Inr token, res) \<Rightarrow>
               if \<not> tk_Valid token
               then (Inl \<lparr>ch_errorCode = authErrorInvalidToken, ch_errorDescription = ''invalid or expired token''\<rparr>, res)
               else
                 (case tk_Claims token of
                    OtherClaims \<Rightarrow>
                      (Inl \<lparr>ch_errorCode = authErrorInvalidToken, ch_errorDescription = ''invalid token claims''\<rparr>, res)
                  | MapClaims cl \<Rightarrow>
                      if validateClaims lib m cl \<noteq> None
                      then (Inl \<lparr>ch_errorCode = authErrorInvalidToken, ch_errorDescription = ''invalid token claims''\<rparr>, res)
                      else (Inr cl, res))))"

text \<open>What one request finds: the keys of the resolver, the network, the other goroutines.\<close>

record auth_moment =
  am_keys :: "(string, PublicKey) gomap"
  am_fetch :: jwk_fetch
  am_others :: "jwk_set list"

definition at_moment :: "auth_moment \<Rightarrow> auth \<Rightarrow> auth" where
  "at_moment am m =
     (case au_resolver m of
        JwksResolver r \<Rightarrow> m\<lparr>au_resolver := JwksResolver (r\<lparr>jr_keys := am_keys am\<rparr>)\<rparr>
      | _ \<Rightarrow> m)"

definition with_claims :: "claims \<Rightarrow> req_obj \<Rightarrow> req_obj" where
  "with_claims cl req = WithContext ((ro_Context req)\<lparr>ctx_claims := Some cl\<rparr>) req"

definition auth_Handler ::
  "jwt_lib \<Rightarrow> problem_encoder \<Rightarrow> (nat \<Rightarrow> bool) \<Rightarrow> auth_moment \<Rightarrow> auth \<Rightarrow> handler \<Rightarrow> handler" where
  "auth_Handler lib enc pt am m next w st req f =
     (case fst (auth_decide lib (am_fetch am) (am_others am) (at_moment am m) (deref st req)) of
        Inl c \<Rightarrow> map_option (\<lambda>w'. (w', f, [])) (unauthorized enc pt m w c)
      | Inr cl \<Rightarrow> next w st (with_claims cl req) f)"

text \<open>
  \<open>moment\<close> is the course of events around the requests.  The object has a method \<^verbatim>\<open>Close\<close> without a
  result, which is not the method of \<^verbatim>\<open>sdk.Closer\<close>: for the router it has none.
\<close>

definition auth_Close :: "auth \<Rightarrow> auth" where
  "auth_Close m =
     (case au_resolver m of
        JwksResolver r \<Rightarrow> m\<lparr>au_resolver := JwksResolver (jwks_stop r)\<rparr>
      | _ \<Rightarrow> m)"

definition auth_object ::
  "auth_env \<Rightarrow> jwt_lib \<Rightarrow> problem_encoder \<Rightarrow> (nat \<Rightarrow> bool) \<Rightarrow> (store \<Rightarrow> req_obj \<Rightarrow> auth_moment) \<Rightarrow> middleware_object" where
  "auth_object env lib enc pt moment = \<lparr>mo_Name = ''auth'',
     mo_Init = (\<lambda>cfg. map_sum id
       (\<lambda>m. \<lparr>mw_Name = ''auth'',
             mw_Handler = (\<lambda>next w st req f. auth_Handler lib enc pt (moment st req) m next w st req f),
             mw_Close = None\<rparr>) (auth_Init env cfg))\<rparr>"

section \<open>Key sets\<close>

text \<open>A set publishes a key under an identifier.\<close>

definition published :: "jwk_set \<Rightarrow> string \<Rightarrow> PublicKey \<Rightarrow> bool" where
  "published ks kid key \<longleftrightarrow>
     kid \<noteq> [] \<and> (\<exists>k. Some k \<in> set ks \<and> jk_rsa k = Inr key \<and> jk_kid k = Some kid)"

text \<open>The key of an entry and its identifier, if it has both.\<close>

definition entry_of :: "jwk option \<Rightarrow> (string \<times> PublicKey) option" where
  "entry_of x =
     (case x of
        Some k \<Rightarrow> (case (jk_kid k, jk_rsa k) of (Some kid, Inr key) \<Rightarrow> if kid \<noteq> [] then Some (kid, key) else None | _ \<Rightarrow> None)
      | None \<Rightarrow> None)"

lemma entry_of_Some:
  "entry_of x = Some (kid, key) \<longleftrightarrow> (\<exists>k. x = Some k \<and> jk_kid k = Some kid \<and> jk_rsa k = Inr key \<and> kid \<noteq> [])"
  by (auto simp: entry_of_def split: option.splits sum.splits)

lemma published_entry: "published ks kid key \<longleftrightarrow> (\<exists>x \<in> set ks. entry_of x = Some (kid, key))"
  unfolding published_def entry_of_Some by blast

lemma refresh_keys_Cons:
  "refresh_keys (x # ks) acc =
     refresh_keys ks (case entry_of x of Some (kid, key) \<Rightarrow> AList.update kid key acc | None \<Rightarrow> acc)"
  by (cases x) (simp_all add: entry_of_def split: sum.split option.split)

lemma refresh_keys_sound:
  "map_of (refresh_keys ks acc) kid = Some key \<Longrightarrow> published ks kid key \<or> map_of acc kid = Some key"
proof (induction ks arbitrary: acc)
  case (Cons x ks)
  show ?case
  proof (cases "entry_of x")
    case None
    with Cons show ?thesis by (auto simp: refresh_keys_Cons published_entry)
  next
    case (Some e)
    with Cons.prems Cons.IH [of "AList.update (fst e) (snd e) acc"]
    have "published ks kid key \<or> map_of (AList.update (fst e) (snd e) acc) kid = Some key"
      by (simp add: refresh_keys_Cons split: prod.splits)
    with Some show ?thesis by (cases e) (auto simp: published_entry update_conv' split: if_splits)
  qed
qed simp

lemma refresh_keys_complete:
  "published ks kid key \<or> map_of acc kid \<noteq> None \<Longrightarrow> map_of (refresh_keys ks acc) kid \<noteq> None"
proof (induction ks arbitrary: acc)
  case (Cons x ks)
  then show ?case
    by (cases "entry_of x") (auto simp: refresh_keys_Cons published_entry update_conv' split: if_splits)
qed (simp add: published_entry)

lemma fold_install_keys:
  "fold install_keys kss r = (case kss of [] \<Rightarrow> r | _ \<Rightarrow> install_keys (last kss) r)"
  by (induction kss arbitrary: r) (auto simp: install_keys_def split: list.splits)

text \<open>
  The resolver as a machine: sets are installed and the channel is closed, each under its lock,
  by whatever goroutine.  The sets that were installed are kept along as a history.
\<close>

datatype jwks_event = Installed jwk_set | Stopped

fun jwks_step :: "jwks_event \<Rightarrow> jwk_set list \<times> jwksResolver \<Rightarrow> jwk_set list \<times> jwksResolver" where
  "jwks_step (Installed ks) (h, r) = (ks # h, install_keys ks r)"
| "jwks_step Stopped (h, r) = (h, jwks_stop r)"

definition jwks_inv :: "jwk_set list \<times> jwksResolver \<Rightarrow> bool" where
  "jwks_inv s = (case s of (h, r) \<Rightarrow>
     (case h of [] \<Rightarrow> jr_keys r = [] | ks # _ \<Rightarrow> jr_keys r = refresh_keys ks []))"

definition new_jwks :: "string \<Rightarrow> duration \<Rightarrow> duration \<Rightarrow> jwksResolver" where
  "new_jwks url timeout interval = \<lparr>jr_url = url, jr_keys = [], jr_refreshTimeout = timeout,
     jr_refreshInterval = interval, jr_stopped = False\<rparr>"

interpretation jwks: atomic_component jwks_step "([], new_jwks url timeout interval)" jwks_inv
  for url timeout interval
proof
  show "jwks_inv ([], new_jwks url timeout interval)" by (simp add: jwks_inv_def new_jwks_def)
  show "jwks_inv (jwks_step e s)" if "jwks_inv s" for e s
    using that by (cases e; cases s) (auto simp: jwks_inv_def install_keys_def jwks_stop_def split: list.splits)
qed

section \<open>Tokens that get through\<close>

text \<open>
  What \<^verbatim>\<open>golang-jwt\<close> documents of \<^verbatim>\<open>ParseWithClaims\<close>: a token it returns as valid uses one of the allowed
  algorithms, and the key function returned a key, for the token as it was parsed, under which it
  is genuine.  \<open>genuine leeway raw tok key\<close> means that \<open>raw\<close> is the compact form of \<open>tok\<close>, that its
  signature verifies under the key, and that its time claims hold up to the leeway.
\<close>

type_synonym genuineness = "duration \<Rightarrow> string \<Rightarrow> jwt_token \<Rightarrow> jwt_key \<Rightarrow> bool"

definition jwt_sound :: "jwt_lib \<Rightarrow> genuineness \<Rightarrow> bool" where
  "jwt_sound lib genuine \<longleftrightarrow>
     (\<forall>raw kf algs leeway res tok res'.
        jl_Parse lib raw kf algs leeway res = (Inr tok, res') \<and> tk_Valid tok \<longrightarrow>
        method_alg (tk_Method tok) \<in> set algs \<and>
        (\<exists>key. kf (tok\<lparr>tk_Valid := False\<rparr>) res = (Inr key, res') \<and> genuine leeway raw tok key))"

text \<open>The converse: a genuine token with an allowed algorithm, whose key is found, is accepted.\<close>

definition jwt_complete :: "jwt_lib \<Rightarrow> genuineness \<Rightarrow> bool" where
  "jwt_complete lib genuine \<longleftrightarrow>
     (\<forall>raw kf algs leeway res tok key res'.
        genuine leeway raw tok key \<and> tk_Valid tok \<and> method_alg (tk_Method tok) \<in> set algs \<and>
        kf (tok\<lparr>tk_Valid := False\<rparr>) res = (Inr key, res') \<longrightarrow>
        jl_Parse lib raw kf algs leeway res = (Inr tok, res'))"

text \<open>
  The keys a resolver may answer with: its own, or one that a key set publishes under the token's
  identifier, a set that it held, fetched or was given meanwhile.
\<close>

definition trusted_key :: "auth_moment \<Rightarrow> keyResolver \<Rightarrow> jwt_token \<Rightarrow> jwt_key \<Rightarrow> bool" where
  "trusted_key am res tok key =
     (case res of
        HmacResolver secret \<Rightarrow> secret \<noteq> [] \<and> key = HmacKey secret
      | RsaResolver pub \<Rightarrow> (\<exists>k. pub = Some k \<and> key = RsaKey k)
      | JwksResolver r \<Rightarrow>
          (\<exists>kid k. map_of (tk_Header tok) ''kid'' = Some (JString kid) \<and> key = RsaKey k \<and>
             (map_of (jr_keys r) kid = Some k \<or>
              (\<exists>ks. (am_fetch am (jr_url r) (jr_refreshTimeout r) = Inr ks \<or> ks \<in> set (am_others am)) \<and>
                    published ks kid k))))"

lemma jwks_KeyFunc_key:
  assumes "jwks_KeyFunc fetch others r tok = (Inr key, r')"
  obtains kid k where "map_of (tk_Header tok) ''kid'' = Some (JString kid)" "key = RsaKey k"
    "map_of (jr_keys r) kid = Some k \<or>
     (\<exists>ks. (fetch (jr_url r) (jr_refreshTimeout r) = Inr ks \<or> ks \<in> set others) \<and> published ks kid k)"
proof -
  from assms obtain kid where kid: "map_of (tk_Header tok) ''kid'' = Some (JString kid)"
    by (auto simp: jwks_KeyFunc_def split: if_splits option.splits json.splits)
  show thesis
  proof (cases "map_of (jr_keys r) kid")
    case (Some k)
    with assms kid have "key = RsaKey k" by (simp add: jwks_KeyFunc_def split: if_splits)
    with kid Some that show ?thesis by blast
  next
    case None
    with assms kid obtain ks where ks: "fetch (jr_url r) (jr_refreshTimeout r) = Inr ks"
      by (auto simp: jwks_KeyFunc_def jwks_refresh_def split: if_splits sum.splits)
    define r2 where "r2 = fold install_keys others (install_keys ks r)"
    from assms kid None ks obtain k where k: "map_of (jr_keys r2) kid = Some k" "key = RsaKey k"
      by (auto simp: jwks_KeyFunc_def jwks_refresh_def r2_def Let_def split: if_splits option.splits)
    have "published (last (ks # others)) kid k"
      using k(1) refresh_keys_sound [of "last (ks # others)" "[]" kid k]
      by (simp add: r2_def fold_install_keys install_keys_def split: list.splits)
    moreover have "last (ks # others) = ks \<or> last (ks # others) \<in> set others" by (cases others) auto
    ultimately show ?thesis using that kid k(2) ks by metis
  qed
qed

lemma resolver_KeyFunc_trusted:
  assumes "resolver_KeyFunc (am_fetch am) (am_others am) tok res = (Inr key, res')"
  shows "trusted_key am res tok key"
proof (cases res)
  case (JwksResolver r)
  with assms obtain r' where "jwks_KeyFunc (am_fetch am) (am_others am) r tok = (Inr key, r')"
    by (cases "jwks_KeyFunc (am_fetch am) (am_others am) r tok") (auto simp: resolver_KeyFunc_def)
  then obtain kid k where "map_of (tk_Header tok) ''kid'' = Some (JString kid)" "key = RsaKey k"
    "map_of (jr_keys r) kid = Some k \<or> (\<exists>ks. (am_fetch am (jr_url r) (jr_refreshTimeout r) = Inr ks \<or>
       ks \<in> set (am_others am)) \<and> published ks kid k)" by (rule jwks_KeyFunc_key)
  then show ?thesis using JwksResolver by (auto simp: trusted_key_def)
qed (use assms in \<open>auto simp: resolver_KeyFunc_def hmac_KeyFunc_def rsa_KeyFunc_def trusted_key_def
      split: signing_method.splits if_splits option.splits\<close>)

lemma trusted_key_unset [simp]: "trusted_key am res (tok\<lparr>tk_Valid := b\<rparr>) key = trusted_key am res tok key"
  by (simp add: trusted_key_def cong: keyResolver.case_cong)

lemma SplitN2_parts:
  assumes "length (SplitN2 s c) = 2"
  shows "s = SplitN2 s c ! 0 @ [c] @ SplitN2 s c ! 1" "c \<notin> set (SplitN2 s c ! 0)"
proof -
  let ?p = "takeWhile (\<lambda>x. x \<noteq> c) s"
  from assms have ne: "?p \<noteq> s" by (auto simp: SplitN2_def Let_def split: if_splits)
  then obtain d ds where d: "dropWhile (\<lambda>x. x \<noteq> c) s = d # ds"
    by (metis append.right_neutral list.exhaust takeWhile_dropWhile_id)
  then have "d = c" using hd_dropWhile [of "\<lambda>x. x \<noteq> c" s] by simp
  with d have s: "s = ?p @ c # ds" using takeWhile_dropWhile_id [of "\<lambda>x. x \<noteq> c" s] by simp
  then have "drop (length ?p + 1) s = ds" by (metis append_Cons append_eq_conv_conj drop_drop drop_Suc_Cons drop0 plus_1_eq_Suc add.commute)
  with ne s show "s = SplitN2 s c ! 0 @ [c] @ SplitN2 s c ! 1" by (simp add: SplitN2_def Let_def)
  show "c \<notin> set (SplitN2 s c ! 0)"
    using ne by (auto simp: SplitN2_def Let_def dest: set_takeWhileD)
qed

lemma SplitN2_append: "c \<notin> set p \<Longrightarrow> SplitN2 (p @ c # s) c = [p, s]"
proof -
  assume "c \<notin> set p"
  then have "takeWhile (\<lambda>x. x \<noteq> c) (p @ c # s) = p" by (induction p) auto
  then show ?thesis by (simp add: SplitN2_def Let_def)
qed

lemma auth_decide_Inr:
  assumes "jwt_sound lib genuine"
    and "auth_decide lib (am_fetch am) (am_others am) m r = (Inr cl, res')"
  shows "\<exists>scheme raw tok key. hdr_Get (req_Header r) ''Authorization'' = scheme @ '' '' @ raw \<and>
    map to_lower scheme = ''bearer'' \<and> genuine defaultLeeway raw tok key \<and>
    method_alg (tk_Method tok) = jc_alg (au_jwtConfig m) \<and> trusted_key am (au_resolver m) tok key \<and>
    tk_Claims tok = MapClaims cl \<and> validateClaims lib m cl = None"
proof -
  let ?h = "hdr_Get (req_Header r) ''Authorization''"
  let ?parts = "SplitN2 ?h CHR '' ''"
  from assms(2) obtain tok where tok: "length ?parts = 2" "map to_lower (?parts ! 0) = ''bearer''"
    "jl_Parse lib (?parts ! 1) (resolver_KeyFunc (am_fetch am) (am_others am)) [jc_alg (au_jwtConfig m)] defaultLeeway
       (au_resolver m) = (Inr tok, res')" "tk_Valid tok" "tk_Claims tok = MapClaims cl" "validateClaims lib m cl = None"
    by (auto simp: auth_decide_def Let_def split: if_splits sum.splits prod.splits token_claims.splits)
  with assms(1) obtain key where "method_alg (tk_Method tok) = jc_alg (au_jwtConfig m)"
    "resolver_KeyFunc (am_fetch am) (am_others am) (tok\<lparr>tk_Valid := False\<rparr>) (au_resolver m) = (Inr key, res')"
    "genuine defaultLeeway (?parts ! 1) tok key"
    unfolding jwt_sound_def by (metis (lifting) empty_iff empty_set set_ConsD)
  moreover from this(2) have "trusted_key am (au_resolver m) tok key"
    using resolver_KeyFunc_trusted by fastforce
  ultimately show ?thesis using SplitN2_parts(1) [OF tok(1)] tok(2,5,6) by (metis append_Cons append_Nil)
qed

section \<open>Answers\<close>

lemma auth_header_keys [simp]:
  "canon ''WWW-Authenticate'' = ''Www-Authenticate''" "canon ''Authorization'' = ''Authorization''"
  by code_simp+

lemma WriteError_sent:
  assumes "rw_sent w = None" "final_status status"
  shows "\<exists>w'. WriteError enc w code status = Some w' \<and>
    rw_sent w' = Some (status, hdr_Set ''Content-Type'' ''application/problem+json'' (rw_header w))"
  using assms
  by (auto simp: WriteError_def rw_WriteHeader_fresh rw_WriteHeader_again http_Error_def rw_edit_def Let_def
      rw_Write_def split: sum.splits)

text \<open>A refusal: status 401 with the challenge, and nothing else has happened.\<close>

definition challenged :: "(nat \<Rightarrow> bool) \<Rightarrow> auth \<Rightarrow> authChallenge \<Rightarrow> flow \<Rightarrow> (ResponseWriter \<times> flow \<times> Request list) go \<Rightarrow> bool" where
  "challenged pt m c f result \<longleftrightarrow>
     (\<exists>w' h. result = Some (w', f, []) \<and> rw_sent w' = Some (StatusUnauthorized, h) \<and>
        hdr_values h ''Www-Authenticate'' =
          [buildWWWAuthenticateHeader pt (au_realm m) (ch_errorCode c) (ch_errorDescription c)] \<and>
        hdr_values h ''Content-Type'' = [''application/problem+json''])"

lemma unauthorized_refuses:
  assumes "rw_sent w = None"
  shows "challenged pt m c f (map_option (\<lambda>w'. (w', f, [])) (unauthorized enc pt m w c))"
proof -
  let ?w = "rw_edit (hdr_Set ''WWW-Authenticate''
    (buildWWWAuthenticateHeader pt (au_realm m) (ch_errorCode c) (ch_errorDescription c))) w"
  from assms obtain w' where "WriteError enc ?w ClientErrUnauthorized StatusUnauthorized = Some w'"
    "rw_sent w' = Some (StatusUnauthorized, hdr_Set ''Content-Type'' ''application/problem+json'' (rw_header ?w))"
    using WriteError_sent [of ?w StatusUnauthorized enc ClientErrUnauthorized] by (auto simp: final_status_def)
  then show ?thesis by (simp add: challenged_def unauthorized_def header_simps)
qed

lemma auth_transparent:
  assumes "answering_handler h"
  shows "answering_handler (\<lambda>w st req f. auth_Handler lib enc pt (moment st req) m h w st req f)"
proof (rule answeringI)
  fix w :: ResponseWriter and st req and f :: flow
  assume w: "rw_sent w = None" and f: "live_flow f"
  show "\<exists>w' f' sent. auth_Handler lib enc pt (moment st req) m h w st req f = Some (w', f', sent) \<and>
      rw_sent w' \<noteq> None \<and> flow_kept f f'"
  proof (cases "fst (auth_decide lib (am_fetch (moment st req)) (am_others (moment st req))
      (at_moment (moment st req) m) (deref st req))")
    case (Inl c)
    with unauthorized_refuses [OF w, of pt m c f enc] f show ?thesis
      by (auto simp: auth_Handler_def challenged_def flow_kept_def)
  next
    case (Inr cl)
    obtain w1 f1 s1 where "h w st (with_claims cl req) f = Some (w1, f1, s1)" "rw_sent w1 \<noteq> None" "flow_kept f f1"
      using assms w f by (rule answeringE)
    with Inr show ?thesis by (simp add: auth_Handler_def)
  qed
qed

lemma auth_object_transparent: "mo_Init (auth_object env lib enc pt moment) cfg = Inr m \<Longrightarrow> transparent m"
  by (cases "auth_Init env cfg") (auto simp: auth_object_def transparent_def auth_transparent)

text \<open>What a successful \<^verbatim>\<open>Init\<close> has read.\<close>

lemma auth_Init_resolver:
  assumes "auth_Init env cfg = Inr m"
  shows "newKeyResolver (ae_fetch env) (au_jwtConfig m) = Inr (au_resolver m)"
    and "cfg_string cfg ''alg'' = Some (jc_alg (au_jwtConfig m))"
    and "parseHMACSecret cfg ''hmac_secret'' = Inr (jc_hmacSecret (au_jwtConfig m))"
    and "cfg_string cfg ''issuer'' = Some (au_issuer m)" and "cfg_string cfg ''audience'' = Some (au_audience m)"
  using assms by (auto simp: auth_Init_def Let_def split: option.splits sum.splits if_splits)

text \<open>The resolver that fits the algorithm.\<close>

definition resolver_fits :: "jwtConfig \<Rightarrow> keyResolver \<Rightarrow> bool" where
  "resolver_fits jc res =
     (case res of
        HmacResolver secret \<Rightarrow> jc_alg jc = ''HS256'' \<and> secret = jc_hmacSecret jc \<and> secret \<noteq> []
      | RsaResolver pub \<Rightarrow> jc_alg jc = ''RS256'' \<and> jc_jwksURL jc = [] \<and> pub = jc_rsaPublicKey jc \<and> pub \<noteq> None
      | JwksResolver r \<Rightarrow> jc_alg jc = ''RS256'' \<and> jr_url r = jc_jwksURL jc \<and> jr_url r \<noteq> [])"

lemma newKeyResolver_fits: "newKeyResolver fetch jc = Inr res \<Longrightarrow> resolver_fits jc res"
  by (auto simp: newKeyResolver_def newJWKSResolver_def jwks_refresh_def install_keys_def resolver_fits_def Let_def
      split: if_splits sum.splits)

lemma resolver_fits_moment:
  "resolver_fits (au_jwtConfig m) (au_resolver m) \<Longrightarrow> resolver_fits (au_jwtConfig m) (au_resolver (at_moment am m))"
  by (auto simp: at_moment_def resolver_fits_def split: keyResolver.splits)

lemma at_moment_kept [simp]:
  "au_issuer (at_moment am m) = au_issuer m" "au_audience (at_moment am m) = au_audience m"
  "au_jwtConfig (at_moment am m) = au_jwtConfig m" "au_realm (at_moment am m) = au_realm m"
  "validateClaims lib (at_moment am m) = validateClaims lib m"
  by (auto simp: at_moment_def validateClaims_def fun_eq_iff split: keyResolver.splits sum.splits)

section \<open>Properties\<close>

text \<open>
  C3. Only authenticated requests get through.  A request is refused with status 401 and a challenge, and nothing
  behind the middleware runs, unless it bears a token that is genuine under a trusted key: the configured secret for
  HS256, never an RSA key, and the configured or a published RSA key for RS256, never the secret;
  whose algorithm is the configured one; and whose claims name the configured issuer and audience.
  Then the next handler gets the request with those claims.
\<close>

theorem auth_admits_only_genuine:
  assumes "jwt_sound lib genuine" "auth_Init env cfg = Inr m" "rw_sent w = None"
  shows "(\<exists>c. challenged pt m c f (auth_Handler lib enc pt am m inner w st req f)) \<or>
    (\<exists>scheme raw tok key cl audience.
       hdr_Get (req_Header (deref st req)) ''Authorization'' = scheme @ '' '' @ raw \<and> map to_lower scheme = ''bearer'' \<and>
       genuine defaultLeeway raw tok key \<and> trusted_key am (au_resolver (at_moment am m)) tok key \<and>
       cfg_string cfg ''alg'' = Some (method_alg (tk_Method tok)) \<and>
       (case key of
          HmacKey secret \<Rightarrow> method_alg (tk_Method tok) = ''HS256'' \<and> secret \<noteq> [] \<and>
            parseHMACSecret cfg ''hmac_secret'' = Inr secret
        | RsaKey k \<Rightarrow> method_alg (tk_Method tok) = ''RS256'') \<and>
       tk_Claims tok = MapClaims cl \<and> map_sum id Some (jl_GetIssuer lib cl) = Inr (cfg_string cfg ''issuer'') \<and>
       jl_GetAudience lib cl = Inr audience \<and> cfg_string cfg ''audience'' \<in> Some ` set audience \<and>
       auth_Handler lib enc pt am m inner w st req f = inner w st (with_claims cl req) f)"
proof (cases "auth_decide lib (am_fetch am) (am_others am) (at_moment am m) (deref st req)")
  case (Pair decision res')
  show ?thesis
  proof (cases decision)
    case (Inl c)
    with Pair unauthorized_refuses [OF assms(3), of pt m c f enc] show ?thesis by (auto simp: auth_Handler_def)
  next
    case (Inr cl)
    from auth_decide_Inr [OF assms(1) Pair [unfolded Inr]] obtain scheme raw tok key where
      tok: "hdr_Get (req_Header (deref st req)) ''Authorization'' = scheme @ '' '' @ raw"
        "map to_lower scheme = ''bearer''" "genuine defaultLeeway raw tok key"
        "method_alg (tk_Method tok) = jc_alg (au_jwtConfig m)" "trusted_key am (au_resolver (at_moment am m)) tok key"
        "tk_Claims tok = MapClaims cl" "validateClaims lib m cl = None"
      unfolding at_moment_kept by metis
    note ini = auth_Init_resolver [OF assms(2)]
    have "resolver_fits (au_jwtConfig m) (au_resolver (at_moment am m))"
      using newKeyResolver_fits [OF ini(1)] by (rule resolver_fits_moment)
    with tok(4,5) ini(3) have key: "case key of
        HmacKey secret \<Rightarrow> method_alg (tk_Method tok) = ''HS256'' \<and> secret \<noteq> [] \<and>
          parseHMACSecret cfg ''hmac_secret'' = Inr secret
      | RsaKey k \<Rightarrow> method_alg (tk_Method tok) = ''RS256''"
      by (auto simp: resolver_fits_def trusted_key_def split: keyResolver.splits)
    from tok(7) obtain audience where "jl_GetIssuer lib cl = Inr (au_issuer m)"
      "jl_GetAudience lib cl = Inr audience" "au_audience m \<in> set audience"
      by (auto simp: validateClaims_def split: if_splits sum.splits)
    moreover have "auth_Handler lib enc pt am m inner w st req f = inner w st (with_claims cl req) f"
      using Pair Inr by (simp add: auth_Handler_def)
    ultimately show ?thesis
      using tok(1-6) key ini(2,4,5)
      by (intro disjI2 exI [of _ scheme] exI [of _ raw] exI [of _ tok] exI [of _ key] exI [of _ cl] exI [of _ audience]) simp
  qed
qed

text \<open>A library with one token, and a middleware that expects it.\<close>

definition sample_token :: jwt_token where
  "sample_token = \<lparr>tk_Method = SigningMethodHMAC ''HS256'', tk_Header = [],
     tk_Claims = MapClaims [(''iss'', JString ''idp''), (''aud'', JString ''shop'')], tk_Valid = True\<rparr>"

definition sample_genuine :: genuineness where
  "sample_genuine leeway raw tok key \<longleftrightarrow> raw = ''e30.e30.c2ln'' \<and> tok = sample_token \<and> key = HmacKey ''secret''"

definition sample_claim :: "string \<Rightarrow> claims \<Rightarrow> string" where
  "sample_claim k cl = (case map_of cl k of Some (JString s) \<Rightarrow> s | _ \<Rightarrow> [])"

definition sample_jwt :: jwt_lib where
  "sample_jwt = \<lparr>
     jl_Parse = (\<lambda>raw kf algs leeway res.
       if raw \<noteq> ''e30.e30.c2ln'' then (Inl (ErrMsg ''malformed''), res)
       else if ''HS256'' \<notin> set algs then (Inl (ErrMsg ''signing method''), res)
       else case kf (sample_token\<lparr>tk_Valid := False\<rparr>) res of
         (Inl err, res') \<Rightarrow> (Inl err, res')
       | (Inr key, res') \<Rightarrow>
           if key = HmacKey ''secret'' then (Inr sample_token, res') else (Inl (ErrMsg ''signature''), res')),
     jl_GetIssuer = (\<lambda>cl. Inr (sample_claim ''iss'' cl)), jl_GetAudience = (\<lambda>cl. Inr [sample_claim ''aud'' cl])\<rparr>"

lemma sample_jwt_sound: "jwt_sound sample_jwt sample_genuine"
  unfolding jwt_sound_def
  by (auto simp: sample_jwt_def sample_genuine_def sample_token_def split: if_splits prod.splits sum.splits)

lemma sample_jwt_complete: "jwt_complete sample_jwt sample_genuine"
  unfolding jwt_complete_def by (auto simp: sample_jwt_def sample_genuine_def) (simp add: sample_token_def)

definition sample_auth_config :: cfg_map where
  "sample_auth_config = [(''issuer'', CfgString ''idp''), (''audience'', CfgString ''shop''),
     (''alg'', CfgString ''HS256''), (''hmac_secret'', CfgString ''c2VjcmV0'')]"

definition sample_auth :: auth where
  "sample_auth = \<lparr>au_issuer = ''idp'', au_audience = ''shop'', au_realm = ''restricted'',
     au_resolver = HmacResolver ''secret'',
     au_jwtConfig = \<lparr>jc_alg = ''HS256'', jc_hmacSecret = ''secret'', jc_rsaPublicKey = None, jc_jwksURL = [],
       jc_jwksRefreshTimeout = 5000000000, jc_jwksRefreshInterval = 300000000000\<rparr>\<rparr>"

definition sample_auth_env :: auth_env where
  "sample_auth_env = \<lparr>ae_pem = (\<lambda>b. None), ae_pkix = (\<lambda>b. Inl (ErrMsg ''no key'')),
     ae_fetch = (\<lambda>url timeout. Inl ErrDeadlineExceeded), ae_logger = None\<rparr>"

definition sample_moment :: auth_moment where
  "sample_moment = \<lparr>am_keys = [], am_fetch = (\<lambda>url timeout. Inl ErrDeadlineExceeded), am_others = []\<rparr>"

lemma sample_secret: "b64_DecodeString ''c2VjcmV0'' = Inr ''secret''"
  by code_simp

lemma sample_auth_Init: "auth_Init sample_auth_env sample_auth_config = Inr sample_auth"
  by (simp add: auth_Init_def sample_auth_config_def sample_auth_env_def cfg_string_def configured_realm_def
      parseHMACSecret_def sample_secret parseRSAPublicKey_def parseDuration_def newKeyResolver_def Let_def
      sample_auth_def defaultRealm_def defaultJWKSRefreshTimeout_def defaultJWKSRefreshInterval_def)

definition sample_auth_store :: "string \<Rightarrow> store" where
  "sample_auth_store h = sample_store\<lparr>st_header := (\<lambda>i. [(''Authorization'', [h])])\<rparr>"

lemma sample_auth_header:
  "hdr_Get (req_Header (deref (sample_auth_store h) sample_object)) ''Authorization'' = h"
  by (simp add: sample_auth_store_def deref_def hdr_Get_def hdr_values_def)

text \<open>A basic credential is refused before anything else runs.\<close>

theorem auth_admits_only_genuine_witness:
  "\<exists>c. challenged (\<lambda>r. False) sample_auth c sample_flow
     (auth_Handler sample_jwt (\<lambda>p. Inr []) (\<lambda>r. False) sample_moment sample_auth (\<lambda>w st req f. None) new_writer
        (sample_auth_store ''Basic e30.e30.c2ln'') sample_object sample_flow)"
proof -
  have nobearer: "map to_lower scheme \<noteq> ''bearer''" if "''Basic e30.e30.c2ln'' = scheme @ '' '' @ raw" for scheme raw
  proof
    assume b: "map to_lower scheme = ''bearer''"
    from arg_cong [OF b, of length] have "length scheme = 6" by simp
    with that have "scheme = take 6 ''Basic e30.e30.c2ln''" by (metis append_eq_conv_conj)
    with b show False by (simp add: to_lower_def is_upper_def)
  qed
  have w: "rw_sent new_writer = None" by (simp add: new_writer_def)
  show ?thesis
    using auth_admits_only_genuine [OF sample_jwt_sound sample_auth_Init w, of "\<lambda>r. False" sample_flow "\<lambda>p. Inr []"
        sample_moment "\<lambda>w st req f. None" "sample_auth_store ''Basic e30.e30.c2ln''" sample_object]
    unfolding sample_auth_header
  proof (elim disjE exE conjE)
    fix scheme raw
    assume s: "''Basic e30.e30.c2ln'' = scheme @ '' '' @ raw" and b: "map to_lower scheme = ''bearer''"
    from nobearer [OF s] b show ?thesis by (rule notE)
  qed (rule exI)
qed

text \<open>
  C32. The converse: a request that bears a genuine token of the configured algorithm under the bearer scheme, whose key
  the resolver finds and whose claims fit, reaches the next handler.
\<close>

theorem auth_admits_genuine:
  assumes "jwt_complete lib genuine" "genuine defaultLeeway raw tok key" "tk_Valid tok"
    and "hdr_Get (req_Header (deref st req)) ''Authorization'' = scheme @ '' '' @ raw" "map to_lower scheme = ''bearer''"
    and "method_alg (tk_Method tok) = jc_alg (au_jwtConfig m)"
    and "fst (resolver_KeyFunc (am_fetch am) (am_others am) (tok\<lparr>tk_Valid := False\<rparr>) (au_resolver (at_moment am m))) = Inr key"
    and "tk_Claims tok = MapClaims cl" "validateClaims lib m cl = None"
  shows "auth_Handler lib enc pt am m inner w st req f = inner w st (with_claims cl req) f"
proof -
  have "CHR '' '' \<notin> set scheme"
  proof
    assume "CHR '' '' \<in> set scheme"
    then have "to_lower CHR '' '' \<in> set (map to_lower scheme)" unfolding set_map by (rule imageI)
    then show False unfolding assms(5) by (simp add: to_lower_def is_upper_def)
  qed
  then have split: "SplitN2 (scheme @ '' '' @ raw) CHR '' '' = [scheme, raw]" by (simp add: SplitN2_append)
  obtain res' where "resolver_KeyFunc (am_fetch am) (am_others am) (tok\<lparr>tk_Valid := False\<rparr>) (au_resolver (at_moment am m)) =
      (Inr key, res')" using assms(7) by (metis prod.collapse)
  then have parse: "jl_Parse lib raw (resolver_KeyFunc (am_fetch am) (am_others am)) [jc_alg (au_jwtConfig m)] defaultLeeway
      (au_resolver (at_moment am m)) = (Inr tok, res')"
    using assms(1-3,6) unfolding jwt_complete_def by simp
  have "auth_decide lib (am_fetch am) (am_others am) (at_moment am m) (deref st req) = (Inr cl, res')"
    using parse assms(3,5,8,9) unfolding auth_decide_def assms(4) Let_def split by simp
  then show ?thesis by (simp add: auth_Handler_def)
qed

theorem auth_admits_genuine_witness:
  "auth_Handler sample_jwt (\<lambda>p. Inr []) (\<lambda>r. False) sample_moment sample_auth (\<lambda>w st req f. Some (w, f, [])) new_writer
     (sample_auth_store ''bearer e30.e30.c2ln'') sample_object sample_flow = Some (new_writer, sample_flow, [])"
proof -
  have "hdr_Get (req_Header (deref (sample_auth_store ''bearer e30.e30.c2ln'') sample_object)) ''Authorization'' =
      ''bearer'' @ '' '' @ ''e30.e30.c2ln''" unfolding sample_auth_header by simp
  moreover have "sample_genuine defaultLeeway ''e30.e30.c2ln'' sample_token (HmacKey ''secret'')"
    by (simp add: sample_genuine_def)
  moreover have "map to_lower ''bearer'' = ''bearer''" by (simp add: to_lower_def is_upper_def)
  moreover have "fst (resolver_KeyFunc (am_fetch sample_moment) (am_others sample_moment)
      (sample_token\<lparr>tk_Valid := False\<rparr>) (au_resolver (at_moment sample_moment sample_auth))) = Inr (HmacKey ''secret'')"
    by (simp add: resolver_KeyFunc_def at_moment_def sample_auth_def hmac_KeyFunc_def sample_token_def)
  moreover have "tk_Valid sample_token"
    "tk_Claims sample_token = MapClaims [(''iss'', JString ''idp''), (''aud'', JString ''shop'')]"
    "method_alg (tk_Method sample_token) = jc_alg (au_jwtConfig sample_auth)"
    "validateClaims sample_jwt sample_auth [(''iss'', JString ''idp''), (''aud'', JString ''shop'')] = None"
    by (simp_all add: sample_token_def sample_auth_def validateClaims_def sample_jwt_def sample_claim_def)
  ultimately show ?thesis
    using auth_admits_genuine [OF sample_jwt_complete, of "''e30.e30.c2ln''" sample_token "HmacKey ''secret''"
        "sample_auth_store ''bearer e30.e30.c2ln''" sample_object "''bearer''" sample_auth sample_moment
        "[(''iss'', JString ''idp''), (''aud'', JString ''shop'')]"] by simp
qed

text \<open>
  A secret is configured in base64: \<^verbatim>\<open>Init\<close> on the encoding of any secret that is not empty makes a middleware that
  checks tokens with exactly that secret.
\<close>

theorem hmac_secret_roundtrip:
  assumes "secret \<noteq> []" "ae_logger env = None"
  shows "\<exists>m. auth_Init env [(''issuer'', CfgString issuer), (''audience'', CfgString audience), (''alg'', CfgString ''HS256''),
      (''hmac_secret'', CfgString (b64_EncodeToString secret))] = Inr m \<and> au_resolver m = HmacResolver secret \<and>
    au_issuer m = issuer \<and> au_audience m = audience"
  using assms
  by (simp add: auth_Init_def cfg_string_def configured_realm_def parseHMACSecret_def b64_roundtrip parseRSAPublicKey_def
      newKeyResolver_def Let_def)

theorem hmac_secret_roundtrip_witness:
  "\<exists>m. auth_Init sample_auth_env [(''issuer'', CfgString ''idp''), (''audience'', CfgString ''shop''), (''alg'', CfgString ''HS256''),
      (''hmac_secret'', CfgString ''c2VjcmV0'')] = Inr m \<and> au_resolver m = HmacResolver ''secret''"
proof -
  have "b64_EncodeToString ''secret'' = ''c2VjcmV0''" by code_simp
  with hmac_secret_roundtrip [of "''secret''" sample_auth_env "''idp''" "''shop''"] show ?thesis
    by (auto simp: sample_auth_env_def)
qed

text \<open>
  The challenge cannot break out of its header: whatever realm is configured, the value of \<^verbatim>\<open>WWW-Authenticate\<close> has no
  control characters, line breaks among them.
\<close>

theorem challenge_is_one_field:
  "list_all field_byte (buildWWWAuthenticateHeader pt realm errorCode errorDescription)"
proof -
  have "list_all field_byte (bearerAuthScheme @ '' realm='' @ '', error='' @ '', error_description='')"
    by (simp add: field_byte_def bearerAuthScheme_def)
  then show ?thesis by (simp add: buildWWWAuthenticateHeader_def field_bytes_Quote Let_def)
qed

text \<open>
  The keys are those of one published set: after any interleaving of refreshes, in the background and by requests,
  the resolver holds exactly the usable keys of the set that was installed last, never a mixture of two
  sets, and nothing before the first one; identifiers are found if and only if that set publishes a key under them.
\<close>

theorem jwks_keys_of_one_set:
  assumes "(h, r) = fold jwks_step es ([], new_jwks url timeout interval)"
  shows "case h of
      [] \<Rightarrow> jr_keys r = []
    | ks # _ \<Rightarrow> (\<forall>kid. (\<exists>key. map_of (jr_keys r) kid = Some key) = (\<exists>key. published ks kid key)) \<and>
        (\<forall>kid key. map_of (jr_keys r) kid = Some key \<longrightarrow> published ks kid key)"
proof -
  have inv: "jwks_inv (h, r)" unfolding assms by (rule jwks.inv_run)
  show ?thesis
  proof (cases h)
    case (Cons ks rest)
    with inv have r: "jr_keys r = refresh_keys ks []" by (simp add: jwks_inv_def)
    show ?thesis
      unfolding Cons r using refresh_keys_sound [of ks "[]"] refresh_keys_complete [of ks _ _ "[]"] by force
  qed (use inv in \<open>simp add: jwks_inv_def\<close>)
qed

definition sample_key :: PublicKey where "sample_key = \<lparr>pk_N = 3233, pk_E = 17\<rparr>"

theorem jwks_keys_of_one_set_witness:
  "map_of (jr_keys (snd (fold jwks_step
     [Installed [Some \<lparr>jk_rsa = Inr sample_key, jk_kid = Some ''a''\<rparr>], Stopped,
      Installed [None, Some \<lparr>jk_rsa = Inr sample_key, jk_kid = Some ''b''\<rparr>]] ([], new_jwks ''u'' 1 1)))) ''a'' = None"
  (is "map_of (jr_keys (snd ?s)) ''a'' = None")
proof -
  let ?ks = "[None, Some \<lparr>jk_rsa = Inr sample_key, jk_kid = Some ''b''\<rparr>]"
  have h: "fst ?s = [?ks, [Some \<lparr>jk_rsa = Inr sample_key, jk_kid = Some ''a''\<rparr>]]" by simp
  have "\<not> published ?ks ''a'' key" for key by (simp add: published_def)
  with jwks_keys_of_one_set [of "fst ?s" "snd ?s", OF prod.collapse] show ?thesis
    unfolding h list.case by (metis option.exhaust)
qed

text \<open>A refresh interval of zero is accepted by \<^verbatim>\<open>Init\<close> and then ends the process: the ticker of the background goroutine panics.\<close>

lemma jwks_zero_interval_panics:
  "parseDuration [(''jwks_refresh_interval'', CfgString ''0s'')] ''jwks_refresh_interval'' fallback = 0"
  "jr_refreshInterval r = 0 \<Longrightarrow> jwks_start es r = None"
  by (simp_all add: parseDuration_def cfg_string_def ParseDuration_examples jwks_start_def)

text \<open>Closing the router does not reach the resolver: the middleware has no closer.\<close>

lemma auth_not_closed: "mo_Init (auth_object env lib enc pt moment) cfg = Inr m \<Longrightarrow> mw_Close m = None"
  by (cases "auth_Init env cfg") (auto simp: auth_object_def)

end
