(* ===== verification/Cert_Gen.thy ===== *)
theory Cert_Gen
  imports TLS_Reload
begin

text \<open>
  \<^verbatim>\<open>internal/testutil/certgen\<close>: the certificates, file writes and probes that the gateway's own tests are made of, over a file
  system of our own.  Key generation, X.509 and PEM encoding and the handshake are parameters; \<open>crypto_sound\<close> and
  \<open>handshake_sound\<close> say what is documented of them.  The lemmas state what those tests try on examples: a certificate
  that is renewed on disk is served after the next reload, a broken one is never served, and a reader of a file that
  is written atomically sees the old or the new contents.
\<close>

section \<open>Cryptography\<close>

datatype ExtKeyUsage = ExtKeyUsageServerAuth | ExtKeyUsageClientAuth

definition KeyUsageDigitalSignature :: "32 word" where "KeyUsageDigitalSignature = 1"
definition KeyUsageCertSign :: "32 word" where "KeyUsageCertSign = 32"

record Certificate =
  x_SerialNumber :: int
  x_CommonName :: string
  x_NotBefore :: time
  x_NotAfter :: time
  x_IsCA :: bool
  x_KeyUsage :: "32 word"
  x_ExtKeyUsage :: "ExtKeyUsage list"
  x_BasicConstraintsValid :: bool
  x_DNSNames :: "string list"

text \<open>
  \<open>cl_GenerateKey i\<close> is the key made of the \<open>i\<close>-th draw of randomness; \<open>cl_Chain\<close> reads the certificates of a key pair, its
  own first.
\<close>

record crypto_lib =
  cl_GenerateKey :: "nat \<Rightarrow> go_error + bytes"
  cl_PublicKey :: "bytes \<Rightarrow> bytes"
  cl_CreateCertificate :: "Certificate \<Rightarrow> Certificate \<Rightarrow> bytes \<Rightarrow> bytes \<Rightarrow> go_error + bytes"
  cl_ParseCertificate :: "bytes \<Rightarrow> go_error + Certificate"
  cl_MarshalECPrivateKey :: "bytes \<Rightarrow> go_error + bytes"
  cl_EncodeToMemory :: "string \<Rightarrow> bytes \<Rightarrow> bytes"
  cl_X509KeyPair :: "bytes \<Rightarrow> bytes \<Rightarrow> go_error + keypair"
  cl_Chain :: "keypair \<Rightarrow> Certificate list"

text \<open>\<^verbatim>\<open>must\<close> and \<^verbatim>\<open>must1\<close>: an error is a panic.\<close>

definition must :: "go_error option \<Rightarrow> unit go" where
  "must err = (case err of None \<Rightarrow> Some () | Some e \<Rightarrow> None)"

definition must1 :: "go_error + 'a \<Rightarrow> 'a go" where
  "must1 r = (case r of Inl err \<Rightarrow> None | Inr v \<Rightarrow> Some v)"

definition hour :: duration where "hour = 3600 * 1000000000"

definition ca_template :: "time \<Rightarrow> Certificate" where
  "ca_template now = \<lparr>x_SerialNumber = 1, x_CommonName = ''test-ca'', x_NotBefore = now - hour, x_NotAfter = now + hour,
     x_IsCA = True, x_KeyUsage = or KeyUsageCertSign KeyUsageDigitalSignature, x_ExtKeyUsage = [],
     x_BasicConstraintsValid = True, x_DNSNames = []\<rparr>"

definition NewCA :: "crypto_lib \<Rightarrow> time \<Rightarrow> nat \<Rightarrow> (Certificate \<times> bytes \<times> bytes) go" where
  "NewCA lib now draw =
     Option.bind (must1 (cl_GenerateKey lib draw)) (\<lambda>key.
     let tmpl = ca_template now in
     Option.bind (must1 (cl_CreateCertificate lib tmpl tmpl (cl_PublicKey lib key) key)) (\<lambda>der.
     Option.bind (must1 (cl_ParseCertificate lib der)) (\<lambda>cert.
     Some (cert, key, cl_EncodeToMemory lib ''CERTIFICATE'' der))))"

definition leaf_template :: "time \<Rightarrow> int \<Rightarrow> Certificate" where
  "leaf_template now serial = \<lparr>x_SerialNumber = serial, x_CommonName = ''leaf'', x_NotBefore = now - hour, x_NotAfter = now + hour,
     x_IsCA = False, x_KeyUsage = KeyUsageDigitalSignature, x_ExtKeyUsage = [ExtKeyUsageServerAuth, ExtKeyUsageClientAuth],
     x_BasicConstraintsValid = False, x_DNSNames = [''localhost'']\<rparr>"

definition NewLeaf :: "crypto_lib \<Rightarrow> time \<Rightarrow> nat \<Rightarrow> Certificate \<Rightarrow> bytes \<Rightarrow> int \<Rightarrow> (bytes \<times> bytes) go" where
  "NewLeaf lib now draw ca caKey serial =
     Option.bind (must1 (cl_GenerateKey lib draw)) (\<lambda>key.
     Option.bind (must1 (cl_CreateCertificate lib (leaf_template now serial) ca (cl_PublicKey lib key) caKey)) (\<lambda>der.
     Option.bind (must1 (cl_MarshalECPrivateKey lib key)) (\<lambda>keyDER.
     Some (cl_EncodeToMemory lib ''CERTIFICATE'' der, cl_EncodeToMemory lib ''EC PRIVATE KEY'' keyDER))))"

definition KeyPair :: "crypto_lib \<Rightarrow> bytes \<Rightarrow> bytes \<Rightarrow> keypair go" where
  "KeyPair lib certPEM keyPEM = must1 (cl_X509KeyPair lib certPEM keyPEM)"

section \<open>Files\<close>

type_synonym files = "string \<rightharpoonup> bytes"

definition ErrNotExist :: go_error where "ErrNotExist = ErrMsg ''file does not exist''"

definition read_file :: "files \<Rightarrow> string \<Rightarrow> go_error + bytes" where
  "read_file fs path = (case fs path of None \<Rightarrow> Inl ErrNotExist | Some b \<Rightarrow> Inr b)"

text \<open>
  \<^verbatim>\<open>os.WriteFile\<close> truncates the file and writes it bit by bit; \<open>wf_write\<close> is after how many bytes it breaks off, with which
  error, and \<open>wf_rename\<close> the error of renaming.  The result has every state that another process may see, the last
  one last.
\<close>

record write_faults =
  wf_write :: "(nat \<times> go_error) option"
  wf_rename :: "go_error option"

definition os_WriteFile :: "(nat \<times> go_error) option \<Rightarrow> string \<Rightarrow> bytes \<Rightarrow> files \<Rightarrow> files list \<times> go_error option" where
  "os_WriteFile fault path data fs =
     (let n = (case fault of None \<Rightarrow> length data | Some (k, e) \<Rightarrow> k) in
      (map (\<lambda>k. fs(path \<mapsto> take k data)) [0..<Suc n], map_option snd fault))"

definition os_Rename :: "go_error option \<Rightarrow> string \<Rightarrow> string \<Rightarrow> files \<Rightarrow> files list \<times> go_error option" where
  "os_Rename fault src dst fs =
     (case fault of
        Some e \<Rightarrow> ([fs], Some e)
      | None \<Rightarrow> (case fs src of None \<Rightarrow> ([fs], Some ErrNotExist) | Some b \<Rightarrow> ([(fs(dst \<mapsto> b))(src := None)], None)))"

definition WriteAtomic :: "write_faults \<Rightarrow> string \<Rightarrow> bytes \<Rightarrow> files \<Rightarrow> files list \<times> unit go" where
  "WriteAtomic flt path data fs =
     (let tmp = path @ ''.tmp'';
          (seen, err) = os_WriteFile (wf_write flt) tmp data fs
      in
      case must err of
        None \<Rightarrow> (seen, None)
      | Some _ \<Rightarrow> (let (seen', err') = os_Rename (wf_rename flt) tmp path (last seen) in (seen @ seen', must err')))"

text \<open>The files as the gateway's TLS code sees them.\<close>

definition files_env :: "crypto_lib \<Rightarrow> (bytes \<Rightarrow> pool) \<Rightarrow> (bytes \<Rightarrow> verify_options \<Rightarrow> go_error option) \<Rightarrow> files \<Rightarrow> tls_env" where
  "files_env lib pem verify fs =
     \<lparr>te_LoadX509KeyPair = (\<lambda>certFile keyFile.
        case read_file fs certFile of
          Inl err \<Rightarrow> Inl err
        | Inr c \<Rightarrow> (case read_file fs keyFile of Inl err \<Rightarrow> Inl err | Inr k \<Rightarrow> cl_X509KeyPair lib c k)),
      te_ReadFile = read_file fs, te_ParsePEM = pem, te_Verify = verify\<rparr>"

section \<open>Probes\<close>

text \<open>
  \<open>nw_Listen\<close> is the error of listening, \<open>nw_Dial\<close> a handshake of a client that verifies nothing and presents the given
  certificate, if any, with a server of the given configuration and reloader: the certificates that the server
  shows.  \<open>nw_Read\<close> is the result of reading from the connection.
\<close>

record tls_network =
  nw_Listen :: "tls_Config \<Rightarrow> go_error option"
  nw_Addr :: string
  nw_Dial :: "tls_Config \<Rightarrow> Reloader \<Rightarrow> keypair option \<Rightarrow> go_error + Certificate list"
  nw_Read :: "go_error option"

definition ServedSerial :: "tls_network \<Rightarrow> tls_Config \<Rightarrow> Reloader \<Rightarrow> go_error + int" where
  "ServedSerial nw cfg r =
     (case nw_Listen nw cfg of
        Some err \<Rightarrow> Inl err
      | None \<Rightarrow>
          (case nw_Dial nw cfg r None of
             Inl err \<Rightarrow> Inl err
           | Inr [] \<Rightarrow> Inl (ErrMsg ''no peer certificates'')
           | Inr (c # cs) \<Rightarrow> Inr (i64 (x_SerialNumber c))))"

text \<open>The address, and the server while it listens.\<close>

definition StartTLSServer :: "tls_network \<Rightarrow> tls_Config \<Rightarrow> (string \<times> tls_Config) go" where
  "StartTLSServer nw cfg = map_option (\<lambda>_. (nw_Addr nw, cfg)) (must (nw_Listen nw cfg))"

definition io_EOF :: go_error where "io_EOF = ErrMsg ''EOF''"

definition MTLSDial :: "tls_network \<Rightarrow> tls_Config \<Rightarrow> Reloader \<Rightarrow> keypair \<Rightarrow> go_error option" where
  "MTLSDial nw cfg r clientCert =
     (case nw_Dial nw cfg r (Some clientCert) of
        Inl err \<Rightarrow> Some err
      | Inr certs \<Rightarrow>
          (case nw_Read nw of
             None \<Rightarrow> None
           | Some readErr \<Rightarrow> if readErr \<noteq> io_EOF then Some readErr else None))"

section \<open>What is relied on\<close>

text \<open>A certificate that was made for a key forms a key pair with it, and carries its serial number.\<close>

definition crypto_sound :: "crypto_lib \<Rightarrow> bool" where
  "crypto_sound lib \<longleftrightarrow>
     (\<forall>tmpl parent key signer der keyDER.
        cl_CreateCertificate lib tmpl parent (cl_PublicKey lib key) signer = Inr der \<longrightarrow>
        cl_MarshalECPrivateKey lib key = Inr keyDER \<longrightarrow>
        (\<exists>kp c cs. cl_X509KeyPair lib (cl_EncodeToMemory lib ''CERTIFICATE'' der) (cl_EncodeToMemory lib ''EC PRIVATE KEY'' keyDER) = Inr kp \<and>
           cl_Chain lib kp = c # cs \<and> x_SerialNumber c = x_SerialNumber tmpl))"

text \<open>A server that asks for no client certificate shows the certificates its configuration gives it.\<close>

definition handshake_sound :: "crypto_lib \<Rightarrow> tls_network \<Rightarrow> bool" where
  "handshake_sound lib nw \<longleftrightarrow>
     (\<forall>cfg r get kp. tc_GetCertificate cfg = Some get \<longrightarrow> get r = Some kp \<longrightarrow> tc_ClientAuth cfg = NoClientCert \<longrightarrow>
        nw_Listen nw cfg = None \<and> nw_Dial nw cfg r None = Inr (cl_Chain lib kp))"

section \<open>Lemmas\<close>

lemma tmp_differs [simp]: "path @ ''.tmp'' \<noteq> path" "path \<noteq> path @ ''.tmp''"
  by simp_all

text \<open>
  Whatever another process sees while a file is written atomically, or after it has failed, is the old contents or the new;
  no other file but the temporary one is touched; and when the call returns the new contents are there.
\<close>

lemma write_atomic_visible:
  assumes "WriteAtomic flt path data fs = (seen, res)"
  shows "seen \<noteq> [] \<and> (\<forall>s \<in> set seen. (s path = fs path \<or> s path = Some data) \<and>
      (\<forall>q. q \<noteq> path \<longrightarrow> q \<noteq> path @ ''.tmp'' \<longrightarrow> s q = fs q)) \<and>
    (res = Some () \<longleftrightarrow> wf_write flt = None \<and> wf_rename flt = None) \<and>
    (res = Some () \<longrightarrow> last seen = (fs(path \<mapsto> data))(path @ ''.tmp'' := None)) \<and>
    (res = None \<longrightarrow> last seen path = fs path)"
proof (cases "wf_write flt")
  case (Some f)
  with assms show ?thesis
    by (cases f) (auto simp: WriteAtomic_def os_WriteFile_def must_def Let_def last_map)
next
  case None
  have last: "last (map (\<lambda>k. fs(path @ ''.tmp'' \<mapsto> take k data)) [0..<Suc (length data)]) = fs(path @ ''.tmp'' \<mapsto> data)"
    by (simp add: last_map)
  from None assms show ?thesis
    by (cases "wf_rename flt")
      (auto simp: WriteAtomic_def os_WriteFile_def os_Rename_def must_def Let_def last fun_upd_twist simp del: upt_Suc)
qed

lemma NewLeaf_pair:
  assumes "crypto_sound lib" "NewLeaf lib now draw ca caKey serial = Some (certPEM, keyPEM)"
  obtains kp c cs where "cl_X509KeyPair lib certPEM keyPEM = Inr kp" "cl_Chain lib kp = c # cs" "x_SerialNumber c = serial"
proof -
  obtain key der keyDER where
    "cl_CreateCertificate lib (leaf_template now serial) ca (cl_PublicKey lib key) caKey = Inr der"
    "cl_MarshalECPrivateKey lib key = Inr keyDER"
    and pem: "certPEM = cl_EncodeToMemory lib ''CERTIFICATE'' der" "keyPEM = cl_EncodeToMemory lib ''EC PRIVATE KEY'' keyDER"
    using assms(2) by (auto simp: NewLeaf_def must1_def split: sum.splits Option.bind_splits)
  then show thesis
    using assms(1) that unfolding crypto_sound_def pem by (metis Certificate.select_convs(1) leaf_template_def)
qed

text \<open>
  A leaf that is put in place of the certificate and key of a server is served after the next reload, with its own serial
  number.
\<close>

theorem renewed_certificate_served:
  assumes "crypto_sound lib" "handshake_sound lib nw"
    and "NewLeaf lib now draw ca caKey serial = Some (certPEM, keyPEM)"
    and "fs (rc_CertFile (rd_cfg r)) = Some certPEM" "fs (rc_KeyFile (rd_cfg r)) = Some keyPEM"
    and "rc_CertFile (rd_cfg r) \<noteq> []" "rc_CAFile (rd_cfg r) = []" "rc_ClientAuth (rd_cfg r) = NoClientCert"
    and "min_i64 \<le> serial" "serial \<le> max_i64"
  shows "\<exists>r'. Reloader_Load (files_env lib pem verify fs) r = (None, r') \<and> ServedSerial nw (ServerConfig_tls r) r' = Inr serial"
proof -
  obtain kp c cs where kp: "cl_X509KeyPair lib certPEM keyPEM = Inr kp" "cl_Chain lib kp = c # cs" "x_SerialNumber c = serial"
    by (rule NewLeaf_pair [OF assms(1,3)])
  let ?r = "r\<lparr>rd_cert := Some kp\<rparr>"
  have "Reloader_Load (files_env lib pem verify fs) r = (None, ?r)"
    using assms(4-7) kp(1) by (simp add: Reloader_Load_def files_env_def read_file_def Let_def)
  moreover have cfg: "tc_GetCertificate (ServerConfig_tls r) = Some rd_cert" "tc_ClientAuth (ServerConfig_tls r) = NoClientCert"
    using assms(8) by (simp_all add: ServerConfig_tls_def Let_def)
  have "nw_Listen nw (ServerConfig_tls r) = None \<and> nw_Dial nw (ServerConfig_tls r) ?r None = Inr (cl_Chain lib kp)"
    using assms(2) [unfolded handshake_sound_def, rule_format, OF cfg(1) _ cfg(2), of ?r kp] by simp
  ultimately show ?thesis using kp assms(9,10) by (simp add: ServedSerial_def i64_id)
qed

text \<open>A library without secrets: a certificate is its serial number in unary digits.\<close>

definition unary :: "int \<Rightarrow> bytes" where
  "unary n = (if n < 0 then CHR ''-'' # replicate (nat (- n)) CHR ''1'' else replicate (nat n) CHR ''1'')"

definition of_unary :: "bytes \<Rightarrow> int" where
  "of_unary b = (case b of CHR ''-'' # ds \<Rightarrow> - int (length ds) | ds \<Rightarrow> int (length ds))"

lemma of_unary_unary: "of_unary (unary n) = n"
  by (cases "nat n") (auto simp: unary_def of_unary_def)

definition sample_crypto :: crypto_lib where
  "sample_crypto = \<lparr>cl_GenerateKey = (\<lambda>i. Inr (unary (int i))), cl_PublicKey = (\<lambda>k. k),
     cl_CreateCertificate = (\<lambda>tmpl parent pub signer. Inr (unary (x_SerialNumber tmpl))),
     cl_ParseCertificate = (\<lambda>der. Inr (leaf_template 0 (of_unary der))), cl_MarshalECPrivateKey = Inr,
     cl_EncodeToMemory = (\<lambda>ty b. b), cl_X509KeyPair = (\<lambda>c k. Inr c),
     cl_Chain = (\<lambda>kp. [leaf_template 0 (of_unary kp)])\<rparr>"

definition sample_network :: tls_network where
  "sample_network = \<lparr>nw_Listen = (\<lambda>cfg. None), nw_Addr = ''127.0.0.1:1'',
     nw_Dial = (\<lambda>cfg r cert. case tc_GetCertificate cfg of
        None \<Rightarrow> Inl (ErrMsg ''handshake failure'')
      | Some get \<Rightarrow> (case get r of None \<Rightarrow> Inl (ErrMsg ''handshake failure'') | Some kp \<Rightarrow> Inr (cl_Chain sample_crypto kp))),
     nw_Read = None\<rparr>"

lemma sample_crypto_sound: "crypto_sound sample_crypto" "handshake_sound sample_crypto sample_network"
  by (auto simp: crypto_sound_def handshake_sound_def sample_crypto_def sample_network_def of_unary_unary leaf_template_def)

definition sample_server :: Reloader where
  "sample_server = \<lparr>rd_cfg = \<lparr>rc_CertFile = ''c'', rc_CAFile = [], rc_KeyFile = ''k'', rc_ServerName = [], rc_MinVersion = VersionTLS12,
     rc_InsecureSkipVerify = False, rc_ClientAuth = NoClientCert, rc_DisableHTTP2 = False\<rparr>, rd_cert = Some (unary 1001), rd_caPool = None\<rparr>"

theorem renewed_certificate_served_witness:
  "\<exists>certPEM keyPEM r'. NewLeaf sample_crypto 0 7 (ca_template 0) [] 2002 = Some (certPEM, keyPEM) \<and>
     Reloader_Load (files_env sample_crypto (\<lambda>b. []) (\<lambda>b v. None) [''c'' \<mapsto> certPEM, ''k'' \<mapsto> keyPEM]) sample_server = (None, r') \<and>
     ServedSerial sample_network (ServerConfig_tls sample_server) r' = Inr 2002"
proof -
  obtain certPEM keyPEM where leaf: "NewLeaf sample_crypto 0 7 (ca_template 0) [] 2002 = Some (certPEM, keyPEM)"
    by (auto simp: NewLeaf_def sample_crypto_def must1_def)
  have "\<exists>r'. Reloader_Load (files_env sample_crypto (\<lambda>b. []) (\<lambda>b v. None) [''c'' \<mapsto> certPEM, ''k'' \<mapsto> keyPEM]) sample_server = (None, r') \<and>
      ServedSerial sample_network (ServerConfig_tls sample_server) r' = Inr 2002"
    by (rule renewed_certificate_served [OF sample_crypto_sound leaf]) (simp_all add: sample_server_def)
  with leaf show ?thesis by blast
qed

text \<open>
  Files that do not form a key pair are not loaded: the reload fails and the same certificate is served as before.
\<close>

lemma broken_certificate_not_served:
  assumes "fs (rc_CertFile (rd_cfg r)) = Some junk" "\<And>k. \<exists>e. cl_X509KeyPair lib junk k = Inl e" "rc_CertFile (rd_cfg r) \<noteq> []"
  shows "\<exists>e. Reloader_Load (files_env lib pem verify fs) r = (Some e, r)"
proof (cases "fs (rc_KeyFile (rd_cfg r))")
  case None
  with assms show ?thesis by (simp add: Reloader_Load_def files_env_def read_file_def Let_def)
next
  case (Some k)
  with assms(2) [of k] assms(1,3) show ?thesis by (auto simp: Reloader_Load_def files_env_def read_file_def Let_def)
qed

end
